theory Spec2Isabelle
  imports Complex_Main "HOL-Library.AList"
begin

section \<open>SPACE PUSH: the authoritative session core\<close>

text \<open>
  A shallow embedding of \<^verbatim>\<open>src/server/gameState.js\<close>, \<^verbatim>\<open>src/server/constants.js\<close> and the
  socket server that follows \<^verbatim>\<open>gameState.js\<close> in the same source file.

  Conventions of the embedding.
  \<^item> JavaScript numbers are modelled exactly: millisecond timestamps (\<^verbatim>\<open>Date.now()\<close>) and
    configured intervals are \<^typ>\<open>int\<close>, counters are \<^typ>\<open>nat\<close>, and coordinates, radii,
    seconds and scores are \<^typ>\<open>real\<close>. IEEE rounding, infinities and NaN are not modelled.
  \<^item> The module-level variables of \<^verbatim>\<open>gameState.js\<close> are the fields of the record \<open>game\<close>;
    every exported function takes the state and returns the new one (with its result).
  \<^item> Every exported function runs synchronously; the clock it reads through
    \<^verbatim>\<open>Date.now()\<close> is its argument \<open>now\<close>, and the numbers it draws from
    \<^verbatim>\<open>Math.random()\<close> are arguments too.
  \<^item> The \<^verbatim>\<open>players\<close> Map is an association list in insertion order:
    \<^verbatim>\<open>Map.set\<close> is \<^const>\<open>AList.update\<close> (an existing key keeps its place, a new key
    goes last), \<^verbatim>\<open>Map.delete\<close> is \<^const>\<open>AList.delete\<close>, \<^verbatim>\<open>Map.get\<close> is
    \<^const>\<open>map_of\<close>. A field assignment to the object a key maps to is an update of the
    entry under that key.
  \<^item> \<^verbatim>\<open>null\<close> and \<^verbatim>\<open>undefined\<close> are \<^const>\<open>None\<close>; JavaScript truthiness
    of a nullable number or string is written out (\<open>truthyNum\<close>, \<open>truthyStr\<close>).
  \<^item> Message payloads have the shape the handlers destructure: a position is a vector, a
    velocity a vector or absent, a name a string or absent.
\<close>

subsection \<open>Constants (constants.js)\<close>

definition PLAYER_COLORS :: "string list" where
  "PLAYER_COLORS =
     [''#ff4444'', ''#44ff44'', ''#4444ff'', ''#ffff44'', ''#ff44ff'', ''#44ffff'',
      ''#ff8844'', ''#88ff44'', ''#4488ff'', ''#ff4488'', ''#44ff88'', ''#8844ff'']"

datatype game_state = LOBBY | COUNTDOWN | PLAYING | ENDED

definition INITIAL_RADIUS :: real where "INITIAL_RADIUS = 10"
definition MIN_RADIUS :: real where "MIN_RADIUS = 4"
definition SHRINK_INTERVAL :: int where "SHRINK_INTERVAL = 30000"
definition SHRINK_AMOUNT :: real where "SHRINK_AMOUNT = 2"
definition SHRINK_WARNING_TIME :: int where "SHRINK_WARNING_TIME = 5000"
definition TICK_INTERVAL :: int where "TICK_INTERVAL = 50"
definition FALL_THRESHOLD :: real where "FALL_THRESHOLD = - 5"
definition COUNTDOWN_DURATION :: int where "COUNTDOWN_DURATION = 3"
definition MAX_PLAYERS :: nat where "MAX_PLAYERS = 40"

subsection \<open>Data model (gameState.js)\<close>

record vec3 =
  vec_x :: real
  vec_y :: real
  vec_z :: real

text \<open>The attribution record \<^verbatim>\<open>{ id, name, timestamp }\<close> kept in \<^verbatim>\<open>lastHitBy\<close>.\<close>

record hit =
  hitId :: string
  hitName :: string
  hitTimestamp :: int

text \<open>
  The player object of \<^verbatim>\<open>createPlayer\<close>. \<^verbatim>\<open>id\<close> and \<^verbatim>\<open>name\<close> are \<open>pid\<close> and
  \<open>pname\<close>; the player's own \<^verbatim>\<open>gameStartTime\<close> is \<open>roundStartTime\<close> (the module
  variable of the same name keeps it). \<^verbatim>\<open>lastUpdate\<close> and \<^verbatim>\<open>eliminatedAt\<close> are
  properties the object gets later; before that they are undefined.
\<close>

record player =
  pid :: string
  pname :: string
  color :: string
  colorIndex :: nat
  position :: vec3
  velocity :: vec3
  isEliminated :: bool
  isReady :: bool
  score :: real
  eliminations :: nat
  survivalTime :: real
  outOfBoundsTime :: real
  isOutOfBounds :: bool
  outOfBoundsStartTime :: "int option"
  roundStartTime :: "int option"
  lastHitBy :: "hit option"
  joinedAt :: int
  lastUpdate :: "int option"
  eliminatedAt :: "int option"

record game =
  gameState :: game_state
  players :: "(string \<times> player) list"
  hostId :: "string option"
  platformRadius :: real
  gameStartTime :: "int option"
  lastShrinkTime :: "int option"

definition initialGame :: game where
  "initialGame =
     \<lparr>gameState = LOBBY, players = [], hostId = None, platformRadius = INITIAL_RADIUS,
      gameStartTime = None, lastShrinkTime = None\<rparr>"

text \<open>\<^verbatim>\<open>if (t)\<close> on a nullable number: null and 0 are falsy.\<close>

definition truthyNum :: "int option \<Rightarrow> bool" where
  "truthyNum t = (case t of None \<Rightarrow> False | Some n \<Rightarrow> n \<noteq> 0)"

text \<open>\<^verbatim>\<open>if (s)\<close> on a nullable string: null, undefined and the empty string are falsy.\<close>

definition truthyStr :: "string option \<Rightarrow> bool" where
  "truthyStr s = (case s of None \<Rightarrow> False | Some t \<Rightarrow> t \<noteq> [])"

text \<open>The decimal digits of a number, for the template string of the default name.\<close>

fun string_of_nat :: "nat \<Rightarrow> string" where
  "string_of_nat n =
     (if n < 10 then [char_of (48 + n)]
      else string_of_nat (n div 10) @ [char_of (48 + n mod 10)])"

text \<open>The spawn point: \<^verbatim>\<open>Math.random()\<close> gave \<open>r1\<close> for the angle and \<open>r2\<close> for the radius.\<close>

definition spawnPosition :: "real \<Rightarrow> real \<Rightarrow> vec3" where
  "spawnPosition r1 r2 =
     (let spawnAngle = r1 * pi * 2;
          spawnRadius = r2 * 3 + 2
      in \<lparr>vec_x = cos spawnAngle * spawnRadius, vec_y = 1, vec_z = sin spawnAngle * spawnRadius\<rparr>)"

definition zeroVec :: vec3 where
  "zeroVec = \<lparr>vec_x = 0, vec_y = 0, vec_z = 0\<rparr>"

subsection \<open>Participants: create, remove, query\<close>

definition createPlayer ::
  "game \<Rightarrow> string \<Rightarrow> string option \<Rightarrow> int \<Rightarrow> real \<Rightarrow> real \<Rightarrow> game \<times> player" where
  "createPlayer st ident nm now r1 r2 =
     (let colorIdx = length (players st) mod length PLAYER_COLORS;
          newPlayer =
            \<lparr>pid = ident,
             pname = (if truthyStr nm then the nm
                      else ''Player'' @ string_of_nat (length (players st) + 1)),
             color = PLAYER_COLORS ! colorIdx,
             colorIndex = colorIdx,
             position = spawnPosition r1 r2,
             velocity = zeroVec,
             isEliminated = False,
             isReady = False,
             score = 0,
             eliminations = 0,
             survivalTime = 0,
             outOfBoundsTime = 0,
             isOutOfBounds = False,
             outOfBoundsStartTime = None,
             roundStartTime = None,
             lastHitBy = None,
             joinedAt = now,
             lastUpdate = None,
             eliminatedAt = None\<rparr>;
          st1 = st\<lparr>players := AList.update ident newPlayer (players st)\<rparr>;
          st2 = (if \<not> truthyStr (hostId st1) then st1\<lparr>hostId := Some ident\<rparr> else st1)
      in (st2, newPlayer))"

text \<open>
  \<^verbatim>\<open>Array.prototype.sort\<close> is stable; so is \<^const>\<open>sort_key\<close>. The list sorted is not
  empty where its first element is read (\<^verbatim>\<open>players.size > 0\<close>).
\<close>

definition removePlayer :: "game \<Rightarrow> string \<Rightarrow> game \<times> player option" where
  "removePlayer st ident =
     (case map_of (players st) ident of
        None \<Rightarrow> (st, None)
      | Some removed \<Rightarrow>
          (let st1 = st\<lparr>players := AList.delete ident (players st)\<rparr>;
               st2 =
                 (if hostId st1 = Some ident then
                    (if length (players st1) > 0 then
                       (let sortedPlayers = sort_key joinedAt (map snd (players st1))
                        in st1\<lparr>hostId := Some (pid (hd sortedPlayers))\<rparr>)
                     else st1\<lparr>hostId := None\<rparr>)
                  else st1)
           in (st2, Some removed)))"

definition getPlayer :: "game \<Rightarrow> string \<Rightarrow> player option" where
  "getPlayer st ident = map_of (players st) ident"

definition getAllPlayers :: "game \<Rightarrow> player list" where
  "getAllPlayers st = map snd (players st)"

definition getPlayerCount :: "game \<Rightarrow> nat" where
  "getPlayerCount st = length (players st)"

definition isHost :: "game \<Rightarrow> string \<Rightarrow> bool" where
  "isHost st ident = (hostId st = Some ident)"

definition getAlivePlayers :: "game \<Rightarrow> player list" where
  "getAlivePlayers st = filter (\<lambda>p. \<not> isEliminated p) (map snd (players st))"

subsection \<open>Kinematics, elimination, phase, platform\<close>

definition updatePlayerPosition ::
  "game \<Rightarrow> string \<Rightarrow> vec3 \<Rightarrow> vec3 option \<Rightarrow> int \<Rightarrow> game" where
  "updatePlayerPosition st ident pos vel now =
     (case map_of (players st) ident of
        None \<Rightarrow> st
      | Some p \<Rightarrow>
          if \<not> isEliminated p then
            (let p1 = p\<lparr>position := pos\<rparr>;
                 p2 = (case vel of None \<Rightarrow> p1 | Some v \<Rightarrow> p1\<lparr>velocity := v\<rparr>);
                 p3 = p2\<lparr>lastUpdate := Some now\<rparr>
             in st\<lparr>players := AList.update ident p3 (players st)\<rparr>)
          else st)"

definition eliminatePlayer :: "game \<Rightarrow> string \<Rightarrow> int \<Rightarrow> game \<times> bool" where
  "eliminatePlayer st ident now =
     (case map_of (players st) ident of
        None \<Rightarrow> (st, False)
      | Some p \<Rightarrow>
          if \<not> isEliminated p then
            (st\<lparr>players :=
                  AList.update ident (p\<lparr>isEliminated := True, eliminatedAt := Some now\<rparr>)
                    (players st)\<rparr>, True)
          else (st, False))"

definition setGameState :: "game \<Rightarrow> game_state \<Rightarrow> int \<Rightarrow> game" where
  "setGameState st s now =
     (let st1 = st\<lparr>gameState := s\<rparr>
      in if s = PLAYING then st1\<lparr>gameStartTime := Some now, lastShrinkTime := Some now\<rparr>
         else st1)"

definition shrinkPlatform :: "game \<Rightarrow> real \<Rightarrow> int \<Rightarrow> game" where
  "shrinkPlatform st newRadius now =
     st\<lparr>platformRadius := max newRadius MIN_RADIUS, lastShrinkTime := Some now\<rparr>"

definition getTimeSinceLastShrink :: "game \<Rightarrow> int \<Rightarrow> int" where
  "getTimeSinceLastShrink st now =
     (if \<not> truthyNum (lastShrinkTime st) then 0 else now - the (lastShrinkTime st))"

definition shouldShrinkPlatform :: "game \<Rightarrow> int \<Rightarrow> int \<Rightarrow> bool" where
  "shouldShrinkPlatform st shrinkInterval now =
     (if \<not> truthyNum (lastShrinkTime st) then False
      else (let timeSinceLastShrink = now - the (lastShrinkTime st)
            in timeSinceLastShrink \<ge> shrinkInterval))"

definition getTimeUntilNextShrink :: "game \<Rightarrow> int \<Rightarrow> int \<Rightarrow> int" where
  "getTimeUntilNextShrink st shrinkInterval now =
     (if \<not> truthyNum (lastShrinkTime st) then - 1
      else (let timeSinceLastShrink = now - the (lastShrinkTime st)
            in max 0 (shrinkInterval - timeSinceLastShrink)))"

record warning =
  isWarning :: bool
  warningProgress :: real

definition getShrinkWarningState :: "game \<Rightarrow> int \<Rightarrow> int \<Rightarrow> int \<Rightarrow> warning" where
  "getShrinkWarningState st shrinkInterval warningTime now =
     (if \<not> truthyNum (lastShrinkTime st) \<or> platformRadius st \<le> MIN_RADIUS then
        \<lparr>isWarning = False, warningProgress = 0\<rparr>
      else
        (let timeUntilShrink = getTimeUntilNextShrink st shrinkInterval now;
             warn = (timeUntilShrink \<le> warningTime \<and> timeUntilShrink > 0)
         in if warn then
              \<lparr>isWarning = warn,
               warningProgress = 1 - real_of_int timeUntilShrink / real_of_int warningTime\<rparr>
            else \<lparr>isWarning = False, warningProgress = 0\<rparr>))"

subsection \<open>Round reset, ready flag, snapshots\<close>

text \<open>
  \<^verbatim>\<open>players.forEach\<close> of \<^verbatim>\<open>resetGame\<close>: the player at index \<open>i\<close> of the iteration draws
  \<open>rnd (2 * i)\<close> for its angle and \<open>rnd (2 * i + 1)\<close> for its radius. Every field is
  assigned on the existing object; \<^verbatim>\<open>id\<close>, \<^verbatim>\<open>name\<close>, \<^verbatim>\<open>color\<close>, \<^verbatim>\<open>colorIndex\<close>,
  \<^verbatim>\<open>joinedAt\<close>, \<^verbatim>\<open>lastUpdate\<close> and \<^verbatim>\<open>eliminatedAt\<close> are not assigned.
\<close>

definition resetPlayer :: "real \<Rightarrow> real \<Rightarrow> player \<Rightarrow> player" where
  "resetPlayer r1 r2 p =
     p\<lparr>position := spawnPosition r1 r2,
       velocity := zeroVec,
       isEliminated := False,
       isReady := False,
       score := 0,
       eliminations := 0,
       survivalTime := 0,
       outOfBoundsTime := 0,
       isOutOfBounds := False,
       outOfBoundsStartTime := None,
       roundStartTime := None,
       lastHitBy := None\<rparr>"

fun resetPlayers :: "(nat \<Rightarrow> real) \<Rightarrow> nat \<Rightarrow> (string \<times> player) list \<Rightarrow> (string \<times> player) list" where
  "resetPlayers rnd i [] = []"
| "resetPlayers rnd i ((k, p) # ps) =
     (k, resetPlayer (rnd (2 * i)) (rnd (2 * i + 1)) p) # resetPlayers rnd (Suc i) ps"

definition resetGame :: "game \<Rightarrow> (nat \<Rightarrow> real) \<Rightarrow> game" where
  "resetGame st rnd =
     st\<lparr>gameState := LOBBY,
        platformRadius := INITIAL_RADIUS,
        gameStartTime := None,
        lastShrinkTime := None,
        players := resetPlayers rnd 0 (players st)\<rparr>"

definition setPlayerReady :: "game \<Rightarrow> string \<Rightarrow> bool \<Rightarrow> game" where
  "setPlayerReady st ident ready =
     (case map_of (players st) ident of
        None \<Rightarrow> st
      | Some p \<Rightarrow> st\<lparr>players := AList.update ident (p\<lparr>isReady := ready\<rparr>) (players st)\<rparr>)"

record snapshot =
  snapGameState :: game_state
  snapPlayers :: "player list"
  snapHostId :: "string option"
  snapPlatformRadius :: real
  snapTimestamp :: int

definition getStateSnapshot :: "game \<Rightarrow> int \<Rightarrow> snapshot" where
  "getStateSnapshot st now =
     \<lparr>snapGameState = gameState st,
      snapPlayers = getAllPlayers st,
      snapHostId = hostId st,
      snapPlatformRadius = platformRadius st,
      snapTimestamp = now\<rparr>"

text \<open>The \<^verbatim>\<open>positions\<close> object, keyed by the Map's key, for the players not eliminated.\<close>

definition getPositionSnapshot :: "game \<Rightarrow> int \<Rightarrow> (string \<times> vec3 \<times> vec3) list \<times> int" where
  "getPositionSnapshot st now =
     (map (\<lambda>(k, p). (k, position p, velocity p))
        (filter (\<lambda>(k, p). \<not> isEliminated p) (players st)), now)"

subsection \<open>Attribution, boundary tracking, scoring\<close>

definition recordCollision :: "game \<Rightarrow> string \<Rightarrow> string \<Rightarrow> int \<Rightarrow> game" where
  "recordCollision st playerId hitterId now =
     (case (map_of (players st) playerId, map_of (players st) hitterId) of
        (Some p, Some hitter) \<Rightarrow>
          if \<not> isEliminated p \<and> \<not> isEliminated hitter then
            st\<lparr>players :=
                 AList.update playerId
                   (p\<lparr>lastHitBy :=
                        Some \<lparr>hitId = pid hitter, hitName = pname hitter, hitTimestamp = now\<rparr>\<rparr>)
                   (players st)\<rparr>
          else st
      | _ \<Rightarrow> st)"

text \<open>
  \<^verbatim>\<open>updateBoundaryStatus(id, platformRadius)\<close>: its second parameter shadows the module
  variable; it is \<open>radius\<close> here. The three branches of the source's if-chain are kept in
  their order; the survival time is updated on every path that does not return early.
\<close>

definition updateBoundaryStatus :: "game \<Rightarrow> string \<Rightarrow> real \<Rightarrow> int \<Rightarrow> game \<times> bool" where
  "updateBoundaryStatus st ident radius now =
     (case map_of (players st) ident of
        None \<Rightarrow> (st, False)
      | Some p \<Rightarrow>
          if isEliminated p then (st, False)
          else
            (let distance = sqrt ((vec_x (position p))\<^sup>2 + (vec_z (position p))\<^sup>2);
                 isCurrentlyOutOfBounds = (distance > radius + 1 \<or> vec_y (position p) < - 1);
                 (p1, eliminate) =
                   (if isCurrentlyOutOfBounds \<and> \<not> isOutOfBounds p then
                      (p\<lparr>isOutOfBounds := True, outOfBoundsStartTime := Some now\<rparr>, False)
                    else if \<not> isCurrentlyOutOfBounds \<and> isOutOfBounds p then
                      (let q = p\<lparr>isOutOfBounds := False\<rparr>;
                           q1 =
                             (if truthyNum (outOfBoundsStartTime q) then
                                (let timeOut =
                                       real_of_int (now - the (outOfBoundsStartTime q)) / 1000
                                 in q\<lparr>outOfBoundsTime := outOfBoundsTime q + timeOut\<rparr>)
                              else q)
                       in (q1\<lparr>outOfBoundsStartTime := None\<rparr>, False))
                    else if isCurrentlyOutOfBounds \<and> isOutOfBounds p then
                      (if truthyNum (outOfBoundsStartTime p) then
                         (let currentOutTime =
                                real_of_int (now - the (outOfBoundsStartTime p)) / 1000;
                              totalOutTime = outOfBoundsTime p + currentOutTime
                          in if totalOutTime \<ge> 10 then
                               (p\<lparr>outOfBoundsTime := totalOutTime,
                                  outOfBoundsStartTime := None\<rparr>, True)
                             else (p, False))
                       else (p, False))
                    else (p, False))
             in if eliminate then
                  (st\<lparr>players := AList.update ident p1 (players st)\<rparr>, True)
                else
                  (let p2 =
                         (if \<not> isEliminated p1 \<and> \<not> isOutOfBounds p1 \<and>
                             truthyNum (roundStartTime p1) then
                            p1\<lparr>survivalTime :=
                                 real_of_int (now - the (roundStartTime p1)) / 1000\<rparr>
                          else p1)
                   in (st\<lparr>players := AList.update ident p2 (players st)\<rparr>, False))))"

definition calculatePlayerScore :: "game \<Rightarrow> string \<Rightarrow> int \<Rightarrow> game" where
  "calculatePlayerScore st ident now =
     (case map_of (players st) ident of
        None \<Rightarrow> st
      | Some p \<Rightarrow>
          (let totalOutTime =
                 (if isOutOfBounds p \<and> truthyNum (outOfBoundsStartTime p) then
                    outOfBoundsTime p + real_of_int (now - the (outOfBoundsStartTime p)) / 1000
                  else outOfBoundsTime p);
               survival =
                 (if \<not> isEliminated p \<and> truthyNum (roundStartTime p) \<and> \<not> isOutOfBounds p then
                    real_of_int (now - the (roundStartTime p)) / 1000
                  else survivalTime p)
           in st\<lparr>players :=
                   AList.update ident
                     (p\<lparr>score :=
                          max 0 (real (eliminations p) * 100 + survival - totalOutTime * 10)\<rparr>)
                     (players st)\<rparr>))"

text \<open>
  The result of \<^verbatim>\<open>eliminatePlayerWithAttribution\<close>; \<^verbatim>\<open>eliminatedBy\<close> is the hitter's
  \<^verbatim>\<open>{ id, name }\<close> or null.
\<close>

record elimination =
  elimPlayerId :: string
  elimPlayerName :: string
  elimReason :: string
  eliminatedBy :: "(string \<times> string) option"
  finalScore :: real

text \<open>
  \<^verbatim>\<open>eliminatePlayerWithAttribution(id, reason = 'boundary')\<close>; both callers pass the reason.
  The hitter is looked up after the eliminated player has been flagged.
\<close>

definition eliminatePlayerWithAttribution ::
  "game \<Rightarrow> string \<Rightarrow> string \<Rightarrow> int \<Rightarrow> game \<times> elimination option" where
  "eliminatePlayerWithAttribution st ident reason now =
     (case map_of (players st) ident of
        None \<Rightarrow> (st, None)
      | Some p \<Rightarrow>
          if isEliminated p then (st, None)
          else
            (let p1 = p\<lparr>isEliminated := True, eliminatedAt := Some now\<rparr>;
                 st1 = st\<lparr>players := AList.update ident p1 (players st)\<rparr>;
                 (st2, by) =
                   (if reason = ''pushed'' \<and> lastHitBy p1 \<noteq> None then
                      (let h = the (lastHitBy p1);
                           timeSinceHit = now - hitTimestamp h
                       in if timeSinceHit < 3000 then
                            (case map_of (players st1) (hitId h) of
                               None \<Rightarrow> (st1, None)
                             | Some hitter \<Rightarrow>
                                 if \<not> isEliminated hitter then
                                   (st1\<lparr>players :=
                                          AList.update (hitId h)
                                            (hitter\<lparr>eliminations := eliminations hitter + 1\<rparr>)
                                            (players st1)\<rparr>,
                                    Some (pid hitter, pname hitter))
                                 else (st1, None))
                          else (st1, None))
                    else (st1, None));
                 st3 = calculatePlayerScore st2 ident now
             in (st3,
                 Some \<lparr>elimPlayerId = ident,
                       elimPlayerName = pname p,
                       elimReason = reason,
                       eliminatedBy = by,
                       finalScore = (case map_of (players st3) ident of
                                       Some p3 \<Rightarrow> score p3 | None \<Rightarrow> score p1)\<rparr>)))"

text \<open>\<^verbatim>\<open>Math.round\<close> rounds to the nearest integer, a half upwards.\<close>

definition jsRound :: "real \<Rightarrow> int" where
  "jsRound v = \<lfloor>v + 1 / 2\<rfloor>"

record score_entry =
  entryId :: string
  entryName :: string
  entryColor :: string
  entryScore :: int
  entryEliminations :: nat
  entrySurvivalTime :: real
  entryOutOfBoundsTime :: real
  entryIsEliminated :: bool
  entryIsOutOfBounds :: bool

text \<open>
  The entry \<^verbatim>\<open>getScoreSnapshot\<close> pushes for a player whose score has just been updated.
\<close>

definition scoreEntry :: "player \<Rightarrow> int \<Rightarrow> score_entry" where
  "scoreEntry p now =
     (let currentOutTime =
            (if isOutOfBounds p \<and> truthyNum (outOfBoundsStartTime p) then
               outOfBoundsTime p + real_of_int (now - the (outOfBoundsStartTime p)) / 1000
             else outOfBoundsTime p);
          survival =
            (if \<not> isEliminated p \<and> truthyNum (roundStartTime p) \<and> \<not> isOutOfBounds p then
               real_of_int (now - the (roundStartTime p)) / 1000
             else survivalTime p)
      in \<lparr>entryId = pid p,
          entryName = pname p,
          entryColor = color p,
          entryScore = jsRound (score p),
          entryEliminations = eliminations p,
          entrySurvivalTime = real_of_int (jsRound (survival * 10)) / 10,
          entryOutOfBoundsTime = real_of_int (jsRound (currentOutTime * 10)) / 10,
          entryIsEliminated = isEliminated p,
          entryIsOutOfBounds = isOutOfBounds p\<rparr>)"

text \<open>
  The \<^verbatim>\<open>forEach\<close> of \<^verbatim>\<open>getScoreSnapshot\<close> over the Map's keys: the score of
  \<^verbatim>\<open>player.id\<close> is recomputed, then the entry is read from the visited object.
\<close>

fun scoreLoop :: "game \<Rightarrow> string list \<Rightarrow> int \<Rightarrow> game \<times> score_entry list" where
  "scoreLoop st [] now = (st, [])"
| "scoreLoop st (k # ks) now =
     (case map_of (players st) k of
        None \<Rightarrow> scoreLoop st ks now
      | Some visited \<Rightarrow>
          (let st1 = calculatePlayerScore st (pid visited) now;
               entry = (case map_of (players st1) k of
                          Some p \<Rightarrow> scoreEntry p now | None \<Rightarrow> scoreEntry visited now);
               (st2, rest) = scoreLoop st1 ks now
           in (st2, entry # rest)))"

definition getScoreSnapshot :: "game \<Rightarrow> int \<Rightarrow> game \<times> score_entry list" where
  "getScoreSnapshot st now =
     (let (st1, scores) = scoreLoop st (map fst (players st)) now
      in (st1, sort_key (\<lambda>e. - entryScore e) scores))"

definition initializeGameTimes :: "game \<Rightarrow> int \<Rightarrow> game" where
  "initializeGameTimes st now =
     st\<lparr>players :=
          map (\<lambda>(k, p).
                 (k, if \<not> isEliminated p then
                       p\<lparr>roundStartTime := Some now,
                         survivalTime := 0,
                         outOfBoundsTime := 0,
                         isOutOfBounds := False,
                         outOfBoundsStartTime := None\<rparr>
                     else p))
            (players st)\<rparr>"

section \<open>The socket server\<close>

text \<open>
  The module-level variables of the server are the fields of the record \<open>server\<close>, next to the
  state of \<^verbatim>\<open>gameState.js\<close> (\<open>store\<close>). The runtime's table of active intervals is
  \<open>timers\<close>: \<^verbatim>\<open>setInterval\<close> adds an entry under a fresh handle and returns the handle,
  \<^verbatim>\<open>clearInterval\<close> deletes the entry of the handle it is given (and does nothing for
  null). A handle is a truthy object, so \<^verbatim>\<open>if (gameLoopInterval)\<close> tests for a handle being
  stored. An entry records which callback the interval runs; the countdown's callback
  closes over its \<^verbatim>\<open>count\<close>, which the entry carries.
\<close>

datatype timer = GameLoopTimer | CountdownTimer int | ScoreTimer

record server =
  store :: game
  gameLoopInterval :: "nat option"
  countdownInterval :: "nat option"
  scoreUpdateInterval :: "nat option"
  previousWarningState :: warning
  timers :: "(nat \<times> timer) list"
  nextHandle :: nat

definition initialServer :: server where
  "initialServer =
     \<lparr>store = initialGame,
      gameLoopInterval = None,
      countdownInterval = None,
      scoreUpdateInterval = None,
      previousWarningState = \<lparr>isWarning = False, warningProgress = 0\<rparr>,
      timers = [],
      nextHandle = 1\<rparr>"

definition setInterval :: "server \<Rightarrow> timer \<Rightarrow> server \<times> nat" where
  "setInterval srv callback =
     (srv\<lparr>timers := timers srv @ [(nextHandle srv, callback)],
          nextHandle := Suc (nextHandle srv)\<rparr>, nextHandle srv)"

definition clearInterval :: "server \<Rightarrow> nat option \<Rightarrow> server" where
  "clearInterval srv handle =
     (case handle of
        None \<Rightarrow> srv
      | Some h \<Rightarrow> srv\<lparr>timers := AList.delete h (timers srv)\<rparr>)"

text \<open>
  What the server emits: to the socket of the handler (\<^verbatim>\<open>socket.emit\<close>), to every client
  (\<^verbatim>\<open>io.emit\<close>), or to every client but the socket (\<^verbatim>\<open>socket.broadcast.emit\<close>).
\<close>

datatype target = ToSocket string | ToAll | ToOthers string

datatype message =
    PlayerCount nat nat
  | JoinError string
  | Joined player bool nat nat snapshot
  | PlayerJoined player "string option"
  | PositionUpdate "(string \<times> vec3 \<times> vec3) list" int
  | PlayerEliminated string string "string option" "(string \<times> string) option"
  | PlatformWarning bool real real
  | PlatformShrink real
  | GameEnd "(string \<times> string \<times> string) option"
  | CountdownMsg int
  | GameStart snapshot
  | ScoreUpdate "score_entry list"
  | KonamiActivated string string string
  | GameReset snapshot
  | PlayerReady string bool
  | PlayerLeft string string "string option"

type_synonym outbox = "(target \<times> message) list"

definition startGameLoop :: "server \<Rightarrow> server" where
  "startGameLoop srv =
     (if gameLoopInterval srv \<noteq> None then srv
      else (let (srv1, h) = setInterval srv GameLoopTimer
            in srv1\<lparr>gameLoopInterval := Some h\<rparr>))"

definition startScoreUpdates :: "server \<Rightarrow> server" where
  "startScoreUpdates srv =
     (if scoreUpdateInterval srv \<noteq> None then srv
      else (let (srv1, h) = setInterval srv ScoreTimer
            in srv1\<lparr>scoreUpdateInterval := Some h\<rparr>))"

definition handleGameEnd :: "server \<Rightarrow> player option \<Rightarrow> int \<Rightarrow> server \<times> outbox" where
  "handleGameEnd srv winner now =
     (if gameState (store srv) = ENDED then (srv, [])
      else
        (let srv1 = srv\<lparr>store := setGameState (store srv) ENDED now\<rparr>;
             srv2 =
               (if scoreUpdateInterval srv1 \<noteq> None then
                  (clearInterval srv1 (scoreUpdateInterval srv1))\<lparr>scoreUpdateInterval := None\<rparr>
                else srv1)
         in (srv2,
             [(ToAll, GameEnd (case winner of
                                 None \<Rightarrow> None
                               | Some w \<Rightarrow> Some (pid w, pname w, color w)))])))"

definition startCountdown :: "server \<Rightarrow> int \<Rightarrow> server \<times> outbox" where
  "startCountdown srv now =
     (let srv1 = srv\<lparr>store := setGameState (store srv) COUNTDOWN now\<rparr>;
          count = COUNTDOWN_DURATION;
          (srv2, h) = setInterval srv1 (CountdownTimer count)
      in (srv2\<lparr>countdownInterval := Some h\<rparr>, [(ToAll, CountdownMsg count)]))"

text \<open>
  The callback of the countdown interval registered under \<open>h\<close>, whose closure holds
  \<open>count\<close>. The decrement is kept in the entry; \<^verbatim>\<open>clearInterval(countdownInterval)\<close> clears
  the handle the module variable holds.
\<close>

definition countdownTick :: "server \<Rightarrow> nat \<Rightarrow> int \<Rightarrow> int \<Rightarrow> server \<times> outbox" where
  "countdownTick srv h count now =
     (let count1 = count - 1;
          srv0 = srv\<lparr>timers := AList.update h (CountdownTimer count1) (timers srv)\<rparr>
      in if count1 > 0 then (srv0, [(ToAll, CountdownMsg count1)])
         else
           (let srv1 = (clearInterval srv0 (countdownInterval srv0))\<lparr>countdownInterval := None\<rparr>;
                srv2 = srv1\<lparr>store := setGameState (store srv1) PLAYING now\<rparr>;
                srv3 = srv2\<lparr>store := initializeGameTimes (store srv2) now\<rparr>;
                out = [(ToAll, GameStart (getStateSnapshot (store srv3) now))];
                srv4 = startGameLoop srv3;
                srv5 = startScoreUpdates srv4
            in (srv5, out)))"

text \<open>
  The body of \<^verbatim>\<open>alivePlayers.forEach\<close> in the game loop, for the players of the list taken
  before the loop: the boundary check, then the fall check. The visited object's position
  is not assigned during the loop, so it is read from the list. The result is the store, the
  eliminations emitted and \<^verbatim>\<open>anyEliminated\<close>.
\<close>

definition eliminatedMessage :: "elimination \<Rightarrow> target \<times> message" where
  "eliminatedMessage info =
     (ToAll, PlayerEliminated (elimPlayerId info) (elimPlayerName info)
               (Some (elimReason info)) (eliminatedBy info))"

text \<open>
  An elimination in the loop: the participant is eliminated with the reason given and, if
  that returned a record, the elimination is broadcast and \<^verbatim>\<open>anyEliminated\<close> is set.
\<close>

definition eliminateAndAnnounce ::
  "game \<Rightarrow> string \<Rightarrow> string \<Rightarrow> int \<Rightarrow> game \<times> outbox \<times> bool" where
  "eliminateAndAnnounce st ident reason now =
     (case eliminatePlayerWithAttribution st ident reason now of
        (st1, Some info) \<Rightarrow> (st1, [eliminatedMessage info], True)
      | (st1, None) \<Rightarrow> (st1, [], False))"

definition checkPlayer :: "game \<Rightarrow> player \<Rightarrow> real \<Rightarrow> int \<Rightarrow> game \<times> outbox \<times> bool" where
  "checkPlayer st p currentRadius now =
     (let (st1, shouldEliminate) = updateBoundaryStatus st (pid p) currentRadius now;
          (st2, out1, any1) =
            (if shouldEliminate then eliminateAndAnnounce st1 (pid p) ''boundary'' now
             else (st1, [], False));
          (st3, out2, any2) =
            (if vec_y (position p) < FALL_THRESHOLD then
               eliminateAndAnnounce st2 (pid p) ''pushed'' now
             else (st2, [], False))
      in (st3, out1 @ out2, any1 \<or> any2))"

fun checkPlayers :: "game \<Rightarrow> player list \<Rightarrow> real \<Rightarrow> int \<Rightarrow> game \<times> outbox \<times> bool" where
  "checkPlayers st [] currentRadius now = (st, [], False)"
| "checkPlayers st (p # ps) currentRadius now =
     (let (st1, out1, any1) = checkPlayer st p currentRadius now;
          (st2, out2, any2) = checkPlayers st1 ps currentRadius now
      in (st2, out1 @ out2, any1 \<or> any2))"

text \<open>
  The callback of the game loop interval (every \<^verbatim>\<open>SERVER.TICK_INTERVAL\<close> ms), in the
  three blocks of its body. First the positions are broadcast, every player alive at the
  start of the tick is checked, and the match ends if an elimination left at most one player
  alive.
\<close>

definition tickEliminations :: "server \<Rightarrow> real \<Rightarrow> int \<Rightarrow> server \<times> outbox" where
  "tickEliminations srv currentRadius now =
     (let (positions, stamp) = getPositionSnapshot (store srv) now;
          out0 = [(ToAll, PositionUpdate positions stamp)];
          alivePlayers = getAlivePlayers (store srv);
          (st1, out1, anyEliminated) = checkPlayers (store srv) alivePlayers currentRadius now;
          srv1 = srv\<lparr>store := st1\<rparr>;
          (srv2, out2) =
            (if anyEliminated then
               (let remaining = getAlivePlayers (store srv1)
                in if length remaining \<le> 1 then
                     handleGameEnd srv1 (case remaining of [] \<Rightarrow> None | w # _ \<Rightarrow> Some w) now
                   else (srv1, []))
             else (srv1, []))
      in (srv2, out0 @ out1 @ out2))"

text \<open>
  Then the shrink warning: \<^verbatim>\<open>platformWarning\<close> is emitted only when the warning state
  differs from the one last emitted (the flag flips, or the progress of an active warning
  has moved by more than 0.05).
\<close>

definition tickWarning :: "server \<Rightarrow> real \<Rightarrow> int \<Rightarrow> server \<times> outbox" where
  "tickWarning srv currentRadius now =
     (let warningState = getShrinkWarningState (store srv) SHRINK_INTERVAL SHRINK_WARNING_TIME now;
          warningChanged =
            (isWarning (previousWarningState srv) \<noteq> isWarning warningState \<or>
             (isWarning warningState \<and>
              \<bar>warningProgress (previousWarningState srv) - warningProgress warningState\<bar>
                > 5 / 100))
      in if warningChanged then
           (srv\<lparr>previousWarningState :=
                  \<lparr>isWarning = isWarning warningState,
                   warningProgress = warningProgress warningState\<rparr>\<rparr>,
            [(ToAll, PlatformWarning (isWarning warningState) (warningProgress warningState)
                       currentRadius)])
         else (srv, []))"

text \<open>Last the shrink, every \<^verbatim>\<open>SHRINK_INTERVAL\<close> ms while the radius is above the minimum.\<close>

definition tickShrink :: "server \<Rightarrow> real \<Rightarrow> int \<Rightarrow> server \<times> outbox" where
  "tickShrink srv currentRadius now =
     (if currentRadius > MIN_RADIUS \<and> shouldShrinkPlatform (store srv) SHRINK_INTERVAL now then
        (let newRadius = currentRadius - SHRINK_AMOUNT;
             srv1 = srv\<lparr>store := shrinkPlatform (store srv) newRadius now\<rparr>
         in (srv1, [(ToAll, PlatformShrink (platformRadius (store srv1)))]))
      else (srv, []))"

definition gameLoopTick :: "server \<Rightarrow> int \<Rightarrow> server \<times> outbox" where
  "gameLoopTick srv now =
     (if gameState (store srv) = PLAYING then
        (let currentRadius = platformRadius (store srv);
             (srv1, out1) = tickEliminations srv currentRadius now;
             (srv2, out2) = tickWarning srv1 currentRadius now;
             (srv3, out3) = tickShrink srv2 currentRadius now
         in (srv3, out1 @ out2 @ out3))
      else (srv, []))"

text \<open>The callback of the score interval (once per second).\<close>

definition scoreTick :: "server \<Rightarrow> int \<Rightarrow> server \<times> outbox" where
  "scoreTick srv now =
     (if gameState (store srv) = PLAYING then
        (let (st1, scores) = getScoreSnapshot (store srv) now
         in (srv\<lparr>store := st1\<rparr>, [(ToAll, ScoreUpdate scores)]))
      else (srv, []))"

subsection \<open>Message handlers\<close>

text \<open>\<^verbatim>\<open>io.on('connection')\<close>: the count is sent to the new socket before it joins.\<close>

definition onConnection :: "server \<Rightarrow> string \<Rightarrow> server \<times> outbox" where
  "onConnection srv sid =
     (srv, [(ToSocket sid, PlayerCount (getPlayerCount (store srv)) MAX_PLAYERS)])"

definition onJoin ::
  "server \<Rightarrow> string \<Rightarrow> string option \<Rightarrow> int \<Rightarrow> real \<Rightarrow> real \<Rightarrow> server \<times> outbox" where
  "onJoin srv sid nm now r1 r2 =
     (let currentCount = getPlayerCount (store srv)
      in if currentCount \<ge> MAX_PLAYERS then
           (srv, [(ToSocket sid, JoinError ''Server is full'')])
         else
           (let (st1, newPlayer) = createPlayer (store srv) sid nm now r1 r2;
                srv1 = srv\<lparr>store := st1\<rparr>;
                isPlayerHost = isHost (store srv1) sid;
                newCount = getPlayerCount (store srv1);
                out =
                  [(ToSocket sid,
                      Joined newPlayer isPlayerHost newCount MAX_PLAYERS
                        (getStateSnapshot (store srv1) now)),
                   (ToOthers sid, PlayerJoined newPlayer (hostId (store srv1))),
                   (ToAll, PlayerCount newCount MAX_PLAYERS)]
            in (startGameLoop srv1, out)))"

definition onInput :: "server \<Rightarrow> string \<Rightarrow> vec3 \<Rightarrow> vec3 option \<Rightarrow> int \<Rightarrow> server \<times> outbox" where
  "onInput srv sid pos vel now =
     (if gameState (store srv) \<noteq> PLAYING then (srv, [])
      else
        (case getPlayer (store srv) sid of
           None \<Rightarrow> (srv, [])
         | Some p \<Rightarrow>
             if \<not> isEliminated p then
               (srv\<lparr>store := updatePlayerPosition (store srv) sid pos vel now\<rparr>, [])
             else (srv, [])))"

definition onCollision :: "server \<Rightarrow> string \<Rightarrow> string \<Rightarrow> int \<Rightarrow> server \<times> outbox" where
  "onCollision srv sid otherPlayerId now =
     (if gameState (store srv) \<noteq> PLAYING then (srv, [])
      else
        (case (getPlayer (store srv) sid, getPlayer (store srv) otherPlayerId) of
           (Some p, Some otherPlayer) \<Rightarrow>
             if \<not> isEliminated p \<and> \<not> isEliminated otherPlayer then
               (srv\<lparr>store := recordCollision (store srv) otherPlayerId sid now\<rparr>, [])
             else (srv, [])
         | _ \<Rightarrow> (srv, [])))"

definition onStartGame :: "server \<Rightarrow> string \<Rightarrow> int \<Rightarrow> server \<times> outbox" where
  "onStartGame srv sid now =
     (if \<not> isHost (store srv) sid then (srv, [])
      else if gameState (store srv) \<noteq> LOBBY then (srv, [])
      else if length (getAllPlayers (store srv)) < 1 then (srv, [])
      else startCountdown srv now)"

definition onReady :: "server \<Rightarrow> string \<Rightarrow> bool \<Rightarrow> server \<times> outbox" where
  "onReady srv sid ready =
     (srv\<lparr>store := setPlayerReady (store srv) sid ready\<rparr>, [(ToAll, PlayerReady sid ready)])"

text \<open>
  The Konami handler eliminates every other alive player with \<^verbatim>\<open>eliminatePlayer\<close> (no
  reason, no attribution) and announces each.
\<close>

fun konamiEliminate :: "game \<Rightarrow> player list \<Rightarrow> string \<Rightarrow> int \<Rightarrow> game \<times> outbox" where
  "konamiEliminate st [] sid now = (st, [])"
| "konamiEliminate st (p # ps) sid now =
     (if pid p \<noteq> sid then
        (let (st1, ok) = eliminatePlayer st (pid p) now;
             (st2, out) = konamiEliminate st1 ps sid now
         in (st2, (ToAll, PlayerEliminated (pid p) (pname p) None None) # out))
      else konamiEliminate st ps sid now)"

definition onKonamiCode :: "server \<Rightarrow> string \<Rightarrow> int \<Rightarrow> server \<times> outbox" where
  "onKonamiCode srv sid now =
     (if gameState (store srv) \<noteq> PLAYING then (srv, [])
      else
        (case getPlayer (store srv) sid of
           None \<Rightarrow> (srv, [])
         | Some activator \<Rightarrow>
             if isEliminated activator then (srv, [])
             else
               (let (st1, out1) =
                      konamiEliminate (store srv) (getAlivePlayers (store srv)) sid now;
                    srv1 = srv\<lparr>store := st1\<rparr>;
                    out2 =
                      [(ToAll, KonamiActivated (pid activator) (pname activator)
                                 (color activator))];
                    (srv2, out3) = handleGameEnd srv1 (Some activator) now
                in (srv2, out1 @ out2 @ out3))))"

definition onPlayAgain :: "server \<Rightarrow> string \<Rightarrow> int \<Rightarrow> (nat \<Rightarrow> real) \<Rightarrow> server \<times> outbox" where
  "onPlayAgain srv sid now rnd =
     (if \<not> isHost (store srv) sid then (srv, [])
      else if gameState (store srv) \<noteq> ENDED then (srv, [])
      else
        (let srv1 = srv\<lparr>store := resetGame (store srv) rnd\<rparr>;
             srv2 = srv1\<lparr>previousWarningState := \<lparr>isWarning = False, warningProgress = 0\<rparr>\<rparr>
         in (srv2, [(ToAll, GameReset (getStateSnapshot (store srv2) now))])))"

definition onDisconnect :: "server \<Rightarrow> string \<Rightarrow> int \<Rightarrow> server \<times> outbox" where
  "onDisconnect srv sid now =
     (case removePlayer (store srv) sid of
        (st1, None) \<Rightarrow> (srv\<lparr>store := st1\<rparr>, [])
      | (st1, Some removed) \<Rightarrow>
          (let srv1 = srv\<lparr>store := st1\<rparr>;
               newCount = getPlayerCount (store srv1);
               out1 =
                 [(ToAll, PlayerLeft sid (pname removed) (hostId (store srv1))),
                  (ToAll, PlayerCount newCount MAX_PLAYERS)];
               (srv2, out2) =
                 (if gameState (store srv1) = PLAYING then
                    (let remaining = getAlivePlayers (store srv1)
                     in if length remaining \<le> 1 then
                          handleGameEnd srv1
                            (case remaining of [] \<Rightarrow> None | w # _ \<Rightarrow> Some w) now
                        else (srv1, []))
                  else (srv1, []))
           in (srv2, out1 @ out2)))"

subsection \<open>The event loop\<close>

text \<open>
  One turn of the event loop: a socket message, or an interval firing. An interval fires only
  while its handle is in the runtime's table. \<open>rnd\<close> are the numbers \<^verbatim>\<open>Math.random()\<close>
  gives during the turn.
\<close>

datatype event =
    Connection string
  | Join string "string option"
  | Input string vec3 "vec3 option"
  | Collision string string
  | StartGame string
  | Ready string bool
  | KonamiCode string
  | PlayAgain string
  | Disconnect string
  | TimerFires nat

fun serverStep :: "server \<Rightarrow> int \<Rightarrow> (nat \<Rightarrow> real) \<Rightarrow> event \<Rightarrow> server \<times> outbox" where
  "serverStep srv now rnd (Connection sid) = onConnection srv sid"
| "serverStep srv now rnd (Join sid nm) = onJoin srv sid nm now (rnd 0) (rnd 1)"
| "serverStep srv now rnd (Input sid pos vel) = onInput srv sid pos vel now"
| "serverStep srv now rnd (Collision sid other) = onCollision srv sid other now"
| "serverStep srv now rnd (StartGame sid) = onStartGame srv sid now"
| "serverStep srv now rnd (Ready sid ready) = onReady srv sid ready"
| "serverStep srv now rnd (KonamiCode sid) = onKonamiCode srv sid now"
| "serverStep srv now rnd (PlayAgain sid) = onPlayAgain srv sid now rnd"
| "serverStep srv now rnd (Disconnect sid) = onDisconnect srv sid now"
| "serverStep srv now rnd (TimerFires h) =
     (case map_of (timers srv) h of
        None \<Rightarrow> (srv, [])
      | Some GameLoopTimer \<Rightarrow> gameLoopTick srv now
      | Some (CountdownTimer count) \<Rightarrow> countdownTick srv h count now
      | Some ScoreTimer \<Rightarrow> scoreTick srv now)"

text \<open>A run of the server from a state: the events of a trace in order, each at its time.\<close>

fun run :: "server \<Rightarrow> (int \<times> event) list \<Rightarrow> server" where
  "run srv [] = srv"
| "run srv ((now, ev) # evs) = run (fst (serverStep srv now (\<lambda>_. 0) ev)) evs"

text \<open>The states the server can be in: the initial state and what a turn makes of one.\<close>

inductive reachable :: "server \<Rightarrow> bool" where
  reachable_init: "reachable initialServer"
| reachable_step: "reachable srv \<Longrightarrow> reachable (fst (serverStep srv now rnd ev))"

section \<open>Notions of the specification\<close>

text \<open>
  The eliminations counter of every participant, by key: what an elimination may or may not
  increment.
\<close>

definition eliminationsOf :: "game \<Rightarrow> string \<Rightarrow> nat option" where
  "eliminationsOf st k = map_option eliminations (map_of (players st) k)"

text \<open>
  The recorded hitter is alive at credit time: credit is decided once the eliminated
  participant has been flagged, so the hitter is another participant, present in the session
  and not eliminated (a member of \<^verbatim>\<open>getAlivePlayers()\<close> at that moment).
\<close>

definition hitterAliveAtCredit :: "game \<Rightarrow> string \<Rightarrow> string \<Rightarrow> bool" where
  "hitterAliveAtCredit st victim hitterId =
     (hitterId \<noteq> victim \<and>
      (case map_of (players st) hitterId of None \<Rightarrow> False | Some q \<Rightarrow> \<not> isEliminated q))"

text \<open>
  The specification's condition for attribution: the reason is \<^verbatim>\<open>pushed\<close>, a hit is
  recorded, less than 3000 ms have passed since it, and the hitter is alive at credit time.
\<close>

definition attributionDue :: "game \<Rightarrow> string \<Rightarrow> player \<Rightarrow> string \<Rightarrow> int \<Rightarrow> bool" where
  "attributionDue st victim p reason now =
     (reason = ''pushed'' \<and>
      (case lastHitBy p of
         None \<Rightarrow> False
       | Some h \<Rightarrow> now - hitTimestamp h < 3000 \<and> hitterAliveAtCredit st victim (hitId h)))"

text \<open>
  The specification's \<open>survivalTimeSeconds\<close>: the stored survival time, or, while the
  participant is in bounds in a running round and not eliminated, the seconds elapsed since
  the round started.
\<close>

definition survivalTimeSeconds :: "player \<Rightarrow> int \<Rightarrow> real" where
  "survivalTimeSeconds p now =
     (if \<not> isEliminated p \<and> \<not> isOutOfBounds p \<and> truthyNum (roundStartTime p)
      then real_of_int (now - the (roundStartTime p)) / 1000
      else survivalTime p)"

text \<open>
  The specification's \<open>outOfBoundsTimeSeconds\<close>, its cumulative out-of-bounds time: the
  stored time plus the excursion in progress, if there is one.
\<close>

definition outOfBoundsTimeSeconds :: "player \<Rightarrow> int \<Rightarrow> real" where
  "outOfBoundsTimeSeconds p now =
     outOfBoundsTime p +
     (if isOutOfBounds p \<and> truthyNum (outOfBoundsStartTime p)
      then real_of_int (now - the (outOfBoundsStartTime p)) / 1000 else 0)"


text \<open>
  The operations of \<^verbatim>\<open>gameState.js\<close> that change the store: every exported function that
  assigns to a module variable, to the players Map or to a field of a player object, each with
  its arguments (the random draws of \<^verbatim>\<open>createPlayer\<close> and \<^verbatim>\<open>resetGame\<close> among them).
\<close>

datatype mutation =
    CreatePlayer string "string option" real real
  | RemovePlayer string
  | UpdatePlayerPosition string vec3 "vec3 option"
  | EliminatePlayer string
  | SetGameState game_state
  | ShrinkPlatform real
  | ResetGame "nat \<Rightarrow> real"
  | SetPlayerReady string bool
  | RecordCollision string string
  | UpdateBoundaryStatus string real
  | EliminatePlayerWithAttribution string string
  | CalculatePlayerScore string
  | GetScoreSnapshot
  | InitializeGameTimes

fun applyMutation :: "game \<Rightarrow> int \<Rightarrow> mutation \<Rightarrow> game" where
  "applyMutation st now (CreatePlayer k nm r1 r2) = fst (createPlayer st k nm now r1 r2)"
| "applyMutation st now (RemovePlayer k) = fst (removePlayer st k)"
| "applyMutation st now (UpdatePlayerPosition k pos vel) = updatePlayerPosition st k pos vel now"
| "applyMutation st now (EliminatePlayer k) = fst (eliminatePlayer st k now)"
| "applyMutation st now (SetGameState s) = setGameState st s now"
| "applyMutation st now (ShrinkPlatform r) = shrinkPlatform st r now"
| "applyMutation st now (ResetGame rnd) = resetGame st rnd"
| "applyMutation st now (SetPlayerReady k ready) = setPlayerReady st k ready"
| "applyMutation st now (RecordCollision k hitter) = recordCollision st k hitter now"
| "applyMutation st now (UpdateBoundaryStatus k r) = fst (updateBoundaryStatus st k r now)"
| "applyMutation st now (EliminatePlayerWithAttribution k reason) =
     fst (eliminatePlayerWithAttribution st k reason now)"
| "applyMutation st now (CalculatePlayerScore k) = calculatePlayerScore st k now"
| "applyMutation st now GetScoreSnapshot = fst (getScoreSnapshot st now)"
| "applyMutation st now InitializeGameTimes = initializeGameTimes st now"

text \<open>
  The operations that start the participant \<open>ident\<close> over: the round reset, which resets
  every record; \<^verbatim>\<open>createPlayer\<close> under its id, which puts a newly built record in the place of
  the one in the Map (\<^verbatim>\<open>players.set\<close>); and \<^verbatim>\<open>removePlayer\<close> of its id, which deletes the
  entry.
\<close>

fun startsOver :: "mutation \<Rightarrow> string \<Rightarrow> bool" where
  "startsOver (ResetGame rnd) ident = True"
| "startsOver (CreatePlayer k nm r1 r2) ident = (k = ident)"
| "startsOver (RemovePlayer k) ident = (k = ident)"
| "startsOver m ident = False"

text \<open>The module variables of \<^verbatim>\<open>gameState.js\<close> other than the players Map.\<close>

definition sessionVars ::
  "game \<Rightarrow> game_state \<times> string option \<times> real \<times> int option \<times> int option" where
  "sessionVars st =
     (gameState st, hostId st, platformRadius st, gameStartTime st, lastShrinkTime st)"

text \<open>
  The kinematic state of a participant (position, velocity and the time of the last update)
  and its scoring-accrual state (the kill count, the two accrued times with the boundary flag
  and the two start markers, and the attribution record). The score is computed from these
  and the clock and stored in a field of its own; it belongs to neither.
\<close>

definition kinematicState :: "player \<Rightarrow> vec3 \<times> vec3 \<times> int option" where
  "kinematicState p = (position p, velocity p, lastUpdate p)"

definition accrualState ::
  "player \<Rightarrow> nat \<times> real \<times> real \<times> bool \<times> int option \<times> int option \<times> hit option" where
  "accrualState p =
     (eliminations p, survivalTime p, outOfBoundsTime p, isOutOfBounds p,
      outOfBoundsStartTime p, roundStartTime p, lastHitBy p)"

text \<open>
  A record \<open>p'\<close> is the eliminated record \<open>p\<close> as the elimination left it: still eliminated,
  at the same time, with the same kinematic and scoring-accrual state.
\<close>

definition settled :: "player \<Rightarrow> player \<Rightarrow> bool" where
  "settled p p' =
     (isEliminated p' \<and> eliminatedAt p' = eliminatedAt p \<and>
      kinematicState p' = kinematicState p \<and> accrualState p' = accrualState p)"

text \<open>
  The identity of a participant record across a reset: the fields \<^verbatim>\<open>resetGame\<close> does not
  assign.
\<close>

definition identityOf :: "player \<Rightarrow> string \<times> string \<times> string \<times> nat \<times> int" where
  "identityOf p = (pid p, pname p, color p, colorIndex p, joinedAt p)"

text \<open>
  The store calls of a round restart: \<^verbatim>\<open>resetGame\<close> (on \<^verbatim>\<open>playAgain\<close>), then the countdown
  (\<^verbatim>\<open>setGameState(COUNTDOWN)\<close> at \<open>t1\<close>) and its last tick at \<open>t2\<close>
  (\<^verbatim>\<open>setGameState(PLAYING)\<close>, \<^verbatim>\<open>initializeGameTimes()\<close>).
\<close>

definition restartRound :: "game \<Rightarrow> (nat \<Rightarrow> real) \<Rightarrow> int \<Rightarrow> int \<Rightarrow> game" where
  "restartRound st rnd t1 t2 =
     initializeGameTimes
       (setGameState (setGameState (resetGame st rnd) COUNTDOWN t1) PLAYING t2) t2"

text \<open>
  The \<^verbatim>\<open>platformWarning\<close> messages among those emitted: the flag, the progress and the
  radius of each.
\<close>

fun warningsIn :: "outbox \<Rightarrow> (bool \<times> real \<times> real) list" where
  "warningsIn [] = []"
| "warningsIn ((t, PlatformWarning w progress r) # out) = (w, progress, r) # warningsIn out"
| "warningsIn (m # out) = warningsIn out"

text \<open>
  What the timers depend on: the phase, the three handle variables and the runtime's table.
\<close>

definition controlOf ::
  "server \<Rightarrow> game_state \<times> nat option \<times> nat option \<times> nat option \<times> (nat \<times> timer) list \<times> nat" where
  "controlOf srv =
     (gameState (store srv), gameLoopInterval srv, countdownInterval srv,
      scoreUpdateInterval srv, timers srv, nextHandle srv)"

text \<open>
  Every interval in the runtime's table is held by the module variable of its kind, and
  every handle a module variable holds is in the table with that kind.
\<close>

definition timersHeld :: "server \<Rightarrow> bool" where
  "timersHeld srv =
     (distinct (map fst (timers srv)) \<and>
      list_all (\<lambda>(h, t). h < nextHandle srv \<and>
                  (case t of
                     GameLoopTimer \<Rightarrow> gameLoopInterval srv = Some h
                   | CountdownTimer c \<Rightarrow> countdownInterval srv = Some h
                   | ScoreTimer \<Rightarrow> scoreUpdateInterval srv = Some h))
        (timers srv) \<and>
      (case gameLoopInterval srv of
         None \<Rightarrow> True | Some h \<Rightarrow> map_of (timers srv) h = Some GameLoopTimer) \<and>
      (case countdownInterval srv of
         None \<Rightarrow> True
       | Some h \<Rightarrow> (case map_of (timers srv) h of Some (CountdownTimer c) \<Rightarrow> True | _ \<Rightarrow> False)) \<and>
      (case scoreUpdateInterval srv of
         None \<Rightarrow> True | Some h \<Rightarrow> map_of (timers srv) h = Some ScoreTimer))"

text \<open>
  The same, of the table read as a map from handles to callbacks: \<open>n\<close> is the next handle
  and \<open>g\<close>, \<open>c\<close>, \<open>s\<close> are the handles held for the game loop, the countdown and the score
  loop.
\<close>

definition heldMap ::
  "(nat \<rightharpoonup> timer) \<Rightarrow> nat \<Rightarrow> nat option \<Rightarrow> nat option \<Rightarrow> nat option \<Rightarrow> bool" where
  "heldMap m n g c s =
     ((\<forall>h t. m h = Some t \<longrightarrow>
         h < n \<and>
         (case t of
            GameLoopTimer \<Rightarrow> g = Some h
          | CountdownTimer k \<Rightarrow> c = Some h
          | ScoreTimer \<Rightarrow> s = Some h)) \<and>
      (\<forall>h. g = Some h \<longrightarrow> m h = Some GameLoopTimer) \<and>
      (\<forall>h. c = Some h \<longrightarrow> (\<exists>k. m h = Some (CountdownTimer k))) \<and>
      (\<forall>h. s = Some h \<longrightarrow> m h = Some ScoreTimer))"

text \<open>
  The countdown interval is active exactly during the countdown and the score interval
  exactly while the match is played; no interval is active that the server does not hold.
\<close>

definition timersFollowPhase :: "server \<Rightarrow> bool" where
  "timersFollowPhase srv =
     (timersHeld srv \<and>
      (countdownInterval srv \<noteq> None) = (gameState (store srv) = COUNTDOWN) \<and>
      (scoreUpdateInterval srv \<noteq> None) = (gameState (store srv) = PLAYING))"

section \<open>Example sessions\<close>

text \<open>Ann and Bob join; the round starts at 1000.\<close>

definition duelLobby :: game where
  "duelLobby =
     fst (createPlayer (fst (createPlayer initialGame ''ann'' (Some ''Ann'') 100 0 0))
            ''bob'' (Some ''Bob'') 200 0 0)"

definition duelPlaying :: game where
  "duelPlaying = initializeGameTimes (setGameState duelLobby PLAYING 1000) 1000"

text \<open>Bob hits Ann at 5000.\<close>

definition duelHit :: game where
  "duelHit = recordCollision duelPlaying ''ann'' ''bob'' 5000"

text \<open>Ann is pushed out at 6000: the round is over, with one elimination for Bob.\<close>

definition duelOver :: game where
  "duelOver = fst (eliminatePlayerWithAttribution duelHit ''ann'' ''pushed'' 6000)"

text \<open>
  Ann reports a position 20 units from the centre (the radius is 10); the tick at 2000 sees
  her leave the arena.
\<close>

definition annOutside :: game where
  "annOutside =
     fst (updateBoundaryStatus
            (updatePlayerPosition duelPlaying ''ann''
               \<lparr>vec_x = 20, vec_y = 1, vec_z = 0\<rparr> None 1900)
            ''ann'' 10 2000)"


text \<open>
  The scenario of the specification: 2 eliminations, 45.3 s survived, 3.0 s out of bounds.
\<close>

definition annScored :: game where
  "annScored =
     initialGame\<lparr>players :=
       [(''ann'',
         (snd (createPlayer initialGame ''ann'' (Some ''Ann'') 100 0 0))
           \<lparr>eliminations := 2, survivalTime := 453 / 10, outOfBoundsTime := 3\<rparr>)]\<rparr>"

text \<open>A server at capacity: forty participants.\<close>

definition fullServer :: server where
  "fullServer =
     initialServer\<lparr>store :=
       initialGame\<lparr>players :=
         map (\<lambda>i. (string_of_nat i,
                    snd (createPlayer initialGame (string_of_nat i) None (int i) 0 0)))
           [0..<40]\<rparr>\<rparr>"

text \<open>
  A match of one: Ann joins and starts the game, and the countdown runs its three ticks
  (\<open>soloStart\<close>); Ann ends the match with the Konami code (\<open>soloMatch\<close>); then she asks
  to play again (\<open>soloRematch\<close>). The game loop gets the handle 1, the countdown 2 and the
  score loop 3.
\<close>

definition soloStart :: "(int \<times> event) list" where
  "soloStart =
     [(100, Join ''ann'' (Some ''Ann'')), (200, StartGame ''ann''),
      (1200, TimerFires 2), (2200, TimerFires 2), (3200, TimerFires 2)]"

definition soloMatch :: "(int \<times> event) list" where
  "soloMatch = soloStart @ [(4000, KonamiCode ''ann'')]"

definition soloRematch :: "(int \<times> event) list" where
  "soloRematch = soloMatch @ [(5000, PlayAgain ''ann'')]"

text \<open>
  A match of three: Ann, Bob and Cat join, Ann starts the game and the countdown runs out at
  3400 (\<open>trioStart\<close>). The tick at 4000 finds all three on the platform; then Ann reports
  a position six units below it, and the tick at 4050 eliminates her while Bob and Cat play
  on (\<open>trioFall\<close>). From there either the score loop fires at 5000 (\<open>trioScored\<close>), or Ann's
  socket sends \<^verbatim>\<open>join\<close> a second time at 5100 (\<open>trioRejoin\<close>).
\<close>

definition trioStart :: "(int \<times> event) list" where
  "trioStart =
     [(100, Join ''ann'' (Some ''Ann'')), (200, Join ''bob'' (Some ''Bob'')),
      (300, Join ''cat'' (Some ''Cat'')), (400, StartGame ''ann''),
      (1400, TimerFires 2), (2400, TimerFires 2), (3400, TimerFires 2)]"

definition trioFall :: "(int \<times> event) list" where
  "trioFall = trioStart @
     [(4000, TimerFires 1),
      (4020, Input ''ann'' \<lparr>vec_x = 0, vec_y = - 6, vec_z = 0\<rparr> None),
      (4050, TimerFires 1)]"

definition trioScored :: "(int \<times> event) list" where
  "trioScored = trioFall @ [(5000, TimerFires 3)]"

definition trioRejoin :: "(int \<times> event) list" where
  "trioRejoin = trioFall @ [(5100, Join ''ann'' (Some ''Ann''))]"

text \<open>
  A round whose arena has shrunk to the minimum radius, the last shrink at 91000; and the
  same round one shrink earlier.
\<close>

definition minArena :: server where
  "minArena =
     initialServer\<lparr>store := duelPlaying\<lparr>platformRadius := 4, lastShrinkTime := Some 91000\<rparr>,
                   gameLoopInterval := Some 1,
                   timers := [(1, GameLoopTimer)],
                   nextHandle := 2\<rparr>"

definition smallArena :: server where
  "smallArena =
     initialServer\<lparr>store := duelPlaying\<lparr>platformRadius := 6, lastShrinkTime := Some 91000\<rparr>,
                   gameLoopInterval := Some 1,
                   timers := [(1, GameLoopTimer)],
                   nextHandle := 2\<rparr>"

section \<open>Verification\<close>

subsection \<open>The players Map\<close>

lemma map_of_update_if:
  "map_of (AList.update k v al) k' = (if k' = k then Some v else map_of al k')"
  by (simp add: update_conv')

lemmas session_defs =
  createPlayer_def initialGame_def truthyStr_def truthyNum_def Let_def setGameState_def
  initializeGameTimes_def recordCollision_def updatePlayerPosition_def map_of_update_if

lemma spawnPosition_origin: "spawnPosition 0 0 = \<lparr>vec_x = 2, vec_y = 1, vec_z = 0\<rparr>"
  by (simp add: spawnPosition_def Let_def)

text \<open>A run in two parts; and a run from a state the server can reach ends in one.\<close>

lemma run_append: "run srv (xs @ ys) = run (run srv xs) ys"
  by (induction xs arbitrary: srv) auto

lemma reachable_run: "reachable srv \<Longrightarrow> reachable (run srv trace)"
proof (induction trace arbitrary: srv)
  case Nil
  then show ?case by simp
next
  case (Cons e trace)
  obtain now ev where e: "e = (now, ev)" by (cases e)
  from Cons.prems have "reachable (fst (serverStep srv now (\<lambda>_. 0) ev))"
    by (rule reachable_step)
  from Cons.IH [OF this] e show ?case by simp
qed

lemma eliminationsOf_calculatePlayerScore:
  "eliminationsOf (calculatePlayerScore st k now) = eliminationsOf st"
  by (rule ext)
     (auto simp: eliminationsOf_def calculatePlayerScore_def map_of_update_if Let_def
           split: option.splits)

subsection \<open>Attribution of an elimination\<close>

text \<open>
  Claim C1. Let \<^verbatim>\<open>eliminatePlayerWithAttribution\<close> eliminate a participant (present and not
  yet eliminated). It returns an elimination record. The record carries an attribution if
  and only if the reason is \<^verbatim>\<open>pushed\<close>, \<^verbatim>\<open>lastHitBy\<close> is set, less than 3000 ms lie between
  the recorded hit and the elimination, and the recorded hitter is alive at credit time; an
  eliminations counter changes under exactly the same condition. When the condition holds
  the attribution is the hitter's id and name and the hitter's counter, and no other, goes up
  by one; when it fails (so for every reason other than \<^verbatim>\<open>pushed\<close>, \<^verbatim>\<open>boundary\<close> among them)
  there is no attribution and no counter changes.
\<close>

theorem eliminatePlayerWithAttribution_credit:
  assumes "map_of (players st) ident = Some p" and "\<not> isEliminated p"
  shows "\<exists>st' info.
     eliminatePlayerWithAttribution st ident reason now = (st', Some info) \<and>
     (eliminatedBy info \<noteq> None) = attributionDue st ident p reason now \<and>
     (eliminationsOf st' \<noteq> eliminationsOf st) = attributionDue st ident p reason now \<and>
     (if attributionDue st ident p reason now then
        (case map_of (players st) (hitId (the (lastHitBy p))) of
           None \<Rightarrow> False
         | Some hitter \<Rightarrow>
             eliminatedBy info = Some (pid hitter, pname hitter) \<and>
             eliminationsOf st' =
               (eliminationsOf st)(hitId (the (lastHitBy p)) \<mapsto> eliminations hitter + 1))
      else eliminatedBy info = None \<and> eliminationsOf st' = eliminationsOf st) \<and>
     (if reason = ''pushed'' then True
      else eliminatedBy info = None \<and> eliminationsOf st' = eliminationsOf st)"
proof (cases "attributionDue st ident p reason now")
  case True
  then obtain h hitter where
    pushed: "reason = ''pushed''" and hit: "lastHitBy p = Some h" and
    recent: "now - hitTimestamp h < 3000" and other: "hitId h \<noteq> ident" and
    hitter: "map_of (players st) (hitId h) = Some hitter" and alive: "\<not> isEliminated hitter"
    by (auto simp: attributionDue_def hitterAliveAtCredit_def split: option.splits)
  have "eliminationsOf st (hitId h) = Some (eliminations hitter)"
    using hitter by (simp add: eliminationsOf_def)
  then have changed:
    "(eliminationsOf st)(hitId h \<mapsto> eliminations hitter + 1) \<noteq> eliminationsOf st"
    by (metis fun_upd_same n_not_Suc_n option.inject Suc_eq_plus1)
  have counters:
    "eliminationsOf
       (st\<lparr>players :=
            AList.update (hitId h) (hitter\<lparr>eliminations := eliminations hitter + 1\<rparr>)
              (AList.update ident (p\<lparr>isEliminated := True, eliminatedAt := Some now\<rparr>)
                 (players st))\<rparr>) =
     (eliminationsOf st)(hitId h \<mapsto> eliminations hitter + 1)"
    using assms(1) by (auto simp: eliminationsOf_def map_of_update_if fun_eq_iff)
  show ?thesis
    using assms True pushed hit recent other hitter alive changed counters
    by (simp add: eliminatePlayerWithAttribution_def Let_def map_of_update_if
          eliminationsOf_calculatePlayerScore)
next
  case False
  have counters:
    "eliminationsOf
       (st\<lparr>players :=
            AList.update ident (p\<lparr>isEliminated := True, eliminatedAt := Some now\<rparr>)
              (players st)\<rparr>) = eliminationsOf st"
    using assms(1) by (auto simp: eliminationsOf_def map_of_update_if fun_eq_iff)
  show ?thesis
    using assms False counters
    by (auto simp: eliminatePlayerWithAttribution_def Let_def map_of_update_if
          eliminationsOf_calculatePlayerScore attributionDue_def hitterAliveAtCredit_def
          split: option.splits)
qed

text \<open>
  Bob hit Ann at 5000. Pushed out at 7999 (2999 ms later) she is credited to Bob; at 8001
  (3001 ms later) to no one; eliminated by the boundary at 7999, to no one.
\<close>

theorem eliminatePlayerWithAttribution_credit_witness:
  "(\<exists>p. map_of (players duelHit) ''ann'' = Some p \<and> \<not> isEliminated p \<and>
        attributionDue duelHit ''ann'' p ''pushed'' 7999 \<and>
        \<not> attributionDue duelHit ''ann'' p ''pushed'' 8001 \<and>
        \<not> attributionDue duelHit ''ann'' p ''boundary'' 7999) \<and>
   (\<exists>st' info. eliminatePlayerWithAttribution duelHit ''ann'' ''pushed'' 7999 = (st', Some info) \<and>
        eliminatedBy info = Some (''bob'', ''Bob'') \<and>
        eliminationsOf st' \<noteq> eliminationsOf duelHit) \<and>
   (\<exists>st' info. eliminatePlayerWithAttribution duelHit ''ann'' ''pushed'' 8001 = (st', Some info) \<and>
        eliminatedBy info = None \<and> eliminationsOf st' = eliminationsOf duelHit) \<and>
   (\<exists>st' info. eliminatePlayerWithAttribution duelHit ''ann'' ''boundary'' 7999 = (st', Some info) \<and>
        eliminatedBy info = None \<and> eliminationsOf st' = eliminationsOf duelHit)"
proof -
  obtain p where p: "map_of (players duelHit) ''ann'' = Some p" and alive: "\<not> isEliminated p"
    and hit: "lastHitBy p = Some \<lparr>hitId = ''bob'', hitName = ''Bob'', hitTimestamp = 5000\<rparr>"
    by (simp add: duelHit_def duelPlaying_def duelLobby_def session_defs)
  have bob: "\<exists>q. map_of (players duelHit) ''bob'' = Some q \<and> \<not> isEliminated q \<and>
               pid q = ''bob'' \<and> pname q = ''Bob''"
    by (simp add: duelHit_def duelPlaying_def duelLobby_def session_defs)
  have due: "attributionDue duelHit ''ann'' p ''pushed'' 7999"
    and late: "\<not> attributionDue duelHit ''ann'' p ''pushed'' 8001"
    and boundary: "\<not> attributionDue duelHit ''ann'' p ''boundary'' 7999"
    using hit bob by (auto simp: attributionDue_def hitterAliveAtCredit_def)
  show ?thesis
    using p alive due late boundary hit bob
      eliminatePlayerWithAttribution_credit [OF p alive, of "''pushed''" 7999]
      eliminatePlayerWithAttribution_credit [OF p alive, of "''pushed''" 8001]
      eliminatePlayerWithAttribution_credit [OF p alive, of "''boundary''" 7999]
    by (auto split: option.splits)
qed

subsection \<open>Elimination is idempotent\<close>

lemma calculatePlayerScore_isEliminated:
  assumes "map_of (players st) k = Some q"
  shows "\<exists>q'. map_of (players (calculatePlayerScore st k' now)) k = Some q' \<and>
              isEliminated q' = isEliminated q"
  using assms
  by (cases "map_of (players st) k'")
     (auto simp: calculatePlayerScore_def Let_def map_of_update_if)

lemma eliminatePlayerWithAttribution_flags:
  assumes "map_of (players st) ident = Some p"
  shows "\<exists>q. map_of (players (fst (eliminatePlayerWithAttribution st ident reason now))) ident
               = Some q \<and> isEliminated q"
proof (cases "isEliminated p")
  case True
  with assms show ?thesis by (simp add: eliminatePlayerWithAttribution_def)
next
  case False
  let ?p1 = "p\<lparr>isEliminated := True, eliminatedAt := Some now\<rparr>"
  let ?st1 = "st\<lparr>players := AList.update ident ?p1 (players st)\<rparr>"
  let ?h = "the (lastHitBy p)"
  have "\<exists>st2. fst (eliminatePlayerWithAttribution st ident reason now)
                 = calculatePlayerScore st2 ident now \<and>
              (\<exists>q. map_of (players st2) ident = Some q \<and> isEliminated q)"
  proof (cases "reason = ''pushed'' \<and> lastHitBy p \<noteq> None \<and> now - hitTimestamp ?h < 3000")
    case no_credit: False
    then have "fst (eliminatePlayerWithAttribution st ident reason now)
                 = calculatePlayerScore ?st1 ident now"
      using assms False by (auto simp: eliminatePlayerWithAttribution_def Let_def)
    then show ?thesis by (auto simp: map_of_update_if)
  next
    case recent: True
    show ?thesis
    proof (cases "map_of (players ?st1) (hitId ?h)")
      case None
      then have "fst (eliminatePlayerWithAttribution st ident reason now)
                   = calculatePlayerScore ?st1 ident now"
        using assms False recent by (simp add: eliminatePlayerWithAttribution_def Let_def)
      then show ?thesis by (auto simp: map_of_update_if)
    next
      case (Some hitter)
      show ?thesis
      proof (cases "isEliminated hitter")
        case True
        then have "fst (eliminatePlayerWithAttribution st ident reason now)
                     = calculatePlayerScore ?st1 ident now"
          using assms False recent Some
          by (simp add: eliminatePlayerWithAttribution_def Let_def)
        then show ?thesis by (auto simp: map_of_update_if)
      next
        case alive: False
        let ?st2 = "?st1\<lparr>players :=
                      AList.update (hitId ?h) (hitter\<lparr>eliminations := eliminations hitter + 1\<rparr>)
                        (players ?st1)\<rparr>"
        have other: "hitId ?h \<noteq> ident"
          using Some alive by (auto simp: map_of_update_if split: if_splits)
        have "fst (eliminatePlayerWithAttribution st ident reason now)
                = calculatePlayerScore ?st2 ident now"
          using assms False recent Some alive
          by (simp add: eliminatePlayerWithAttribution_def Let_def)
        moreover have "\<exists>q. map_of (players ?st2) ident = Some q \<and> isEliminated q"
          using other by (simp add: map_of_update_if)
        ultimately show ?thesis by blast
      qed
    qed
  qed
  then obtain st2 q where st2: "fst (eliminatePlayerWithAttribution st ident reason now)
                    = calculatePlayerScore st2 ident now"
    and "map_of (players st2) ident = Some q" "isEliminated q" by blast
  with calculatePlayerScore_isEliminated [of st2 ident q ident now]
  show ?thesis by auto
qed

lemma eliminatePlayer_flags:
  assumes "map_of (players st) ident = Some p"
  shows "\<exists>q. map_of (players (fst (eliminatePlayer st ident now))) ident = Some q \<and>
             isEliminated q"
  using assms by (cases "isEliminated p") (simp_all add: eliminatePlayer_def map_of_update_if)

lemma eliminate_absent:
  assumes "map_of (players st) ident = None"
  shows "eliminatePlayerWithAttribution st ident reason now = (st, None)"
    and "eliminatePlayer st ident now = (st, False)"
  using assms by (simp_all add: eliminatePlayerWithAttribution_def eliminatePlayer_def)

lemma eliminate_eliminated:
  assumes "map_of (players st) ident = Some p" and "isEliminated p"
  shows "eliminatePlayerWithAttribution st ident reason now = (st, None)"
    and "eliminatePlayer st ident now = (st, False)"
  using assms by (simp_all add: eliminatePlayerWithAttribution_def eliminatePlayer_def)

text \<open>
  Claim C6. On a participant already eliminated, \<^verbatim>\<open>eliminatePlayerWithAttribution\<close> returns
  null and \<^verbatim>\<open>eliminatePlayer\<close> returns false, and the state is the one before the call.
  So whatever a first call did, a second call on the same id returns null (false) and
  changes nothing: in particular it leaves every eliminations counter as the first call left
  it.
\<close>

theorem eliminate_idempotent:
  "(\<forall>p. map_of (players st) ident = Some p \<and> isEliminated p \<longrightarrow>
        eliminatePlayerWithAttribution st ident reason now = (st, None) \<and>
        eliminatePlayer st ident now = (st, False)) \<and>
   (let st1 = fst (eliminatePlayerWithAttribution st ident reason now)
    in eliminatePlayerWithAttribution st1 ident reason' now' = (st1, None) \<and>
       eliminatePlayer st1 ident now' = (st1, False) \<and>
       eliminationsOf (fst (eliminatePlayerWithAttribution st1 ident reason' now'))
         = eliminationsOf st1) \<and>
   (let st1 = fst (eliminatePlayer st ident now)
    in eliminatePlayer st1 ident now' = (st1, False) \<and>
       eliminatePlayerWithAttribution st1 ident reason' now' = (st1, None))"
proof (intro conjI allI impI)
  fix p assume "map_of (players st) ident = Some p \<and> isEliminated p"
  then show "eliminatePlayerWithAttribution st ident reason now = (st, None)"
    and "eliminatePlayer st ident now = (st, False)"
    by (simp_all add: eliminate_eliminated)
next
  let ?st1 = "fst (eliminatePlayerWithAttribution st ident reason now)"
  have "eliminatePlayerWithAttribution ?st1 ident reason' now' = (?st1, None) \<and>
        eliminatePlayer ?st1 ident now' = (?st1, False)"
  proof (cases "map_of (players st) ident")
    case None
    then show ?thesis by (simp add: eliminate_absent)
  next
    case (Some p)
    from eliminatePlayerWithAttribution_flags [OF Some, of reason now]
    obtain q where "map_of (players ?st1) ident = Some q" and "isEliminated q" by blast
    then show ?thesis by (simp add: eliminate_eliminated)
  qed
  then show "let st1 = ?st1
    in eliminatePlayerWithAttribution st1 ident reason' now' = (st1, None) \<and>
       eliminatePlayer st1 ident now' = (st1, False) \<and>
       eliminationsOf (fst (eliminatePlayerWithAttribution st1 ident reason' now'))
         = eliminationsOf st1"
    by (simp add: Let_def)
next
  let ?st1 = "fst (eliminatePlayer st ident now)"
  have "eliminatePlayer ?st1 ident now' = (?st1, False) \<and>
        eliminatePlayerWithAttribution ?st1 ident reason' now' = (?st1, None)"
  proof (cases "map_of (players st) ident")
    case None
    then show ?thesis by (simp add: eliminate_absent)
  next
    case (Some p)
    from eliminatePlayer_flags [OF Some, of now]
    obtain q where "map_of (players ?st1) ident = Some q" and "isEliminated q" by blast
    then show ?thesis by (simp add: eliminate_eliminated)
  qed
  then show "let st1 = ?st1
    in eliminatePlayer st1 ident now' = (st1, False) \<and>
       eliminatePlayerWithAttribution st1 ident reason' now' = (st1, None)"
    by (simp add: Let_def)
qed

text \<open>
  Ann, hit by Bob at 5000, is pushed out at 6000: Bob's counter is 1. Pushing her out again
  at 6001 returns null and Bob's counter is still 1.
\<close>

theorem eliminate_idempotent_witness:
  "eliminationsOf (fst (eliminatePlayerWithAttribution duelHit ''ann'' ''pushed'' 6000)) ''bob''
     = Some 1 \<and>
   (\<exists>p. map_of (players (fst (eliminatePlayerWithAttribution duelHit ''ann'' ''pushed'' 6000)))
           ''ann'' = Some p \<and> isEliminated p) \<and>
   snd (eliminatePlayerWithAttribution
          (fst (eliminatePlayerWithAttribution duelHit ''ann'' ''pushed'' 6000))
          ''ann'' ''pushed'' 6001) = None \<and>
   eliminationsOf
     (fst (eliminatePlayerWithAttribution
             (fst (eliminatePlayerWithAttribution duelHit ''ann'' ''pushed'' 6000))
             ''ann'' ''pushed'' 6001)) ''bob'' = Some 1 \<and>
   \<not> snd (eliminatePlayer
            (fst (eliminatePlayerWithAttribution duelHit ''ann'' ''pushed'' 6000)) ''ann'' 6001)"
proof -
  let ?st1 = "fst (eliminatePlayerWithAttribution duelHit ''ann'' ''pushed'' 6000)"
  have first: "eliminationsOf ?st1 ''bob'' = Some 1"
    by (simp add: duelHit_def duelPlaying_def duelLobby_def session_defs
          eliminatePlayerWithAttribution_def calculatePlayerScore_def eliminationsOf_def)
  have flagged: "\<exists>p. map_of (players ?st1) ''ann'' = Some p \<and> isEliminated p"
    by (simp add: duelHit_def duelPlaying_def duelLobby_def session_defs
          eliminatePlayerWithAttribution_def calculatePlayerScore_def)
  from eliminate_idempotent [of duelHit "''ann''" "''pushed''" 6000 "''pushed''" 6001]
  have again: "eliminatePlayerWithAttribution ?st1 ''ann'' ''pushed'' 6001 = (?st1, None)"
    and plain: "eliminatePlayer ?st1 ''ann'' 6001 = (?st1, False)"
    by (simp_all add: Let_def)
  show ?thesis using first flagged again plain by simp
qed

subsection \<open>The score formula\<close>

text \<open>
  Claim C2. For every participant and every time, \<^verbatim>\<open>calculatePlayerScore\<close> stores the score
  \<open>max 0 (eliminations * 100 + survivalTimeSeconds - outOfBoundsTimeSeconds * 10)\<close>, the two
  times including the interval in progress; the stored score is never negative; no other
  field of the participant changes.
\<close>

theorem calculatePlayerScore_formula:
  assumes "map_of (players st) ident = Some p"
  shows "\<exists>p'. map_of (players (calculatePlayerScore st ident now)) ident = Some p' \<and>
           score p' = max 0 (real (eliminations p) * 100 + survivalTimeSeconds p now
                              - outOfBoundsTimeSeconds p now * 10) \<and>
           0 \<le> score p' \<and> p' = p\<lparr>score := score p'\<rparr>"
proof -
  let ?v = "max 0 (real (eliminations p) * 100 + survivalTimeSeconds p now
                    - outOfBoundsTimeSeconds p now * 10)"
  have "map_of (players (calculatePlayerScore st ident now)) ident = Some (p\<lparr>score := ?v\<rparr>)"
    using assms
    by (simp add: calculatePlayerScore_def Let_def map_of_update_if survivalTimeSeconds_def
          outOfBoundsTimeSeconds_def)
  then show ?thesis by simp
qed

text \<open>
  The scenario of the specification: 2 eliminations, 45.3 s survived and 3.0 s out of bounds
  score 200 + 45.3 - 30 = 215.3.
\<close>

theorem calculatePlayerScore_formula_witness:
  "(\<exists>p. map_of (players annScored) ''ann'' = Some p \<and> eliminations p = 2 \<and>
         survivalTimeSeconds p 9000 = 453 / 10 \<and> outOfBoundsTimeSeconds p 9000 = 3) \<and>
   (\<exists>p'. map_of (players (calculatePlayerScore annScored ''ann'' 9000)) ''ann'' = Some p' \<and>
          score p' = 2153 / 10)"
proof -
  obtain p where p: "map_of (players annScored) ''ann'' = Some p"
    and fields: "eliminations p = 2" "survivalTimeSeconds p 9000 = 453 / 10"
      "outOfBoundsTimeSeconds p 9000 = 3"
    by (simp add: annScored_def createPlayer_def Let_def survivalTimeSeconds_def
          outOfBoundsTimeSeconds_def truthyNum_def)
  from calculatePlayerScore_formula [OF p, of 9000] fields
  have "\<exists>p'. map_of (players (calculatePlayerScore annScored ''ann'' 9000)) ''ann'' = Some p' \<and>
          score p' = 2153 / 10"
    by auto
  with p fields show ?thesis by blast
qed

subsection \<open>Boundary tracking\<close>




text \<open>
  Between the tick of 2000 and the tick of 12000 the ticks find Ann outside with less than
  10 s accumulated: each returns false and leaves the state as it is.
\<close>

lemma annOutside_waits:
  assumes "2000 \<le> t" and "t < 12000"
  shows "updateBoundaryStatus annOutside ''ann'' 10 t = (annOutside, False)"
proof -
  have "real_of_int (t - 2000) / 1000 < 10" using assms by simp
  then show ?thesis
    by (simp add: annOutside_def duelPlaying_def duelLobby_def session_defs
          updateBoundaryStatus_def)
qed

subsection \<open>Host succession\<close>

lemma hd_sort_key_least:
  assumes "xs \<noteq> []"
  shows "hd (sort_key f xs) \<in> set xs \<and> (\<forall>y\<in>set xs. f (hd (sort_key f xs)) \<le> f y)"
proof -
  let ?ys = "sort_key f xs"
  have "length ?ys = length xs" by simp
  with assms obtain z zs where ys: "?ys = z # zs" by (cases ?ys) auto
  have "sorted (map f ?ys)" by (rule sorted_sort_key)
  with ys have least: "\<forall>y\<in>set zs. f z \<le> f y" by auto
  have same: "set ?ys = set xs" by simp
  have "z \<in> set xs" using ys same by (metis list.set_intros(1))
  moreover have "\<forall>y\<in>set xs. f z \<le> f y"
    using ys same least by (metis order_refl set_ConsD)
  ultimately show ?thesis using ys by simp
qed

text \<open>The sort is stable: among the elements with the least key, the first of the list leads.\<close>

lemma hd_sort_key_first:
  assumes "xs \<noteq> []"
  shows "hd (filter (\<lambda>y. f y = f (hd (sort_key f xs))) xs) = hd (sort_key f xs)"
proof -
  let ?ys = "sort_key f xs"
  have "length ?ys = length xs" by simp
  with assms obtain z zs where ys: "?ys = z # zs" by (cases ?ys) auto
  have "filter (\<lambda>y. f y = f z) xs = filter (\<lambda>y. f y = f z) ?ys"
    by (simp only: sort_key_stable)
  also have "\<dots> = z # filter (\<lambda>y. f y = f z) zs" by (simp add: ys)
  finally show ?thesis by (simp add: ys)
qed

text \<open>
  Claim C4. \<^verbatim>\<open>removePlayer\<close> deletes the participant. If the participant held \<^verbatim>\<open>hostId\<close>:
  when no participant remains \<^verbatim>\<open>hostId\<close> becomes null, otherwise it becomes the id of a
  remaining participant whose \<^verbatim>\<open>joinedAt\<close> is least among those remaining (of several
  with the least \<^verbatim>\<open>joinedAt\<close>, the first in the order of the Map). If the
  participant did not hold \<^verbatim>\<open>hostId\<close>, it is unchanged. With A, B and C joined in this
  order (at times that do not decrease), A is host; removing A makes B host, and removing B
  then makes C host.
\<close>

theorem removePlayer_host:
  fixes a b c :: string
  shows
  "(hostId st = Some ident \<and> map_of (players st) ident \<noteq> None \<longrightarrow>
      players (fst (removePlayer st ident)) = AList.delete ident (players st) \<and>
      (if AList.delete ident (players st) = [] then hostId (fst (removePlayer st ident)) = None
       else \<exists>h\<in>set (map snd (AList.delete ident (players st))).
              hostId (fst (removePlayer st ident)) = Some (pid h) \<and>
              (\<forall>q\<in>set (map snd (AList.delete ident (players st))). joinedAt h \<le> joinedAt q) \<and>
              h = hd (filter (\<lambda>q. joinedAt q = joinedAt h)
                        (map snd (AList.delete ident (players st)))))) \<and>
   (hostId st \<noteq> Some ident \<longrightarrow> hostId (fst (removePlayer st ident)) = hostId st) \<and>
   (a \<noteq> [] \<and> distinct [a, b, c] \<and> ta \<le> tb \<and> tb \<le> tc \<longrightarrow>
      (let st3 = fst (createPlayer (fst (createPlayer (fst (createPlayer initialGame
                   a na ta ra1 ra2)) b nb tb rb1 rb2)) c nc tc rc1 rc2)
       in map fst (players st3) = [a, b, c] \<and>
          hostId st3 = Some a \<and>
          hostId (fst (removePlayer st3 a)) = Some b \<and>
          hostId (fst (removePlayer (fst (removePlayer st3 a)) b)) = Some c))"
proof (intro conjI impI)
  assume host: "hostId st = Some ident \<and> map_of (players st) ident \<noteq> None"
  then obtain p where p: "map_of (players st) ident = Some p" by auto
  show "players (fst (removePlayer st ident)) = AList.delete ident (players st)"
    using host p by (simp add: removePlayer_def Let_def)
  show "if AList.delete ident (players st) = [] then hostId (fst (removePlayer st ident)) = None
        else \<exists>h\<in>set (map snd (AList.delete ident (players st))).
               hostId (fst (removePlayer st ident)) = Some (pid h) \<and>
               (\<forall>q\<in>set (map snd (AList.delete ident (players st))). joinedAt h \<le> joinedAt q) \<and>
               h = hd (filter (\<lambda>q. joinedAt q = joinedAt h)
                         (map snd (AList.delete ident (players st))))"
  proof (cases "AList.delete ident (players st) = []")
    case True
    with host p show ?thesis by (simp add: removePlayer_def Let_def)
  next
    case False
    let ?rest = "map snd (AList.delete ident (players st))"
    let ?h = "hd (sort_key joinedAt ?rest)"
    from False have ne: "?rest \<noteq> []" by simp
    have new_host: "hostId (fst (removePlayer st ident)) = Some (pid ?h)"
      using host p False by (simp add: removePlayer_def Let_def)
    from hd_sort_key_least [OF ne, of joinedAt]
    have mem: "?h \<in> set ?rest" and least: "\<forall>q\<in>set ?rest. joinedAt ?h \<le> joinedAt q"
      by blast+
    show ?thesis
      unfolding if_not_P [OF False]
    proof (rule bexI [of _ ?h])
      show "hostId (fst (removePlayer st ident)) = Some (pid ?h) \<and>
            (\<forall>q\<in>set ?rest. joinedAt ?h \<le> joinedAt q) \<and>
            ?h = hd (filter (\<lambda>q. joinedAt q = joinedAt ?h) ?rest)"
        using new_host least hd_sort_key_first [OF ne, of joinedAt] by simp
      show "?h \<in> set ?rest" by (rule mem)
    qed
  qed
next
  assume "hostId st \<noteq> Some ident"
  then show "hostId (fst (removePlayer st ident)) = hostId st"
    by (auto simp: removePlayer_def Let_def split: option.splits)
next
  assume "a \<noteq> [] \<and> distinct [a, b, c] \<and> ta \<le> tb \<and> tb \<le> tc"
  then show "let st3 = fst (createPlayer (fst (createPlayer (fst (createPlayer initialGame
                   a na ta ra1 ra2)) b nb tb rb1 rb2)) c nc tc rc1 rc2)
       in map fst (players st3) = [a, b, c] \<and>
          hostId st3 = Some a \<and>
          hostId (fst (removePlayer st3 a)) = Some b \<and>
          hostId (fst (removePlayer (fst (removePlayer st3 a)) b)) = Some c"
    by (auto simp: createPlayer_def Let_def initialGame_def truthyStr_def removePlayer_def)
qed

text \<open>
  Ann (joined at 100) hosts the lobby she shares with Bob (joined at 200). When Ann leaves,
  Bob is host; when Bob leaves instead, Ann stays host; when both leave, there is no host.
  With Cat joining third at 300, Ann's leaving makes Bob host and Bob's leaving then makes
  Cat host.
\<close>

theorem removePlayer_host_witness:
  "hostId duelLobby = Some ''ann'' \<and> map_of (players duelLobby) ''ann'' \<noteq> None \<and>
   AList.delete ''ann'' (players duelLobby) \<noteq> [] \<and>
   hostId (fst (removePlayer duelLobby ''ann'')) = Some ''bob'' \<and>
   hostId (fst (removePlayer duelLobby ''bob'')) = Some ''ann'' \<and>
   hostId (fst (removePlayer (fst (removePlayer duelLobby ''ann'')) ''bob'')) = None \<and>
   hostId (fst (removePlayer (fst (createPlayer duelLobby ''cat'' None 300 0 0)) ''ann''))
     = Some ''bob'' \<and>
   hostId (fst (removePlayer
                  (fst (removePlayer (fst (createPlayer duelLobby ''cat'' None 300 0 0)) ''ann''))
                  ''bob'')) = Some ''cat''"
proof -
  have host: "hostId duelLobby = Some ''ann''" and present: "map_of (players duelLobby) ''ann'' \<noteq> None"
    and rest: "AList.delete ''ann'' (players duelLobby) \<noteq> []"
    by (simp_all add: duelLobby_def session_defs)
  have bob_only: "map (pid \<circ> snd) (AList.delete ''ann'' (players duelLobby)) = [''bob'']"
    by (simp add: duelLobby_def session_defs)
  from removePlayer_host [of duelLobby "''ann''", THEN conjunct1, rule_format] host present rest
  obtain h where h: "h \<in> set (map snd (AList.delete ''ann'' (players duelLobby)))"
    and new_host: "hostId (fst (removePlayer duelLobby ''ann'')) = Some (pid h)"
    by auto
  from h have "pid h \<in> set (map (pid \<circ> snd) (AList.delete ''ann'' (players duelLobby)))"
    by auto
  with bob_only have "pid h = ''bob''" by simp
  with new_host have ann_leaves: "hostId (fst (removePlayer duelLobby ''ann'')) = Some ''bob''"
    by simp
  from removePlayer_host [of duelLobby "''bob''", THEN conjunct2, THEN conjunct1] host
  have bob_leaves: "hostId (fst (removePlayer duelLobby ''bob'')) = Some ''ann''"
    by simp
  have both: "hostId (fst (removePlayer (fst (removePlayer duelLobby ''ann'')) ''bob'')) = None"
    by (simp add: duelLobby_def session_defs removePlayer_def)
  from removePlayer_host [of _ _ "''ann''" "''bob''" "''cat''" 100 200 300
      "Some ''Ann''" 0 0 "Some ''Bob''" 0 0 None 0 0, THEN conjunct2, THEN conjunct2]
  have three:
    "hostId (fst (removePlayer (fst (createPlayer duelLobby ''cat'' None 300 0 0)) ''ann''))
       = Some ''bob'' \<and>
     hostId (fst (removePlayer
                  (fst (removePlayer (fst (createPlayer duelLobby ''cat'' None 300 0 0)) ''ann''))
                  ''bob'')) = Some ''cat''"
    by (simp add: Let_def duelLobby_def)
  from host present rest ann_leaves bob_leaves both three show ?thesis by blast
qed

subsection \<open>Capacity\<close>

text \<open>
  Claim C7. A join that arrives when the participant count has reached the cap (40) is
  answered with one message, \<^verbatim>\<open>joinError\<close>, sent to the requester's socket; the server
  state after the join is the state before it: the participant map, \<^verbatim>\<open>hostId\<close>, the phase
  and the platform radius are unchanged, as is everything else (no function of the store
  that assigns is called).
\<close>

theorem join_rejected_at_capacity:
  assumes "getPlayerCount (store srv) \<ge> MAX_PLAYERS"
  shows "MAX_PLAYERS = 40 \<and>
         snd (serverStep srv now rnd (Join sid nm))
           = [(ToSocket sid, JoinError ''Server is full'')] \<and>
         fst (serverStep srv now rnd (Join sid nm)) = srv \<and>
         players (store (fst (serverStep srv now rnd (Join sid nm)))) = players (store srv) \<and>
         hostId (store (fst (serverStep srv now rnd (Join sid nm)))) = hostId (store srv) \<and>
         gameState (store (fst (serverStep srv now rnd (Join sid nm)))) = gameState (store srv) \<and>
         platformRadius (store (fst (serverStep srv now rnd (Join sid nm))))
           = platformRadius (store srv)"
proof -
  have "serverStep srv now rnd (Join sid nm)
          = (srv, [(ToSocket sid, JoinError ''Server is full'')])"
    using assms by (simp add: onJoin_def Let_def)
  then show ?thesis by (simp add: MAX_PLAYERS_def)
qed

text \<open>
  With forty participants in the session, the join of a forty-first is rejected. On the empty
  server the same join is accepted: the participant is created and becomes host.
\<close>

theorem join_rejected_at_capacity_witness:
  "getPlayerCount (store fullServer) = 40 \<and> MAX_PLAYERS \<le> getPlayerCount (store fullServer) \<and>
   serverStep fullServer 5000 (\<lambda>_. 0) (Join ''late'' (Some ''Late''))
     = (fullServer, [(ToSocket ''late'', JoinError ''Server is full'')]) \<and>
   map fst (players (store (fst (serverStep initialServer 5000 (\<lambda>_. 0)
                                  (Join ''late'' (Some ''Late''))))))
     = [''late''] \<and>
   hostId (store (fst (serverStep initialServer 5000 (\<lambda>_. 0) (Join ''late'' (Some ''Late'')))))
     = Some ''late''"
proof -
  have count: "getPlayerCount (store fullServer) = 40"
    by (simp add: fullServer_def getPlayerCount_def)
  then have full: "MAX_PLAYERS \<le> getPlayerCount (store fullServer)"
    by (simp add: MAX_PLAYERS_def)
  from join_rejected_at_capacity [OF full, of 5000 "\<lambda>_. 0" "''late''" "Some ''Late''"]
  have rejected: "serverStep fullServer 5000 (\<lambda>_. 0) (Join ''late'' (Some ''Late''))
     = (fullServer, [(ToSocket ''late'', JoinError ''Server is full'')])"
    by (simp add: prod_eq_iff)
  have accepted:
    "map fst (players (store (fst (serverStep initialServer 5000 (\<lambda>_. 0)
                                  (Join ''late'' (Some ''Late''))))))
       = [''late'']"
    "hostId (store (fst (serverStep initialServer 5000 (\<lambda>_. 0) (Join ''late'' (Some ''Late'')))))
       = Some ''late''"
    by (simp_all add: onJoin_def initialServer_def getPlayerCount_def MAX_PLAYERS_def
          session_defs startGameLoop_def setInterval_def split: prod.splits)
  from count full rejected accepted show ?thesis by blast
qed

subsection \<open>Round restart\<close>

lemma resetPlayers_keys: "map fst (resetPlayers rnd i ps) = map fst ps"
  by (induction rnd i ps rule: resetPlayers.induct) simp_all

lemma resetPlayers_identity:
  "map (identityOf \<circ> snd) (resetPlayers rnd i ps) = map (identityOf \<circ> snd) ps"
  by (induction rnd i ps rule: resetPlayers.induct)
     (simp_all add: identityOf_def resetPlayer_def)

lemma resetPlayers_cleared:
  "(k, p) \<in> set (resetPlayers rnd i ps) \<Longrightarrow>
     eliminations p = 0 \<and> survivalTime p = 0 \<and> outOfBoundsTime p = 0 \<and> \<not> isEliminated p \<and>
     lastHitBy p = None \<and> score p = 0 \<and> \<not> isOutOfBounds p \<and> outOfBoundsStartTime p = None \<and>
     \<not> isReady p"
  by (induction rnd i ps rule: resetPlayers.induct) (auto simp: resetPlayer_def)

text \<open>
  Claim C8. \<^verbatim>\<open>resetGame\<close> reverts the phase to Lobby and restores the initial radius (10).
  After \<^verbatim>\<open>resetGame\<close> and a fresh transition into Playing (with \<^verbatim>\<open>initializeGameTimes\<close>)
  every participant has no eliminations, no survival time, no out-of-bounds time, is not
  eliminated and has no recorded hit. The records are reused: the Map has the same keys in
  the same order, and each record keeps its id, name, colour and join time.
\<close>

theorem restartRound_clears:
  "gameState (resetGame st rnd) = LOBBY \<and>
   platformRadius (resetGame st rnd) = INITIAL_RADIUS \<and> INITIAL_RADIUS = 10 \<and>
   gameState (restartRound st rnd t1 t2) = PLAYING \<and>
   platformRadius (restartRound st rnd t1 t2) = INITIAL_RADIUS \<and>
   (\<forall>(k, p) \<in> set (players (restartRound st rnd t1 t2)).
      eliminations p = 0 \<and> survivalTime p = 0 \<and> outOfBoundsTime p = 0 \<and>
      \<not> isEliminated p \<and> lastHitBy p = None) \<and>
   map fst (players (restartRound st rnd t1 t2)) = map fst (players st) \<and>
   map (identityOf \<circ> snd) (players (restartRound st rnd t1 t2))
     = map (identityOf \<circ> snd) (players st)"
proof -
  let ?init = "\<lambda>(k, p). (k, if \<not> isEliminated p then
                       p\<lparr>roundStartTime := Some t2,
                         survivalTime := 0,
                         outOfBoundsTime := 0,
                         isOutOfBounds := False,
                         outOfBoundsStartTime := None\<rparr>
                     else p)"
  have players: "players (restartRound st rnd t1 t2)
                   = map ?init (resetPlayers rnd 0 (players st))"
    by (simp add: restartRound_def initializeGameTimes_def setGameState_def resetGame_def
          Let_def)
  have cleared: "\<forall>(k, p) \<in> set (players (restartRound st rnd t1 t2)).
      eliminations p = 0 \<and> survivalTime p = 0 \<and> outOfBoundsTime p = 0 \<and>
      \<not> isEliminated p \<and> lastHitBy p = None"
    unfolding players using resetPlayers_cleared [of _ _ rnd 0 "players st"] by fastforce
  have keep_fst: "fst \<circ> ?init = fst" by (auto simp: fun_eq_iff)
  have keep_id: "identityOf \<circ> snd \<circ> ?init = identityOf \<circ> snd"
    by (auto simp: fun_eq_iff identityOf_def)
  have keys: "map fst (players (restartRound st rnd t1 t2)) = map fst (players st)"
    unfolding players by (simp only: map_map keep_fst resetPlayers_keys)
  have ids: "map (identityOf \<circ> snd) (players (restartRound st rnd t1 t2))
               = map (identityOf \<circ> snd) (players st)"
    unfolding players by (simp only: map_map keep_id resetPlayers_identity)
  have phase: "gameState (resetGame st rnd) = LOBBY"
    "platformRadius (resetGame st rnd) = INITIAL_RADIUS" "INITIAL_RADIUS = 10"
    "gameState (restartRound st rnd t1 t2) = PLAYING"
    "platformRadius (restartRound st rnd t1 t2) = INITIAL_RADIUS"
    by (simp_all add: restartRound_def initializeGameTimes_def setGameState_def resetGame_def
          Let_def INITIAL_RADIUS_def)
  from phase cleared keys ids show ?thesis by blast
qed

lemma duelOver_players:
  "\<exists>pa pb. players duelOver = [(''ann'', pa), (''bob'', pb)] \<and>
     isEliminated pa \<and> lastHitBy pa \<noteq> None \<and> eliminations pb = 1 \<and>
     identityOf pa = (''ann'', ''Ann'', ''#ff4444'', 0, 100) \<and>
     identityOf pb = (''bob'', ''Bob'', ''#44ff44'', 1, 200)"
  by (simp add: duelOver_def duelHit_def duelPlaying_def duelLobby_def session_defs
        eliminatePlayerWithAttribution_def calculatePlayerScore_def identityOf_def
        PLAYER_COLORS_def)

text \<open>
  The duel is over: Ann is eliminated, with Bob's hit on record, and Bob has one
  elimination. After the reset and the next start of play, Ann and Bob are the same two
  records, in the same order, with nothing left of the last round.
\<close>

theorem restartRound_clears_witness:
  "(\<exists>pa pb. players duelOver = [(''ann'', pa), (''bob'', pb)] \<and>
      isEliminated pa \<and> lastHitBy pa \<noteq> None \<and> eliminations pb = 1) \<and>
   (\<exists>pa pb. players (restartRound duelOver (\<lambda>_. 0) 7000 10000) = [(''ann'', pa), (''bob'', pb)] \<and>
      \<not> isEliminated pa \<and> lastHitBy pa = None \<and> eliminations pb = 0 \<and>
      \<not> isEliminated pb \<and> survivalTime pa = 0 \<and> outOfBoundsTime pa = 0 \<and>
      identityOf pa = (''ann'', ''Ann'', ''#ff4444'', 0, 100) \<and>
      identityOf pb = (''bob'', ''Bob'', ''#44ff44'', 1, 200))"
proof -
  let ?st = "restartRound duelOver (\<lambda>_. 0) 7000 10000"
  from duelOver_players obtain pa pb where
    before: "players duelOver = [(''ann'', pa), (''bob'', pb)]"
      "isEliminated pa" "lastHitBy pa \<noteq> None" "eliminations pb = 1"
    and ids: "identityOf pa = (''ann'', ''Ann'', ''#ff4444'', 0, 100)"
      "identityOf pb = (''bob'', ''Bob'', ''#44ff44'', 1, 200)"
    by blast
  note clears = restartRound_clears [of duelOver "\<lambda>_. 0" 7000 10000]
  from clears before have keys: "map fst (players ?st) = [''ann'', ''bob'']" by simp
  then obtain qa qb where after: "players ?st = [(''ann'', qa), (''bob'', qb)]"
    by (auto simp: map_eq_Cons_conv)
  from clears after have cleared:
    "\<not> isEliminated qa" "lastHitBy qa = None" "eliminations qb = 0" "\<not> isEliminated qb"
    "survivalTime qa = 0" "outOfBoundsTime qa = 0"
    by simp_all
  from clears after before ids have same:
    "identityOf qa = (''ann'', ''Ann'', ''#ff4444'', 0, 100)"
    "identityOf qb = (''bob'', ''Bob'', ''#44ff44'', 1, 200)"
    by simp_all
  from before after cleared same show ?thesis by blast
qed

subsection \<open>Elimination is terminal\<close>

text \<open>
  What an operation that works on the records in the Map may do to the record of an
  eliminated participant, the reset apart: nothing, or rewrite the stored score, or set the
  ready flag.
\<close>

lemma settled_refl: "isEliminated p \<Longrightarrow> settled p p"
  by (simp add: settled_def)

lemma settled_trans: "settled p q \<Longrightarrow> settled q r \<Longrightarrow> settled p r"
  by (simp add: settled_def)

lemma settled_score: "isEliminated p \<Longrightarrow> settled p (p\<lparr>score := v\<rparr>)"
  by (simp add: settled_def kinematicState_def accrualState_def)

lemma settled_ready: "isEliminated p \<Longrightarrow> settled p (p\<lparr>isReady := r\<rparr>)"
  by (simp add: settled_def kinematicState_def accrualState_def)

lemma calculatePlayerScore_settled:
  assumes "map_of (players st) ident = Some p" and "isEliminated p"
  shows "\<exists>p'. map_of (players (calculatePlayerScore st k now)) ident = Some p' \<and> settled p p'"
proof (cases "map_of (players st) k")
  case None
  with assms show ?thesis by (simp add: calculatePlayerScore_def settled_refl)
next
  case (Some q)
  show ?thesis
  proof (cases "k = ident")
    case True
    with Some assms show ?thesis
      by (simp add: calculatePlayerScore_def Let_def map_of_update_if settled_score)
  next
    case False
    with Some assms show ?thesis
      by (simp add: calculatePlayerScore_def Let_def map_of_update_if settled_refl)
  qed
qed

lemma scoreLoop_settled:
  assumes "map_of (players st) ident = Some p" and "isEliminated p"
  shows "\<exists>p'. map_of (players (fst (scoreLoop st ks now))) ident = Some p' \<and> settled p p'"
  using assms
proof (induction ks arbitrary: st p)
  case Nil
  then show ?case by (simp add: settled_refl)
next
  case (Cons k ks)
  show ?case
  proof (cases "map_of (players st) k")
    case None
    with Cons show ?thesis by simp
  next
    case (Some visited)
    let ?st1 = "calculatePlayerScore st (pid visited) now"
    from calculatePlayerScore_settled [OF Cons.prems, of "pid visited" now]
    obtain p1 where p1: "map_of (players ?st1) ident = Some p1" and s1: "settled p p1"
      by blast
    from s1 have "isEliminated p1" by (simp add: settled_def)
    from Cons.IH [OF p1 this]
    obtain p2 where p2: "map_of (players (fst (scoreLoop ?st1 ks now))) ident = Some p2"
      and s2: "settled p1 p2"
      by blast
    have "fst (scoreLoop st (k # ks) now) = fst (scoreLoop ?st1 ks now)"
      using Some by (simp add: Let_def split: prod.splits)
    with p2 settled_trans [OF s1 s2] show ?thesis by simp
  qed
qed

lemma getScoreSnapshot_settled:
  assumes "map_of (players st) ident = Some p" and "isEliminated p"
  shows "\<exists>p'. map_of (players (fst (getScoreSnapshot st now))) ident = Some p' \<and> settled p p'"
proof -
  have "fst (getScoreSnapshot st now) = fst (scoreLoop st (map fst (players st)) now)"
    by (simp add: getScoreSnapshot_def split: prod.splits)
  with scoreLoop_settled [OF assms] show ?thesis by simp
qed

lemma updatePlayerPosition_eliminated:
  assumes "map_of (players st) ident = Some p" and "isEliminated p"
  shows "updatePlayerPosition st ident pos vel now = st"
    and "map_of (players (updatePlayerPosition st k pos vel now)) ident = Some p"
proof -
  show "updatePlayerPosition st ident pos vel now = st"
    using assms by (simp add: updatePlayerPosition_def)
  show "map_of (players (updatePlayerPosition st k pos vel now)) ident = Some p"
    using assms
    by (cases "k = ident")
       (auto simp: updatePlayerPosition_def Let_def map_of_update_if split: option.splits)
qed

lemma recordCollision_eliminated:
  assumes "map_of (players st) ident = Some p" and "isEliminated p"
  shows "recordCollision st ident other now = st"
    and "recordCollision st other ident now = st"
    and "map_of (players (recordCollision st k hitter now)) ident = Some p"
proof -
  show "recordCollision st ident other now = st"
    using assms by (simp add: recordCollision_def split: option.splits)
  show "recordCollision st other ident now = st"
    using assms by (simp add: recordCollision_def split: option.splits)
  show "map_of (players (recordCollision st k hitter now)) ident = Some p"
    using assms
    by (cases "k = ident")
       (auto simp: recordCollision_def map_of_update_if split: option.splits)
qed

lemma updateBoundaryStatus_eliminated:
  assumes "map_of (players st) ident = Some p" and "isEliminated p"
  shows "updateBoundaryStatus st ident radius now = (st, False)"
    and "map_of (players (fst (updateBoundaryStatus st k radius now))) ident = Some p"
proof -
  show same: "updateBoundaryStatus st ident radius now = (st, False)"
    using assms by (simp add: updateBoundaryStatus_def)
  show "map_of (players (fst (updateBoundaryStatus st k radius now))) ident = Some p"
  proof (cases "k = ident")
    case True
    with same assms show ?thesis by simp
  next
    case False
    have "players (fst (updateBoundaryStatus st k radius now)) = players st \<or>
          (\<exists>q. players (fst (updateBoundaryStatus st k radius now))
                  = AList.update k q (players st))"
      by (cases "map_of (players st) k")
         (auto simp: updateBoundaryStatus_def Let_def split: prod.splits)
    with False assms show ?thesis by (auto simp: map_of_update_if)
  qed
qed

lemma eliminatePlayer_eliminated:
  assumes "map_of (players st) ident = Some p" and "isEliminated p"
  shows "map_of (players (fst (eliminatePlayer st k now))) ident = Some p"
  using assms
  by (cases "k = ident")
     (auto simp: eliminatePlayer_def map_of_update_if split: option.splits)

lemma setPlayerReady_settled:
  assumes "map_of (players st) ident = Some p" and "isEliminated p"
  shows "\<exists>p'. map_of (players (setPlayerReady st k ready)) ident = Some p' \<and> settled p p'"
  using assms
  by (cases "k = ident")
     (auto simp: setPlayerReady_def map_of_update_if settled_ready settled_refl
           split: option.splits)

lemma map_of_map_values:
  "map_of (map (\<lambda>(k, q). (k, f q)) al) ident = map_option f (map_of al ident)"
  by (induction al) auto

lemma initializeGameTimes_eliminated:
  assumes "map_of (players st) ident = Some p" and "isEliminated p"
  shows "map_of (players (initializeGameTimes st now)) ident = Some p"
  using assms by (simp add: initializeGameTimes_def map_of_map_values)

text \<open>
  The state \<^verbatim>\<open>eliminatePlayerWithAttribution\<close> leaves when it eliminates: the participant is
  flagged, at most one other record (a hitter not eliminated) has its counter raised, and the
  participant's score is recomputed.
\<close>

lemma eliminatePlayerWithAttribution_shape:
  fixes st :: game and k :: string and now :: int
  assumes "map_of (players st) k = Some q" and "\<not> isEliminated q"
  defines "flagged \<equiv> AList.update k (q\<lparr>isEliminated := True, eliminatedAt := Some now\<rparr>) (players st)"
  shows "\<exists>ps. fst (eliminatePlayerWithAttribution st k reason now)
                  = calculatePlayerScore (st\<lparr>players := ps\<rparr>) k now \<and>
           (ps = flagged \<or>
            (\<exists>hid hitter. map_of flagged hid = Some hitter \<and> \<not> isEliminated hitter \<and>
               ps = AList.update hid (hitter\<lparr>eliminations := eliminations hitter + 1\<rparr>) flagged))"
proof -
  let ?st1 = "st\<lparr>players := flagged\<rparr>"
  let ?h = "the (lastHitBy q)"
  have plain: ?thesis
    if "fst (eliminatePlayerWithAttribution st k reason now) = calculatePlayerScore ?st1 k now"
    using that by (intro exI [of _ flagged]) simp
  show ?thesis
  proof (cases "reason = ''pushed'' \<and> lastHitBy q \<noteq> None \<and> now - hitTimestamp ?h < 3000")
    case False
    then have "fst (eliminatePlayerWithAttribution st k reason now)
                 = calculatePlayerScore ?st1 k now"
      using assms by (auto simp: eliminatePlayerWithAttribution_def Let_def)
    then show ?thesis by (rule plain)
  next
    case recent: True
    show ?thesis
    proof (cases "map_of flagged (hitId ?h)")
      case None
      then have "fst (eliminatePlayerWithAttribution st k reason now)
                   = calculatePlayerScore ?st1 k now"
        using assms recent by (simp add: eliminatePlayerWithAttribution_def Let_def)
      then show ?thesis by (rule plain)
    next
      case (Some hitter)
      show ?thesis
      proof (cases "isEliminated hitter")
        case True
        then have "fst (eliminatePlayerWithAttribution st k reason now)
                     = calculatePlayerScore ?st1 k now"
          using assms recent Some by (simp add: eliminatePlayerWithAttribution_def Let_def)
        then show ?thesis by (rule plain)
      next
        case alive: False
        let ?ps = "AList.update (hitId ?h) (hitter\<lparr>eliminations := eliminations hitter + 1\<rparr>)
                     flagged"
        have "fst (eliminatePlayerWithAttribution st k reason now)
                = calculatePlayerScore (st\<lparr>players := ?ps\<rparr>) k now"
          using assms recent Some alive
          by (simp add: eliminatePlayerWithAttribution_def Let_def)
        moreover have "\<exists>hid hitter'. map_of flagged hid = Some hitter' \<and> \<not> isEliminated hitter' \<and>
               ?ps = AList.update hid (hitter'\<lparr>eliminations := eliminations hitter' + 1\<rparr>) flagged"
          using Some alive by auto
        ultimately show ?thesis by blast
      qed
    qed
  qed
qed

lemma eliminatePlayerWithAttribution_eliminated:
  assumes "map_of (players st) ident = Some p" and "isEliminated p"
  shows "\<exists>p'. map_of (players (fst (eliminatePlayerWithAttribution st k reason now))) ident
                = Some p' \<and> settled p p'"
proof (cases "map_of (players st) k")
  case None
  with assms show ?thesis by (simp add: eliminatePlayerWithAttribution_def settled_refl)
next
  case (Some q)
  show ?thesis
  proof (cases "isEliminated q")
    case True
    with Some assms show ?thesis by (simp add: eliminatePlayerWithAttribution_def settled_refl)
  next
    case False
    with Some assms have other: "k \<noteq> ident" by auto
    let ?flagged = "AList.update k (q\<lparr>isEliminated := True, eliminatedAt := Some now\<rparr>) (players st)"
    from eliminatePlayerWithAttribution_shape [OF Some False, of reason now]
    obtain ps where result: "fst (eliminatePlayerWithAttribution st k reason now)
                  = calculatePlayerScore (st\<lparr>players := ps\<rparr>) k now"
      and shape: "ps = ?flagged \<or>
            (\<exists>hid hitter. map_of ?flagged hid = Some hitter \<and> \<not> isEliminated hitter \<and>
               ps = AList.update hid (hitter\<lparr>eliminations := eliminations hitter + 1\<rparr>) ?flagged)"
      by blast
    have kept: "map_of ?flagged ident = Some p"
      using other assms by (simp add: map_of_update_if)
    from shape have "map_of ps ident = Some p"
    proof
      assume "ps = ?flagged"
      with kept show ?thesis by simp
    next
      assume "\<exists>hid hitter. map_of ?flagged hid = Some hitter \<and> \<not> isEliminated hitter \<and>
               ps = AList.update hid (hitter\<lparr>eliminations := eliminations hitter + 1\<rparr>) ?flagged"
      then obtain hid hitter where hitter: "map_of ?flagged hid = Some hitter"
        and alive: "\<not> isEliminated hitter"
        and ps: "ps = AList.update hid (hitter\<lparr>eliminations := eliminations hitter + 1\<rparr>) ?flagged"
        by blast
      from hitter alive kept assms have "hid \<noteq> ident" by auto
      with ps kept show ?thesis by (simp add: map_of_update_if)
    qed
    then have "map_of (players (st\<lparr>players := ps\<rparr>)) ident = Some p" by simp
    from calculatePlayerScore_settled [OF this assms(2), of k now] result
    show ?thesis by simp
  qed
qed

text \<open>
  The entry of a participant in the Map also follows the lifecycle of records:
  \<^verbatim>\<open>createPlayer\<close> under its id puts a newly built record in its place and \<^verbatim>\<open>removePlayer\<close>
  of its id deletes the entry; under another id both leave the entry alone.
\<close>

lemma removePlayer_players:
  "players (fst (removePlayer st k)) = AList.delete k (players st)"
proof (cases "map_of (players st) k")
  case None
  then have "k \<notin> fst ` set (players st)" by (simp add: map_of_eq_None_iff)
  with None show ?thesis by (simp add: removePlayer_def)
next
  case (Some removed)
  then show ?thesis by (simp add: removePlayer_def Let_def)
qed

lemma createPlayer_removePlayer_entry:
  assumes "map_of (players st) ident = Some p"
  shows "map_of (players (fst (createPlayer st k nm now r1 r2))) ident
           = (if k = ident then Some (snd (createPlayer st k nm now r1 r2)) else Some p)"
    and "map_of (players (fst (removePlayer st k))) ident = (if k = ident then None else Some p)"
proof -
  have "players (fst (createPlayer st k nm now r1 r2))
          = AList.update k (snd (createPlayer st k nm now r1 r2)) (players st)"
    by (simp add: createPlayer_def Let_def)
  with assms show "map_of (players (fst (createPlayer st k nm now r1 r2))) ident
           = (if k = ident then Some (snd (createPlayer st k nm now r1 r2)) else Some p)"
    by (simp only: map_of_update_if) simp
  show "map_of (players (fst (removePlayer st k))) ident = (if k = ident then None else Some p)"
    using assms by (simp add: removePlayer_players delete_conv')
qed

lemma createPlayer_entry:
  "map_of (players (fst (createPlayer st k nm now r1 r2))) k
     = Some (snd (createPlayer st k nm now r1 r2))"
proof -
  have "players (fst (createPlayer st k nm now r1 r2))
          = AList.update k (snd (createPlayer st k nm now r1 r2)) (players st)"
    by (simp add: createPlayer_def Let_def)
  then show ?thesis by (simp only: map_of_update_if) simp
qed

lemma createPlayer_fresh:
  "\<not> isEliminated (snd (createPlayer st k nm now r1 r2))"
  "eliminatedAt (snd (createPlayer st k nm now r1 r2)) = None"
  "kinematicState (snd (createPlayer st k nm now r1 r2)) = (spawnPosition r1 r2, zeroVec, None)"
  "accrualState (snd (createPlayer st k nm now r1 r2)) = (0, 0, 0, False, None, None, None)"
  by (simp_all add: createPlayer_def Let_def kinematicState_def accrualState_def)

lemma removePlayer_entry: "map_of (players (fst (removePlayer st k))) k = None"
  by (simp add: removePlayer_players delete_conv')

text \<open>
  Claim C5, as the code has it. Let a participant be eliminated. Then
  \<^verbatim>\<open>updatePlayerPosition\<close> for it is a no-op, \<^verbatim>\<open>recordCollision\<close> with it as either party sets
  nothing, and \<^verbatim>\<open>updateBoundaryStatus\<close> for it returns false at once, each leaving the whole
  state as it was. And no operation of the store, whatever its arguments, changes its
  kinematic state, its scoring-accrual state, its eliminated flag or the time of its
  elimination, other than the three that start it over: the round reset, \<^verbatim>\<open>removePlayer\<close> of
  its id, which deletes its entry, and \<^verbatim>\<open>createPlayer\<close> under its id (a second \<^verbatim>\<open>join\<close> from
  its socket), which puts in its place a record that is not eliminated, at a new spawn
  point, with nothing accrued.
\<close>

theorem eliminated_is_terminal:
  assumes "map_of (players st) ident = Some p" and "isEliminated p"
  shows "updatePlayerPosition st ident pos vel now = st \<and>
         recordCollision st ident other now = st \<and>
         recordCollision st other ident now = st \<and>
         updateBoundaryStatus st ident radius now = (st, False) \<and>
         (\<not> startsOver m ident \<longrightarrow>
            (\<exists>p'. map_of (players (applyMutation st now m)) ident = Some p' \<and>
                  isEliminated p' \<and> eliminatedAt p' = eliminatedAt p \<and>
                  kinematicState p' = kinematicState p \<and> accrualState p' = accrualState p)) \<and>
         map_of (players (applyMutation st now (RemovePlayer ident))) ident = None \<and>
         (\<exists>q. map_of (players (applyMutation st now (CreatePlayer ident nm r1 r2))) ident = Some q \<and>
              \<not> isEliminated q \<and> eliminatedAt q = None \<and>
              kinematicState q = (spawnPosition r1 r2, zeroVec, None) \<and>
              accrualState q = (0, 0, 0, False, None, None, None))"
proof -
  have frame: "\<exists>p'. map_of (players (applyMutation st now m)) ident = Some p' \<and> settled p p'"
    if other: "\<not> startsOver m ident"
  proof (cases m)
    case (CreatePlayer k nm' r1' r2')
    with other have "k \<noteq> ident" by simp
    with CreatePlayer createPlayer_removePlayer_entry(1) [OF assms(1), of k nm' now r1' r2']
    show ?thesis by (simp add: settled_refl assms(2))
  next
    case (RemovePlayer k)
    with other have "k \<noteq> ident" by simp
    with RemovePlayer createPlayer_removePlayer_entry(2) [OF assms(1), of k]
    show ?thesis by (simp add: settled_refl assms(2))
  next
    case (UpdatePlayerPosition k pos' vel')
    with updatePlayerPosition_eliminated(2) [OF assms] show ?thesis
      by (simp add: settled_refl assms(2))
  next
    case (EliminatePlayer k)
    with eliminatePlayer_eliminated [OF assms] show ?thesis
      by (simp add: settled_refl assms(2))
  next
    case (SetGameState s)
    with assms show ?thesis by (simp add: setGameState_def Let_def settled_refl)
  next
    case (ShrinkPlatform r)
    with assms show ?thesis by (simp add: shrinkPlatform_def settled_refl)
  next
    case (ResetGame rnd)
    with other show ?thesis by simp
  next
    case (SetPlayerReady k ready)
    with setPlayerReady_settled [OF assms] show ?thesis by simp
  next
    case (RecordCollision k hitter)
    with recordCollision_eliminated(3) [OF assms] show ?thesis
      by (simp add: settled_refl assms(2))
  next
    case (UpdateBoundaryStatus k r)
    with updateBoundaryStatus_eliminated(2) [OF assms] show ?thesis
      by (simp add: settled_refl assms(2))
  next
    case (EliminatePlayerWithAttribution k reason)
    with eliminatePlayerWithAttribution_eliminated [OF assms] show ?thesis by simp
  next
    case (CalculatePlayerScore k)
    with calculatePlayerScore_settled [OF assms] show ?thesis by simp
  next
    case GetScoreSnapshot
    with getScoreSnapshot_settled [OF assms] show ?thesis by simp
  next
    case InitializeGameTimes
    with initializeGameTimes_eliminated [OF assms] show ?thesis
      by (simp add: settled_refl assms(2))
  qed
  have kept: "\<not> startsOver m ident \<longrightarrow>
            (\<exists>p'. map_of (players (applyMutation st now m)) ident = Some p' \<and>
                  isEliminated p' \<and> eliminatedAt p' = eliminatedAt p \<and>
                  kinematicState p' = kinematicState p \<and> accrualState p' = accrualState p)"
    using frame by (simp add: settled_def)
  have removed: "map_of (players (applyMutation st now (RemovePlayer ident))) ident = None"
    by (simp add: removePlayer_entry)
  have replaced:
    "\<exists>q. map_of (players (applyMutation st now (CreatePlayer ident nm r1 r2))) ident = Some q \<and>
         \<not> isEliminated q \<and> eliminatedAt q = None \<and>
         kinematicState q = (spawnPosition r1 r2, zeroVec, None) \<and>
         accrualState q = (0, 0, 0, False, None, None, None)"
    by (simp add: createPlayer_entry createPlayer_fresh)
  from kept removed replaced updatePlayerPosition_eliminated(1) [OF assms]
    recordCollision_eliminated(1,2) [OF assms] updateBoundaryStatus_eliminated(1) [OF assms]
  show ?thesis by blast
qed

text \<open>
  Ann was pushed out at 6000. A position report, a collision with Bob either way and a
  boundary check for her leave the state untouched; the start of a new scoring period and a
  second elimination leave her record as it was. Removing her deletes her entry, and
  creating a player under her id puts a record in play again at the spawn point.
\<close>

theorem eliminated_is_terminal_witness:
  "(\<exists>p. map_of (players duelOver) ''ann'' = Some p \<and> isEliminated p) \<and>
   updatePlayerPosition duelOver ''ann'' \<lparr>vec_x = 1, vec_y = 1, vec_z = 1\<rparr> None 6100 = duelOver \<and>
   recordCollision duelOver ''ann'' ''bob'' 6100 = duelOver \<and>
   recordCollision duelOver ''bob'' ''ann'' 6100 = duelOver \<and>
   updateBoundaryStatus duelOver ''ann'' 10 6100 = (duelOver, False) \<and>
   map_of (players (applyMutation duelOver 6100 InitializeGameTimes)) ''ann''
     = map_of (players duelOver) ''ann'' \<and>
   (\<exists>p'. map_of (players (applyMutation duelOver 6100
                             (EliminatePlayerWithAttribution ''ann'' ''pushed''))) ''ann''
            = Some p' \<and>
          isEliminated p' \<and> eliminatedAt p' = Some 6000) \<and>
   map_of (players (applyMutation duelOver 6100 (RemovePlayer ''ann''))) ''ann'' = None \<and>
   (\<exists>q. map_of (players (applyMutation duelOver 6100 (CreatePlayer ''ann'' (Some ''Ann'') 0 0)))
           ''ann'' = Some q \<and>
        isEliminated q = False \<and> position q = \<lparr>vec_x = 2, vec_y = 1, vec_z = 0\<rparr>)"
proof -
  obtain p where p: "map_of (players duelOver) ''ann'' = Some p" and gone: "isEliminated p"
    and at: "eliminatedAt p = Some 6000"
    by (simp add: duelOver_def duelHit_def duelPlaying_def duelLobby_def session_defs
          eliminatePlayerWithAttribution_def calculatePlayerScore_def)
  note terminal = eliminated_is_terminal [OF p gone]
  from terminal [of "\<lparr>vec_x = 1, vec_y = 1, vec_z = 1\<rparr>" None 6100 "''bob''" 10
      InitializeGameTimes "Some ''Ann''" 0 0]
  have noops:
    "updatePlayerPosition duelOver ''ann'' \<lparr>vec_x = 1, vec_y = 1, vec_z = 1\<rparr> None 6100 = duelOver"
    "recordCollision duelOver ''ann'' ''bob'' 6100 = duelOver"
    "recordCollision duelOver ''bob'' ''ann'' 6100 = duelOver"
    "updateBoundaryStatus duelOver ''ann'' 10 6100 = (duelOver, False)"
    and removed: "map_of (players (applyMutation duelOver 6100 (RemovePlayer ''ann''))) ''ann'' = None"
    and replaced:
      "\<exists>q. map_of (players (applyMutation duelOver 6100 (CreatePlayer ''ann'' (Some ''Ann'') 0 0)))
             ''ann'' = Some q \<and>
           \<not> isEliminated q \<and> eliminatedAt q = None \<and>
           kinematicState q = (spawnPosition 0 0, zeroVec, None) \<and>
           accrualState q = (0, 0, 0, False, None, None, None)"
    by blast+
  from replaced have again_in_play:
    "\<exists>q. map_of (players (applyMutation duelOver 6100 (CreatePlayer ''ann'' (Some ''Ann'') 0 0)))
           ''ann'' = Some q \<and>
        isEliminated q = False \<and> position q = \<lparr>vec_x = 2, vec_y = 1, vec_z = 0\<rparr>"
    by (auto simp: kinematicState_def spawnPosition_origin)
  have init: "map_of (players (applyMutation duelOver 6100 InitializeGameTimes)) ''ann''
     = map_of (players duelOver) ''ann''"
    using p gone by (simp add: initializeGameTimes_def map_of_map_values)
  have "\<not> startsOver (EliminatePlayerWithAttribution ''ann'' ''pushed'') ''ann''" by simp
  with terminal [of zeroVec None 6100 "''bob''" 10
      "EliminatePlayerWithAttribution ''ann'' ''pushed''" None 0 0] at
  have again: "\<exists>p'. map_of (players (applyMutation duelOver 6100
                             (EliminatePlayerWithAttribution ''ann'' ''pushed''))) ''ann''
            = Some p' \<and>
          isEliminated p' \<and> eliminatedAt p' = Some 6000"
    by auto
  from p gone noops init again removed again_in_play show ?thesis by blast
qed

text \<open>The states of the match of three, as the turns of the server leave them.\<close>

lemmas lobby_turn_defs =
  initialServer_def onJoin_def onStartGame_def startCountdown_def countdownTick_def
  startGameLoop_def startScoreUpdates_def setInterval_def clearInterval_def getPlayerCount_def
  getPlayer_def getAllPlayers_def getAlivePlayers_def isHost_def MAX_PLAYERS_def
  COUNTDOWN_DURATION_def PLAYER_COLORS_def INITIAL_RADIUS_def zeroVec_def
  spawnPosition_origin case_prod_beta session_defs

lemmas play_turn_defs =
  gameLoopTick_def tickEliminations_def getPositionSnapshot_def getAlivePlayers_def
  checkPlayer_def updateBoundaryStatus_def eliminateAndAnnounce_def eliminatedMessage_def
  eliminatePlayerWithAttribution_def calculatePlayerScore_def handleGameEnd_def
  FALL_THRESHOLD_def tickWarning_def getShrinkWarningState_def MIN_RADIUS_def
  getTimeUntilNextShrink_def getTimeSinceLastShrink_def SHRINK_INTERVAL_def
  SHRINK_WARNING_TIME_def tickShrink_def shouldShrinkPlatform_def shrinkPlatform_def
  SHRINK_AMOUNT_def onInput_def getPlayer_def updatePlayerPosition_def scoreTick_def
  getScoreSnapshot_def scoreEntry_def jsRound_def truthyNum_def

lemma trioStart_state:
  "run initialServer trioStart =
     \<lparr>store =
        \<lparr>gameState = PLAYING,
         players =
           [(''ann'',
             \<lparr>pid = ''ann'', pname = ''Ann'', color = ''#ff4444'', colorIndex = 0,
              position = \<lparr>vec_x = 2, vec_y = 1, vec_z = 0\<rparr>,
              velocity = \<lparr>vec_x = 0, vec_y = 0, vec_z = 0\<rparr>,
              isEliminated = False, isReady = False, score = 0, eliminations = 0,
              survivalTime = 0, outOfBoundsTime = 0, isOutOfBounds = False,
              outOfBoundsStartTime = None, roundStartTime = Some 3400, lastHitBy = None,
              joinedAt = 100, lastUpdate = None, eliminatedAt = None\<rparr>),
            (''bob'',
             \<lparr>pid = ''bob'', pname = ''Bob'', color = ''#44ff44'', colorIndex = 1,
              position = \<lparr>vec_x = 2, vec_y = 1, vec_z = 0\<rparr>,
              velocity = \<lparr>vec_x = 0, vec_y = 0, vec_z = 0\<rparr>,
              isEliminated = False, isReady = False, score = 0, eliminations = 0,
              survivalTime = 0, outOfBoundsTime = 0, isOutOfBounds = False,
              outOfBoundsStartTime = None, roundStartTime = Some 3400, lastHitBy = None,
              joinedAt = 200, lastUpdate = None, eliminatedAt = None\<rparr>),
            (''cat'',
             \<lparr>pid = ''cat'', pname = ''Cat'', color = ''#4444ff'', colorIndex = 2,
              position = \<lparr>vec_x = 2, vec_y = 1, vec_z = 0\<rparr>,
              velocity = \<lparr>vec_x = 0, vec_y = 0, vec_z = 0\<rparr>,
              isEliminated = False, isReady = False, score = 0, eliminations = 0,
              survivalTime = 0, outOfBoundsTime = 0, isOutOfBounds = False,
              outOfBoundsStartTime = None, roundStartTime = Some 3400, lastHitBy = None,
              joinedAt = 300, lastUpdate = None, eliminatedAt = None\<rparr>)],
         hostId = Some ''ann'', platformRadius = 10,
         gameStartTime = Some 3400, lastShrinkTime = Some 3400\<rparr>,
      gameLoopInterval = Some 1, countdownInterval = None, scoreUpdateInterval = Some 3,
      previousWarningState = \<lparr>isWarning = False, warningProgress = 0\<rparr>,
      timers = [(1, GameLoopTimer), (3, ScoreTimer)],
      nextHandle = 4\<rparr>"
  by (simp add: trioStart_def lobby_turn_defs)

lemma trioFall_state:
  "run initialServer trioFall =
     \<lparr>store =
        \<lparr>gameState = PLAYING,
         players =
           [(''ann'',
             \<lparr>pid = ''ann'', pname = ''Ann'', color = ''#ff4444'', colorIndex = 0,
              position = \<lparr>vec_x = 0, vec_y = - 6, vec_z = 0\<rparr>,
              velocity = \<lparr>vec_x = 0, vec_y = 0, vec_z = 0\<rparr>,
              isEliminated = True, isReady = False, score = 3 / 5, eliminations = 0,
              survivalTime = 3 / 5, outOfBoundsTime = 0, isOutOfBounds = True,
              outOfBoundsStartTime = Some 4050, roundStartTime = Some 3400, lastHitBy = None,
              joinedAt = 100, lastUpdate = Some 4020, eliminatedAt = Some 4050\<rparr>),
            (''bob'',
             \<lparr>pid = ''bob'', pname = ''Bob'', color = ''#44ff44'', colorIndex = 1,
              position = \<lparr>vec_x = 2, vec_y = 1, vec_z = 0\<rparr>,
              velocity = \<lparr>vec_x = 0, vec_y = 0, vec_z = 0\<rparr>,
              isEliminated = False, isReady = False, score = 0, eliminations = 0,
              survivalTime = 13 / 20, outOfBoundsTime = 0, isOutOfBounds = False,
              outOfBoundsStartTime = None, roundStartTime = Some 3400, lastHitBy = None,
              joinedAt = 200, lastUpdate = None, eliminatedAt = None\<rparr>),
            (''cat'',
             \<lparr>pid = ''cat'', pname = ''Cat'', color = ''#4444ff'', colorIndex = 2,
              position = \<lparr>vec_x = 2, vec_y = 1, vec_z = 0\<rparr>,
              velocity = \<lparr>vec_x = 0, vec_y = 0, vec_z = 0\<rparr>,
              isEliminated = False, isReady = False, score = 0, eliminations = 0,
              survivalTime = 13 / 20, outOfBoundsTime = 0, isOutOfBounds = False,
              outOfBoundsStartTime = None, roundStartTime = Some 3400, lastHitBy = None,
              joinedAt = 300, lastUpdate = None, eliminatedAt = None\<rparr>)],
         hostId = Some ''ann'', platformRadius = 10,
         gameStartTime = Some 3400, lastShrinkTime = Some 3400\<rparr>,
      gameLoopInterval = Some 1, countdownInterval = None, scoreUpdateInterval = Some 3,
      previousWarningState = \<lparr>isWarning = False, warningProgress = 0\<rparr>,
      timers = [(1, GameLoopTimer), (3, ScoreTimer)],
      nextHandle = 4\<rparr>"
  unfolding trioFall_def run_append trioStart_state
  by (simp add: play_turn_defs)

text \<open>
  Claim C5 as stated fails. In the match of three Ann is eliminated by the tick at 4050, six
  units below the platform, and Bob and Cat play on. Her socket sends \<^verbatim>\<open>join\<close> again at
  5100: the handler has no test for a socket that has joined already, and \<^verbatim>\<open>createPlayer\<close>
  puts a new record under her id. With no round reset and the match still being played, she
  is back among the players alive, at the spawn point, with nothing accrued. And had the
  score loop fired at 5000 instead, it would have rewritten her stored score, 0.6 when she
  was eliminated, to 0: eliminated while flagged out of bounds, she is still charged for
  the time since.
\<close>

theorem rejoin_revives_counterexample:
  "reachable (run initialServer trioFall) \<and>
   gameState (store (run initialServer trioFall)) = PLAYING \<and>
   isEliminated (the (map_of (players (store (run initialServer trioFall))) ''ann'')) \<and>
   kinematicState (the (map_of (players (store (run initialServer trioFall))) ''ann''))
     = (\<lparr>vec_x = 0, vec_y = - 6, vec_z = 0\<rparr>, zeroVec, Some 4020) \<and>
   accrualState (the (map_of (players (store (run initialServer trioFall))) ''ann''))
     = (0, 3 / 5, 0, True, Some 4050, Some 3400, None) \<and>
   score (the (map_of (players (store (run initialServer trioFall))) ''ann'')) = 3 / 5 \<and>
   reachable (run initialServer trioRejoin) \<and>
   gameState (store (run initialServer trioRejoin)) = PLAYING \<and>
   \<not> isEliminated (the (map_of (players (store (run initialServer trioRejoin))) ''ann'')) \<and>
   kinematicState (the (map_of (players (store (run initialServer trioRejoin))) ''ann''))
     = (\<lparr>vec_x = 2, vec_y = 1, vec_z = 0\<rparr>, zeroVec, None) \<and>
   accrualState (the (map_of (players (store (run initialServer trioRejoin))) ''ann''))
     = (0, 0, 0, False, None, None, None) \<and>
   map pid (getAlivePlayers (store (run initialServer trioRejoin))) = [''ann'', ''bob'', ''cat''] \<and>
   reachable (run initialServer trioScored) \<and>
   isEliminated (the (map_of (players (store (run initialServer trioScored))) ''ann'')) \<and>
   score (the (map_of (players (store (run initialServer trioScored))) ''ann'')) = 0"
proof -
  have fallen:
    "gameState (store (run initialServer trioFall)) = PLAYING"
    "isEliminated (the (map_of (players (store (run initialServer trioFall))) ''ann''))"
    "kinematicState (the (map_of (players (store (run initialServer trioFall))) ''ann''))
       = (\<lparr>vec_x = 0, vec_y = - 6, vec_z = 0\<rparr>, zeroVec, Some 4020)"
    "accrualState (the (map_of (players (store (run initialServer trioFall))) ''ann''))
       = (0, 3 / 5, 0, True, Some 4050, Some 3400, None)"
    "score (the (map_of (players (store (run initialServer trioFall))) ''ann'')) = 3 / 5"
    unfolding trioFall_state by (simp_all add: kinematicState_def accrualState_def zeroVec_def)
  have revived:
    "gameState (store (run initialServer trioRejoin)) = PLAYING"
    "\<not> isEliminated (the (map_of (players (store (run initialServer trioRejoin))) ''ann''))"
    "kinematicState (the (map_of (players (store (run initialServer trioRejoin))) ''ann''))
       = (\<lparr>vec_x = 2, vec_y = 1, vec_z = 0\<rparr>, zeroVec, None)"
    "accrualState (the (map_of (players (store (run initialServer trioRejoin))) ''ann''))
       = (0, 0, 0, False, None, None, None)"
    "map pid (getAlivePlayers (store (run initialServer trioRejoin))) = [''ann'', ''bob'', ''cat'']"
    unfolding trioRejoin_def run_append trioFall_state
    by (simp_all add: lobby_turn_defs kinematicState_def accrualState_def)
  have charged:
    "isEliminated (the (map_of (players (store (run initialServer trioScored))) ''ann''))"
    "score (the (map_of (players (store (run initialServer trioScored))) ''ann'')) = 0"
    unfolding trioScored_def run_append trioFall_state
    by (simp_all add: play_turn_defs)
  from fallen revived charged reachable_run [OF reachable_init, of trioFall]
    reachable_run [OF reachable_init, of trioRejoin]
    reachable_run [OF reachable_init, of trioScored]
  show ?thesis by simp
qed

subsection \<open>What the operations on players leave alone\<close>

lemma sessionVars_players [simp]: "sessionVars (st\<lparr>players := ps\<rparr>) = sessionVars st"
  by (simp add: sessionVars_def)

lemma sessionVars_updatePlayerPosition:
  "sessionVars (updatePlayerPosition st k pos vel now) = sessionVars st"
  by (simp add: updatePlayerPosition_def Let_def split: option.splits)

lemma sessionVars_eliminatePlayer: "sessionVars (fst (eliminatePlayer st k now)) = sessionVars st"
  by (simp add: eliminatePlayer_def split: option.splits)

lemma sessionVars_setPlayerReady: "sessionVars (setPlayerReady st k ready) = sessionVars st"
  by (simp add: setPlayerReady_def split: option.splits)

lemma sessionVars_recordCollision: "sessionVars (recordCollision st k hitter now) = sessionVars st"
  by (simp add: recordCollision_def split: option.splits)

lemma sessionVars_calculatePlayerScore:
  "sessionVars (calculatePlayerScore st k now) = sessionVars st"
  by (simp add: calculatePlayerScore_def Let_def split: option.splits)

lemma sessionVars_initializeGameTimes: "sessionVars (initializeGameTimes st now) = sessionVars st"
  by (simp add: initializeGameTimes_def)

lemma sessionVars_updateBoundaryStatus:
  "sessionVars (fst (updateBoundaryStatus st k radius now)) = sessionVars st"
proof (cases "map_of (players st) k")
  case None
  then show ?thesis by (simp add: updateBoundaryStatus_def)
next
  case (Some p)
  then have "\<exists>ps. fst (updateBoundaryStatus st k radius now) = st \<or>
                  fst (updateBoundaryStatus st k radius now) = st\<lparr>players := ps\<rparr>"
    by (auto simp: updateBoundaryStatus_def Let_def split: prod.splits)
  then show ?thesis by auto
qed

lemma sessionVars_eliminatePlayerWithAttribution:
  "sessionVars (fst (eliminatePlayerWithAttribution st k reason now)) = sessionVars st"
proof (cases "map_of (players st) k")
  case None
  then show ?thesis by (simp add: eliminatePlayerWithAttribution_def)
next
  case (Some q)
  show ?thesis
  proof (cases "isEliminated q")
    case True
    with Some show ?thesis by (simp add: eliminatePlayerWithAttribution_def)
  next
    case False
    from eliminatePlayerWithAttribution_shape [OF Some False, of reason now]
    obtain ps where "fst (eliminatePlayerWithAttribution st k reason now)
                  = calculatePlayerScore (st\<lparr>players := ps\<rparr>) k now"
      by blast
    then show ?thesis by (simp add: sessionVars_calculatePlayerScore)
  qed
qed

lemma sessionVars_scoreLoop: "sessionVars (fst (scoreLoop st ks now)) = sessionVars st"
proof (induction ks arbitrary: st)
  case Nil
  show ?case by simp
next
  case (Cons k ks)
  show ?case
  proof (cases "map_of (players st) k")
    case None
    with Cons show ?thesis by simp
  next
    case (Some visited)
    then have "fst (scoreLoop st (k # ks) now)
                 = fst (scoreLoop (calculatePlayerScore st (pid visited) now) ks now)"
      by (simp add: Let_def split: prod.splits)
    with Cons show ?thesis by (simp add: sessionVars_calculatePlayerScore)
  qed
qed

lemma sessionVars_getScoreSnapshot: "sessionVars (fst (getScoreSnapshot st now)) = sessionVars st"
proof -
  have "fst (getScoreSnapshot st now) = fst (scoreLoop st (map fst (players st)) now)"
    by (simp add: getScoreSnapshot_def split: prod.splits)
  then show ?thesis by (simp add: sessionVars_scoreLoop)
qed

lemma sessionVars_eliminateAndAnnounce:
  "sessionVars (fst (eliminateAndAnnounce st k reason now)) = sessionVars st"
proof -
  have "fst (eliminateAndAnnounce st k reason now)
          = fst (eliminatePlayerWithAttribution st k reason now)"
    by (simp add: eliminateAndAnnounce_def split: prod.splits option.splits)
  then show ?thesis by (simp add: sessionVars_eliminatePlayerWithAttribution)
qed

lemma checkPlayer_state:
  "fst (checkPlayer st p radius now) =
     (let st1 = fst (updateBoundaryStatus st (pid p) radius now);
          st2 = (if snd (updateBoundaryStatus st (pid p) radius now)
                 then fst (eliminateAndAnnounce st1 (pid p) ''boundary'' now)
                 else st1)
      in if vec_y (position p) < FALL_THRESHOLD
         then fst (eliminateAndAnnounce st2 (pid p) ''pushed'' now)
         else st2)"
  by (simp add: checkPlayer_def Let_def split: prod.splits)

lemma sessionVars_checkPlayer: "sessionVars (fst (checkPlayer st p radius now)) = sessionVars st"
  unfolding checkPlayer_state
  by (simp add: Let_def sessionVars_updateBoundaryStatus sessionVars_eliminateAndAnnounce)

lemma sessionVars_checkPlayers: "sessionVars (fst (checkPlayers st ps radius now)) = sessionVars st"
proof (induction ps arbitrary: st)
  case Nil
  show ?case by simp
next
  case (Cons p ps)
  have "fst (checkPlayers st (p # ps) radius now)
          = fst (checkPlayers (fst (checkPlayer st p radius now)) ps radius now)"
    by (simp add: Let_def split: prod.splits)
  then show ?case by (simp add: Cons sessionVars_checkPlayer)
qed

lemma sessionVars_konamiEliminate:
  "sessionVars (fst (konamiEliminate st ps sid now)) = sessionVars st"
proof (induction ps arbitrary: st)
  case Nil
  show ?case by simp
next
  case (Cons p ps)
  have "fst (konamiEliminate st (p # ps) sid now) =
          fst (konamiEliminate (if pid p \<noteq> sid then fst (eliminatePlayer st (pid p) now) else st)
                 ps sid now)"
    by (simp add: Let_def split: prod.splits)
  then show ?case by (simp add: Cons sessionVars_eliminatePlayer)
qed

lemma sessionVars_fields:
  assumes "sessionVars st' = sessionVars st"
  shows "gameState st' = gameState st" and "hostId st' = hostId st"
    and "platformRadius st' = platformRadius st" and "gameStartTime st' = gameStartTime st"
    and "lastShrinkTime st' = lastShrinkTime st"
  using assms by (simp_all add: sessionVars_def)

subsection \<open>The shrink warning\<close>

lemma warningsIn_append: "warningsIn (out1 @ out2) = warningsIn out1 @ warningsIn out2"
  by (induction out1 rule: warningsIn.induct) simp_all

lemma warningsIn_eliminateAndAnnounce:
  "warningsIn (fst (snd (eliminateAndAnnounce st k reason now))) = []"
  by (simp add: eliminateAndAnnounce_def eliminatedMessage_def split: prod.splits option.splits)

lemma warningsIn_checkPlayer: "warningsIn (fst (snd (checkPlayer st p radius now))) = []"
proof -
  obtain st1 r where ub: "updateBoundaryStatus st (pid p) radius now = (st1, r)"
    by (cases "updateBoundaryStatus st (pid p) radius now")
  obtain st2 out1 any1 where first:
    "(if r then eliminateAndAnnounce st1 (pid p) ''boundary'' now else (st1, [], False))
       = (st2, out1, any1)"
    by (metis prod_cases3)
  obtain st3 out2 any2 where second:
    "(if vec_y (position p) < FALL_THRESHOLD
      then eliminateAndAnnounce st2 (pid p) ''pushed'' now else (st2, [], False))
       = (st3, out2, any2)"
    by (metis prod_cases3)
  have "warningsIn out1 = []"
    using first warningsIn_eliminateAndAnnounce [of st1 "pid p" "''boundary''" now]
    by (auto split: if_splits)
  moreover have "warningsIn out2 = []"
    using second warningsIn_eliminateAndAnnounce [of st2 "pid p" "''pushed''" now]
    by (auto split: if_splits)
  moreover have "fst (snd (checkPlayer st p radius now)) = out1 @ out2"
    using ub first second by (simp add: checkPlayer_def)
  ultimately show ?thesis by (simp add: warningsIn_append)
qed

lemma warningsIn_checkPlayers: "warningsIn (fst (snd (checkPlayers st ps radius now))) = []"
proof (induction ps arbitrary: st)
  case Nil
  show ?case by simp
next
  case (Cons p ps)
  obtain st1 out1 any1 where one: "checkPlayer st p radius now = (st1, out1, any1)"
    by (metis prod_cases3)
  obtain st2 out2 any2 where rest: "checkPlayers st1 ps radius now = (st2, out2, any2)"
    by (metis prod_cases3)
  have "warningsIn out1 = []" using warningsIn_checkPlayer [of st p radius now] one by simp
  moreover have "warningsIn out2 = []" using Cons [of st1] rest by simp
  ultimately show ?case using one rest by (simp add: warningsIn_append)
qed

lemma warningsIn_konamiEliminate: "warningsIn (snd (konamiEliminate st ps sid now)) = []"
proof (induction ps arbitrary: st)
  case Nil
  show ?case by simp
next
  case (Cons p ps)
  obtain st1 ok where one: "eliminatePlayer st (pid p) now = (st1, ok)"
    by (cases "eliminatePlayer st (pid p) now")
  obtain st2 out where rest: "konamiEliminate st1 ps sid now = (st2, out)"
    by (cases "konamiEliminate st1 ps sid now")
  from Cons [of st1] rest have "warningsIn out = []" by simp
  with one rest Cons [of st] show ?case by simp
qed

lemma handleGameEnd_effect:
  "sessionVars (store (fst (handleGameEnd srv w now)))
     = (if gameState (store srv) = ENDED then sessionVars (store srv)
        else (ENDED, hostId (store srv), platformRadius (store srv),
              gameStartTime (store srv), lastShrinkTime (store srv)))"
  "warningsIn (snd (handleGameEnd srv w now)) = []"
  "previousWarningState (fst (handleGameEnd srv w now)) = previousWarningState srv"
  by (simp_all add: handleGameEnd_def Let_def sessionVars_def setGameState_def
        clearInterval_def split: option.splits)

lemma tickEliminations_effect:
  "platformRadius (store (fst (tickEliminations srv radius now))) = platformRadius (store srv)"
  "lastShrinkTime (store (fst (tickEliminations srv radius now))) = lastShrinkTime (store srv)"
  "warningsIn (snd (tickEliminations srv radius now)) = []"
  "previousWarningState (fst (tickEliminations srv radius now)) = previousWarningState srv"
proof -
  obtain positions stamp where pos: "getPositionSnapshot (store srv) now = (positions, stamp)"
    by (cases "getPositionSnapshot (store srv) now")
  obtain st1 out1 any1 where
    loop: "checkPlayers (store srv) (getAlivePlayers (store srv)) radius now = (st1, out1, any1)"
    by (metis prod_cases3)
  let ?srv1 = "srv\<lparr>store := st1\<rparr>"
  let ?winner = "case getAlivePlayers st1 of [] \<Rightarrow> None | w # _ \<Rightarrow> Some w"
  obtain srv2 out2 where fin:
    "(if any1 then (if length (getAlivePlayers st1) \<le> 1 then handleGameEnd ?srv1 ?winner now
                    else (?srv1, []))
      else (?srv1, [])) = (srv2, out2)"
    by (metis surj_pair)
  have result: "tickEliminations srv radius now
                  = (srv2, [(ToAll, PositionUpdate positions stamp)] @ out1 @ out2)"
    using pos loop fin by (auto simp: tickEliminations_def Let_def split: if_splits)
  have vars1: "sessionVars st1 = sessionVars (store srv)"
    using sessionVars_checkPlayers [of "store srv" "getAlivePlayers (store srv)" radius now] loop
    by simp
  have out1: "warningsIn out1 = []"
    using warningsIn_checkPlayers [of "store srv" "getAlivePlayers (store srv)" radius now] loop
    by simp
  have srv2: "srv2 = ?srv1 \<or> srv2 = fst (handleGameEnd ?srv1 ?winner now)"
    and out2: "out2 = [] \<or> out2 = snd (handleGameEnd ?srv1 ?winner now)"
    using fin by (auto split: if_splits)
  from srv2 vars1 handleGameEnd_effect(1) [of ?srv1 ?winner now]
  have "platformRadius (store srv2) = platformRadius (store srv) \<and>
        lastShrinkTime (store srv2) = lastShrinkTime (store srv)"
    by (auto simp: sessionVars_def split: if_splits)
  with result show
    "platformRadius (store (fst (tickEliminations srv radius now))) = platformRadius (store srv)"
    "lastShrinkTime (store (fst (tickEliminations srv radius now))) = lastShrinkTime (store srv)"
    by simp_all
  from out2 handleGameEnd_effect(2) [of ?srv1 ?winner now] have "warningsIn out2 = []" by auto
  with result out1 show "warningsIn (snd (tickEliminations srv radius now)) = []"
    by (simp add: warningsIn_append)
  from srv2 handleGameEnd_effect(3) [of ?srv1 ?winner now]
  have "previousWarningState srv2 = previousWarningState srv" by auto
  with result show
    "previousWarningState (fst (tickEliminations srv radius now)) = previousWarningState srv"
    by simp
qed

lemma getShrinkWarningState_off:
  assumes "\<not> truthyNum (lastShrinkTime st) \<or> platformRadius st \<le> MIN_RADIUS"
  shows "getShrinkWarningState st shrinkInterval warningTime now
           = \<lparr>isWarning = False, warningProgress = 0\<rparr>"
  using assms by (auto simp: getShrinkWarningState_def)

lemma tickWarning_off:
  assumes "\<not> truthyNum (lastShrinkTime (store srv)) \<or> platformRadius (store srv) \<le> MIN_RADIUS"
  shows "snd (tickWarning srv radius now)
           = (if isWarning (previousWarningState srv) then [(ToAll, PlatformWarning False 0 radius)]
              else [])"
    and "\<not> isWarning (previousWarningState (fst (tickWarning srv radius now)))"
    and "store (fst (tickWarning srv radius now)) = store srv"
  using getShrinkWarningState_off [OF assms, of SHRINK_INTERVAL SHRINK_WARNING_TIME now]
  by (simp_all add: tickWarning_def Let_def)

lemma tickShrink_effect:
  "warningsIn (snd (tickShrink srv radius now)) = []"
  "radius \<le> MIN_RADIUS \<Longrightarrow> tickShrink srv radius now = (srv, [])"
  by (simp_all add: tickShrink_def Let_def)

lemma gameLoopTick_off:
  assumes "\<not> truthyNum (lastShrinkTime (store srv)) \<or> platformRadius (store srv) \<le> MIN_RADIUS"
  shows "list_all (\<lambda>(w, progress, r). \<not> w \<and> progress = 0) (warningsIn (snd (gameLoopTick srv now)))"
    and "platformRadius (store srv) \<le> MIN_RADIUS \<Longrightarrow>
         platformRadius (store (fst (gameLoopTick srv now))) = platformRadius (store srv)"
proof -
  let ?r = "platformRadius (store srv)"
  obtain srv1 out1 where a: "tickEliminations srv ?r now = (srv1, out1)" by (metis surj_pair)
  obtain srv2 out2 where b: "tickWarning srv1 ?r now = (srv2, out2)" by (metis surj_pair)
  obtain srv3 out3 where c: "tickShrink srv2 ?r now = (srv3, out3)" by (metis surj_pair)
  have tick: "gameLoopTick srv now
                = (if gameState (store srv) = PLAYING then (srv3, out1 @ out2 @ out3) else (srv, []))"
    using a b c by (simp add: gameLoopTick_def Let_def)
  from tickEliminations_effect [of srv ?r now] a
  have srv1: "platformRadius (store srv1) = ?r" "lastShrinkTime (store srv1) = lastShrinkTime (store srv)"
    and out1: "warningsIn out1 = []"
    by simp_all
  from assms srv1
  have off: "\<not> truthyNum (lastShrinkTime (store srv1)) \<or> platformRadius (store srv1) \<le> MIN_RADIUS"
    by simp
  from tickWarning_off [OF off, of ?r now] b
  have out2: "list_all (\<lambda>(w, progress, r). \<not> w \<and> progress = 0) (warningsIn out2)"
    and srv2: "store srv2 = store srv1"
    by (simp_all split: if_splits)
  from tickShrink_effect(1) [of srv2 ?r now] c have out3: "warningsIn out3 = []" by simp
  from tick out1 out2 out3
  show "list_all (\<lambda>(w, progress, r). \<not> w \<and> progress = 0) (warningsIn (snd (gameLoopTick srv now)))"
    by (simp add: warningsIn_append)
  show "platformRadius (store (fst (gameLoopTick srv now))) = platformRadius (store srv)"
    if "platformRadius (store srv) \<le> MIN_RADIUS"
    using tickShrink_effect(2) [OF that, of srv2 now] c tick srv1 srv2 by simp
qed

lemma createPlayer_radius:
  "platformRadius (fst (createPlayer st k nm now r1 r2)) = platformRadius st"
  by (simp add: createPlayer_def Let_def)

lemma removePlayer_radius: "platformRadius (fst (removePlayer st k)) = platformRadius st"
  by (simp add: removePlayer_def Let_def split: option.splits)

lemma startGameLoop_store: "store (startGameLoop srv) = store srv"
  by (simp add: startGameLoop_def setInterval_def)

lemma startScoreUpdates_store: "store (startScoreUpdates srv) = store srv"
  by (simp add: startScoreUpdates_def setInterval_def)

lemma onJoin_quiet:
  "warningsIn (snd (onJoin srv sid nm now r1 r2)) = []"
  "platformRadius (store (fst (onJoin srv sid nm now r1 r2))) = platformRadius (store srv)"
proof -
  obtain st1 newPlayer where made: "createPlayer (store srv) sid nm now r1 r2 = (st1, newPlayer)"
    by (cases "createPlayer (store srv) sid nm now r1 r2")
  then show "warningsIn (snd (onJoin srv sid nm now r1 r2)) = []"
    by (simp add: onJoin_def Let_def)
  from createPlayer_radius [of "store srv" sid nm now r1 r2] made
  show "platformRadius (store (fst (onJoin srv sid nm now r1 r2))) = platformRadius (store srv)"
    by (simp add: onJoin_def Let_def startGameLoop_store)
qed

lemma onInput_quiet:
  "warningsIn (snd (onInput srv sid pos vel now)) = []"
  "platformRadius (store (fst (onInput srv sid pos vel now))) = platformRadius (store srv)"
  using sessionVars_fields(3) [OF sessionVars_updatePlayerPosition [of "store srv" sid pos vel now]]
  by (simp_all add: onInput_def split: option.splits)

lemma onCollision_quiet:
  "warningsIn (snd (onCollision srv sid other now)) = []"
  "platformRadius (store (fst (onCollision srv sid other now))) = platformRadius (store srv)"
  using sessionVars_fields(3) [OF sessionVars_recordCollision [of "store srv" other sid now]]
  by (simp_all add: onCollision_def split: option.splits)

lemma onStartGame_quiet:
  "warningsIn (snd (onStartGame srv sid now)) = []"
  "platformRadius (store (fst (onStartGame srv sid now))) = platformRadius (store srv)"
  by (simp_all add: onStartGame_def startCountdown_def setInterval_def setGameState_def Let_def)

lemma onReady_quiet:
  "warningsIn (snd (onReady srv sid ready)) = []"
  "platformRadius (store (fst (onReady srv sid ready))) = platformRadius (store srv)"
  using sessionVars_fields(3) [OF sessionVars_setPlayerReady [of "store srv" sid ready]]
  by (simp_all add: onReady_def)

lemma onKonamiCode_quiet:
  "warningsIn (snd (onKonamiCode srv sid now)) = []"
  "platformRadius (store (fst (onKonamiCode srv sid now))) = platformRadius (store srv)"
proof -
  obtain st1 out1 where
    loop: "konamiEliminate (store srv) (getAlivePlayers (store srv)) sid now = (st1, out1)"
    by (metis surj_pair)
  have out1: "warningsIn out1 = []"
    using warningsIn_konamiEliminate [of "store srv" "getAlivePlayers (store srv)" sid now] loop
    by simp
  have vars1: "sessionVars st1 = sessionVars (store srv)"
    using sessionVars_konamiEliminate [of "store srv" "getAlivePlayers (store srv)" sid now] loop
    by simp
  have fin: "warningsIn (snd (handleGameEnd (srv\<lparr>store := st1\<rparr>) w now)) = []"
    "platformRadius (store (fst (handleGameEnd (srv\<lparr>store := st1\<rparr>) w now)))
       = platformRadius (store srv)" for w
    using handleGameEnd_effect(1,2) [of "srv\<lparr>store := st1\<rparr>" w now] vars1
    by (auto simp: sessionVars_def split: if_splits)
  show "warningsIn (snd (onKonamiCode srv sid now)) = []"
    using loop out1 fin(1)
    by (simp add: onKonamiCode_def Let_def warningsIn_append case_prod_beta split: option.splits)
  show "platformRadius (store (fst (onKonamiCode srv sid now))) = platformRadius (store srv)"
    using loop fin(2)
    by (simp add: onKonamiCode_def Let_def case_prod_beta split: option.splits)
qed

lemma onPlayAgain_quiet: "warningsIn (snd (onPlayAgain srv sid now rnd)) = []"
  by (simp add: onPlayAgain_def Let_def)

lemma onDisconnect_quiet:
  "warningsIn (snd (onDisconnect srv sid now)) = []"
  "platformRadius (store (fst (onDisconnect srv sid now))) = platformRadius (store srv)"
proof -
  obtain st1 gone where rm: "removePlayer (store srv) sid = (st1, gone)"
    by (cases "removePlayer (store srv) sid")
  have r1: "platformRadius st1 = platformRadius (store srv)"
    using removePlayer_radius [of "store srv" sid] rm by simp
  have fin: "warningsIn (snd (handleGameEnd (srv\<lparr>store := st1\<rparr>) w now)) = []"
    "platformRadius (store (fst (handleGameEnd (srv\<lparr>store := st1\<rparr>) w now)))
       = platformRadius (store srv)" for w
    using handleGameEnd_effect(1,2) [of "srv\<lparr>store := st1\<rparr>" w now] r1
    by (auto simp: sessionVars_def split: if_splits)
  show "warningsIn (snd (onDisconnect srv sid now)) = []"
    using rm fin(1)
    by (cases gone)
       (simp_all add: onDisconnect_def Let_def warningsIn_append case_prod_beta)
  show "platformRadius (store (fst (onDisconnect srv sid now))) = platformRadius (store srv)"
    using rm r1 fin(2)
    by (cases gone) (simp_all add: onDisconnect_def Let_def case_prod_beta)
qed

lemma countdownTick_quiet:
  "warningsIn (snd (countdownTick srv h count now)) = []"
  "platformRadius (store (fst (countdownTick srv h count now))) = platformRadius (store srv)"
  by (simp_all add: countdownTick_def Let_def startGameLoop_store startScoreUpdates_store
        clearInterval_def setGameState_def initializeGameTimes_def split: option.splits)

lemma scoreTick_quiet:
  "warningsIn (snd (scoreTick srv now)) = []"
  "platformRadius (store (fst (scoreTick srv now))) = platformRadius (store srv)"
  using sessionVars_fields(3) [OF sessionVars_getScoreSnapshot [of "store srv" now]]
  by (simp_all add: scoreTick_def case_prod_beta)

text \<open>
  Claim C10. Whenever the platform radius is at or below the minimum radius (4), or there
  is no \<^verbatim>\<open>lastShrinkTime\<close>, \<^verbatim>\<open>getShrinkWarningState\<close> returns no warning and progress 0,
  whatever the interval, the warning window and the time. So in such a state no turn of the
  server emits a \<^verbatim>\<open>platformWarning\<close> with the warning flag set (a turn emits at most the one
  that withdraws a warning announced before); and an arena at its minimum radius stays at it
  through every turn but an accepted request to play again.
\<close>

theorem shrink_warning_off_at_minimum:
  assumes "\<not> truthyNum (lastShrinkTime (store srv)) \<or> platformRadius (store srv) \<le> MIN_RADIUS"
  shows "MIN_RADIUS = 4 \<and>
         getShrinkWarningState (store srv) shrinkInterval warningTime now
           = \<lparr>isWarning = False, warningProgress = 0\<rparr> \<and>
         list_all (\<lambda>(w, progress, r). \<not> w \<and> progress = 0)
           (warningsIn (snd (serverStep srv now rnd ev))) \<and>
         (if platformRadius (store srv) \<le> MIN_RADIUS \<and> (\<forall>sid. ev \<noteq> PlayAgain sid)
          then platformRadius (store (fst (serverStep srv now rnd ev))) = platformRadius (store srv)
          else True)"
proof -
  have quiet: "list_all (\<lambda>(w, progress, r). \<not> w \<and> progress = 0)
                 (warningsIn (snd (serverStep srv now rnd ev)))"
  proof (cases ev)
    case (TimerFires h)
    show ?thesis
    proof (cases "map_of (timers srv) h")
      case None
      with TimerFires show ?thesis by simp
    next
      case (Some t)
      with TimerFires gameLoopTick_off(1) [OF assms, of now] show ?thesis
        by (cases t) (simp_all add: countdownTick_quiet scoreTick_quiet)
    qed
  qed (simp_all add: onConnection_def onJoin_quiet onInput_quiet onCollision_quiet
         onStartGame_quiet onReady_quiet onKonamiCode_quiet onPlayAgain_quiet onDisconnect_quiet)
  have stays: "platformRadius (store (fst (serverStep srv now rnd ev))) = platformRadius (store srv)"
    if small: "platformRadius (store srv) \<le> MIN_RADIUS" and other: "\<forall>sid. ev \<noteq> PlayAgain sid"
  proof (cases ev)
    case (TimerFires h)
    show ?thesis
    proof (cases "map_of (timers srv) h")
      case None
      with TimerFires show ?thesis by simp
    next
      case (Some t)
      with TimerFires gameLoopTick_off(2) [OF assms small, of now] show ?thesis
        by (cases t) (simp_all add: countdownTick_quiet scoreTick_quiet)
    qed
  next
    case (PlayAgain sid)
    with other show ?thesis by simp
  qed (simp_all add: onConnection_def onJoin_quiet onInput_quiet onCollision_quiet
         onStartGame_quiet onReady_quiet onKonamiCode_quiet onDisconnect_quiet)
  from quiet stays getShrinkWarningState_off [OF assms, of shrinkInterval warningTime now]
  show ?thesis by (simp add: MIN_RADIUS_def)
qed

lemma duelPlaying_players:
  "\<exists>pa pb. players duelPlaying = [(''ann'', pa), (''bob'', pb)] \<and>
     pid pa = ''ann'' \<and> pid pb = ''bob'' \<and> \<not> isEliminated pa \<and> \<not> isEliminated pb \<and>
     position pa = spawnPosition 0 0 \<and> position pb = spawnPosition 0 0 \<and>
     \<not> isOutOfBounds pa \<and> \<not> isOutOfBounds pb \<and>
     roundStartTime pa = Some 1000 \<and> roundStartTime pb = Some 1000 \<and>
     gameState duelPlaying = PLAYING"
  by (simp add: duelPlaying_def duelLobby_def session_defs)

lemmas tick_defs =
  initialServer_def gameLoopTick_def Let_def tickEliminations_def getPositionSnapshot_def
  getAlivePlayers_def checkPlayer_def updateBoundaryStatus_def spawnPosition_origin
  map_of_update_if truthyNum_def FALL_THRESHOLD_def tickWarning_def getShrinkWarningState_def
  MIN_RADIUS_def getTimeUntilNextShrink_def SHRINK_INTERVAL_def SHRINK_WARNING_TIME_def
  tickShrink_def shouldShrinkPlatform_def shrinkPlatform_def SHRINK_AMOUNT_def

text \<open>
  The last shrink was at 91000 and it is 120000, one second before a shrink would be due.
  With the arena at radius 6 the warning is on, at progress 0.8, and the tick announces it;
  at 121000 the tick shrinks the arena. With the arena at the minimum radius 4 there is no
  warning, the tick announces none, and the tick at 121000 leaves the radius at 4.
\<close>

theorem shrink_warning_off_at_minimum_witness:
  "platformRadius (store minArena) \<le> MIN_RADIUS \<and>
   truthyNum (lastShrinkTime (store minArena)) \<and>
   getShrinkWarningState (store minArena) SHRINK_INTERVAL SHRINK_WARNING_TIME 120000
     = \<lparr>isWarning = False, warningProgress = 0\<rparr> \<and>
   getShrinkWarningState (store smallArena) SHRINK_INTERVAL SHRINK_WARNING_TIME 120000
     = \<lparr>isWarning = True, warningProgress = 4 / 5\<rparr> \<and>
   warningsIn (snd (serverStep minArena 120000 (\<lambda>_. 0) (TimerFires 1))) = [] \<and>
   warningsIn (snd (serverStep smallArena 120000 (\<lambda>_. 0) (TimerFires 1))) = [(True, 4 / 5, 6)] \<and>
   platformRadius (store (fst (serverStep minArena 121000 (\<lambda>_. 0) (TimerFires 1)))) = 4 \<and>
   platformRadius (store (fst (serverStep smallArena 121000 (\<lambda>_. 0) (TimerFires 1)))) = 4"
proof -
  from duelPlaying_players obtain pa pb where
    ps: "players duelPlaying = [(''ann'', pa), (''bob'', pb)]"
    and f: "pid pa = ''ann''" "pid pb = ''bob''" "\<not> isEliminated pa" "\<not> isEliminated pb"
     "position pa = spawnPosition 0 0" "position pb = spawnPosition 0 0"
     "\<not> isOutOfBounds pa" "\<not> isOutOfBounds pb"
     "roundStartTime pa = Some 1000" "roundStartTime pb = Some 1000"
     "gameState duelPlaying = PLAYING"
    by blast
  have small: "platformRadius (store minArena) \<le> MIN_RADIUS"
    and stamped: "truthyNum (lastShrinkTime (store minArena))"
    by (simp_all add: minArena_def MIN_RADIUS_def truthyNum_def)
  then have off:
    "\<not> truthyNum (lastShrinkTime (store minArena)) \<or> platformRadius (store minArena) \<le> MIN_RADIUS"
    by simp
  note at_min = shrink_warning_off_at_minimum [OF off]
  from at_min [of SHRINK_INTERVAL SHRINK_WARNING_TIME 120000]
  have no_warning:
    "getShrinkWarningState (store minArena) SHRINK_INTERVAL SHRINK_WARNING_TIME 120000
       = \<lparr>isWarning = False, warningProgress = 0\<rparr>"
    by simp
  from at_min [of 0 0 121000 "\<lambda>_. 0" "TimerFires 1"] small
  have "platformRadius (store (fst (serverStep minArena 121000 (\<lambda>_. 0) (TimerFires 1))))
          = platformRadius (store minArena)"
    by simp
  moreover have "platformRadius (store minArena) = 4" by (simp add: minArena_def)
  ultimately
  have stays: "platformRadius (store (fst (serverStep minArena 121000 (\<lambda>_. 0) (TimerFires 1)))) = 4"
    by simp
  have warning:
    "getShrinkWarningState (store smallArena) SHRINK_INTERVAL SHRINK_WARNING_TIME 120000
       = \<lparr>isWarning = True, warningProgress = 4 / 5\<rparr>"
    by (simp add: smallArena_def tick_defs)
  have silent: "warningsIn (snd (serverStep minArena 120000 (\<lambda>_. 0) (TimerFires 1))) = []"
    using ps f by (simp add: minArena_def tick_defs)
  have announced:
    "warningsIn (snd (serverStep smallArena 120000 (\<lambda>_. 0) (TimerFires 1))) = [(True, 4 / 5, 6)]"
    using ps f by (simp add: smallArena_def tick_defs)
  have shrinks:
    "platformRadius (store (fst (serverStep smallArena 121000 (\<lambda>_. 0) (TimerFires 1)))) = 4"
    using ps f by (simp add: smallArena_def tick_defs)
  from small stamped no_warning warning silent announced stays shrinks show ?thesis by blast
qed

subsection \<open>Timers\<close>

lemma timersHeld_iff:
  "timersHeld srv \<longleftrightarrow>
     distinct (map fst (timers srv)) \<and>
     heldMap (map_of (timers srv)) (nextHandle srv) (gameLoopInterval srv)
       (countdownInterval srv) (scoreUpdateInterval srv)"
proof -
  have entries:
    "list_all (\<lambda>(h, t). P h t) al \<longleftrightarrow> (\<forall>h t. map_of al h = Some t \<longrightarrow> P h t)"
    if "distinct (map fst al)" for P :: "nat \<Rightarrow> timer \<Rightarrow> bool" and al
    using that by (auto simp: list_all_iff)
  have countdown:
    "(case m of Some (CountdownTimer c) \<Rightarrow> True | _ \<Rightarrow> False) \<longleftrightarrow> (\<exists>c. m = Some (CountdownTimer c))"
    for m :: "timer option"
    by (auto split: option.splits timer.splits)
  show ?thesis
    unfolding timersHeld_def heldMap_def countdown
    by (auto simp: entries split: option.splits)
qed

lemma heldMapI:
  assumes "\<And>h t. m h = Some t \<Longrightarrow> h < n"
    and "\<And>h. m h = Some GameLoopTimer \<Longrightarrow> g = Some h"
    and "\<And>h k. m h = Some (CountdownTimer k) \<Longrightarrow> c = Some h"
    and "\<And>h. m h = Some ScoreTimer \<Longrightarrow> s = Some h"
    and "\<And>h. g = Some h \<Longrightarrow> m h = Some GameLoopTimer"
    and "\<And>h. c = Some h \<Longrightarrow> \<exists>k. m h = Some (CountdownTimer k)"
    and "\<And>h. s = Some h \<Longrightarrow> m h = Some ScoreTimer"
  shows "heldMap m n g c s"
  unfolding heldMap_def
proof (intro conjI allI impI)
  fix h t assume "m h = Some t"
  with assms(1-4) show "case t of GameLoopTimer \<Rightarrow> g = Some h
      | CountdownTimer k \<Rightarrow> c = Some h | ScoreTimer \<Rightarrow> s = Some h"
    by (cases t) simp_all
qed (use assms in blast)+

lemma heldMapD:
  assumes "heldMap m n g c s"
  shows "m h = Some t \<Longrightarrow> h < n"
    and "m h = Some GameLoopTimer \<Longrightarrow> g = Some h"
    and "m h = Some (CountdownTimer k) \<Longrightarrow> c = Some h"
    and "m h = Some ScoreTimer \<Longrightarrow> s = Some h"
    and "g = Some h \<Longrightarrow> m h = Some GameLoopTimer"
    and "c = Some h \<Longrightarrow> \<exists>k. m h = Some (CountdownTimer k)"
    and "s = Some h \<Longrightarrow> m h = Some ScoreTimer"
proof -
  from assms have entry: "\<And>h t. m h = Some t \<Longrightarrow> h < n \<and>
         (case t of GameLoopTimer \<Rightarrow> g = Some h
          | CountdownTimer k \<Rightarrow> c = Some h | ScoreTimer \<Rightarrow> s = Some h)"
    and vars: "\<And>h. g = Some h \<Longrightarrow> m h = Some GameLoopTimer"
      "\<And>h. c = Some h \<Longrightarrow> \<exists>k. m h = Some (CountdownTimer k)"
      "\<And>h. s = Some h \<Longrightarrow> m h = Some ScoreTimer"
    unfolding heldMap_def by blast+
  show "m h = Some t \<Longrightarrow> h < n" using entry by blast
  show "m h = Some GameLoopTimer \<Longrightarrow> g = Some h" using entry [of h GameLoopTimer] by simp
  show "m h = Some (CountdownTimer k) \<Longrightarrow> c = Some h" using entry [of h "CountdownTimer k"] by simp
  show "m h = Some ScoreTimer \<Longrightarrow> s = Some h" using entry [of h ScoreTimer] by simp
  show "g = Some h \<Longrightarrow> m h = Some GameLoopTimer" by (rule vars)
  show "c = Some h \<Longrightarrow> \<exists>k. m h = Some (CountdownTimer k)" by (rule vars)
  show "s = Some h \<Longrightarrow> m h = Some ScoreTimer" by (rule vars)
qed

lemma heldMap_fresh:
  assumes "heldMap m n g c s"
  shows "m n = None"
proof (cases "m n")
  case (Some t)
  from heldMapD(1) [OF assms Some] show ?thesis by simp
qed simp

lemma heldMap_add_gameLoop:
  assumes "heldMap m n None c s"
  shows "heldMap (m(n \<mapsto> GameLoopTimer)) (Suc n) (Some n) c s"
proof (rule heldMapI)
  note D = heldMapD [OF assms] and fresh = heldMap_fresh [OF assms]
  show "h < Suc n" if "(m(n \<mapsto> GameLoopTimer)) h = Some t" for h t
    using that D(1) [of h t] by (auto split: if_splits)
  show "Some n = Some h" if "(m(n \<mapsto> GameLoopTimer)) h = Some GameLoopTimer" for h
    using that D(2) [of h] by (auto split: if_splits)
  show "c = Some h" if "(m(n \<mapsto> GameLoopTimer)) h = Some (CountdownTimer k)" for h k
    using that D(3) [of h k] by (auto split: if_splits)
  show "s = Some h" if "(m(n \<mapsto> GameLoopTimer)) h = Some ScoreTimer" for h
    using that D(4) [of h] by (auto split: if_splits)
  show "(m(n \<mapsto> GameLoopTimer)) h = Some GameLoopTimer" if "Some n = Some h" for h
    using that by simp
  show "\<exists>k. (m(n \<mapsto> GameLoopTimer)) h = Some (CountdownTimer k)" if "c = Some h" for h
    using that D(6) [of h] fresh by auto
  show "(m(n \<mapsto> GameLoopTimer)) h = Some ScoreTimer" if "s = Some h" for h
    using that D(7) [of h] fresh by auto
qed

lemma heldMap_add_score:
  assumes "heldMap m n g c None"
  shows "heldMap (m(n \<mapsto> ScoreTimer)) (Suc n) g c (Some n)"
proof (rule heldMapI)
  note D = heldMapD [OF assms] and fresh = heldMap_fresh [OF assms]
  show "h < Suc n" if "(m(n \<mapsto> ScoreTimer)) h = Some t" for h t
    using that D(1) [of h t] by (auto split: if_splits)
  show "g = Some h" if "(m(n \<mapsto> ScoreTimer)) h = Some GameLoopTimer" for h
    using that D(2) [of h] by (auto split: if_splits)
  show "c = Some h" if "(m(n \<mapsto> ScoreTimer)) h = Some (CountdownTimer k)" for h k
    using that D(3) [of h k] by (auto split: if_splits)
  show "Some n = Some h" if "(m(n \<mapsto> ScoreTimer)) h = Some ScoreTimer" for h
    using that D(4) [of h] by (auto split: if_splits)
  show "(m(n \<mapsto> ScoreTimer)) h = Some GameLoopTimer" if "g = Some h" for h
    using that D(5) [of h] fresh by auto
  show "\<exists>k. (m(n \<mapsto> ScoreTimer)) h = Some (CountdownTimer k)" if "c = Some h" for h
    using that D(6) [of h] fresh by auto
  show "(m(n \<mapsto> ScoreTimer)) h = Some ScoreTimer" if "Some n = Some h" for h
    using that by simp
qed

lemma heldMap_add_countdown:
  assumes "heldMap m n g None s"
  shows "heldMap (m(n \<mapsto> CountdownTimer k)) (Suc n) g (Some n) s"
proof (rule heldMapI)
  note D = heldMapD [OF assms] and fresh = heldMap_fresh [OF assms]
  show "h < Suc n" if "(m(n \<mapsto> CountdownTimer k)) h = Some t" for h t
    using that D(1) [of h t] by (auto split: if_splits)
  show "g = Some h" if "(m(n \<mapsto> CountdownTimer k)) h = Some GameLoopTimer" for h
    using that D(2) [of h] by (auto split: if_splits)
  show "Some n = Some h" if "(m(n \<mapsto> CountdownTimer k)) h = Some (CountdownTimer k')" for h k'
    using that D(3) [of h k'] by (auto split: if_splits)
  show "s = Some h" if "(m(n \<mapsto> CountdownTimer k)) h = Some ScoreTimer" for h
    using that D(4) [of h] by (auto split: if_splits)
  show "(m(n \<mapsto> CountdownTimer k)) h = Some GameLoopTimer" if "g = Some h" for h
    using that D(5) [of h] fresh by auto
  show "\<exists>k'. (m(n \<mapsto> CountdownTimer k)) h = Some (CountdownTimer k')" if "Some n = Some h" for h
    using that by simp
  show "(m(n \<mapsto> CountdownTimer k)) h = Some ScoreTimer" if "s = Some h" for h
    using that D(7) [of h] fresh by auto
qed

lemma heldMap_clear_score:
  assumes "heldMap m n g c (Some x)"
  shows "heldMap (m(x := None)) n g c None"
proof (rule heldMapI)
  note D = heldMapD [OF assms]
  have x: "m x = Some ScoreTimer" using D(7) by simp
  show "h < n" if "(m(x := None)) h = Some t" for h t
    using that D(1) [of h t] by (auto split: if_splits)
  show "g = Some h" if "(m(x := None)) h = Some GameLoopTimer" for h
    using that D(2) [of h] by (auto split: if_splits)
  show "c = Some h" if "(m(x := None)) h = Some (CountdownTimer k)" for h k
    using that D(3) [of h k] by (auto split: if_splits)
  show "None = Some h" if "(m(x := None)) h = Some ScoreTimer" for h
    using that D(4) [of h] by (auto split: if_splits)
  show "(m(x := None)) h = Some GameLoopTimer" if "g = Some h" for h
    using that D(5) [of h] x by auto
  show "\<exists>k. (m(x := None)) h = Some (CountdownTimer k)" if "c = Some h" for h
    using that D(6) [of h] x by auto
  show "(m(x := None)) h = Some ScoreTimer" if "None = Some h" for h
    using that by simp
qed

lemma heldMap_clear_countdown:
  assumes "heldMap m n g (Some x) s"
  shows "heldMap (m(x := None)) n g None s"
proof (rule heldMapI)
  note D = heldMapD [OF assms]
  obtain k0 where x: "m x = Some (CountdownTimer k0)" using D(6) by blast
  show "h < n" if "(m(x := None)) h = Some t" for h t
    using that D(1) [of h t] by (auto split: if_splits)
  show "g = Some h" if "(m(x := None)) h = Some GameLoopTimer" for h
    using that D(2) [of h] by (auto split: if_splits)
  show "None = Some h" if "(m(x := None)) h = Some (CountdownTimer k)" for h k
    using that D(3) [of h k] by (auto split: if_splits)
  show "s = Some h" if "(m(x := None)) h = Some ScoreTimer" for h
    using that D(4) [of h] by (auto split: if_splits)
  show "(m(x := None)) h = Some GameLoopTimer" if "g = Some h" for h
    using that D(5) [of h] x by auto
  show "\<exists>k. (m(x := None)) h = Some (CountdownTimer k)" if "None = Some h" for h
    using that by simp
  show "(m(x := None)) h = Some ScoreTimer" if "s = Some h" for h
    using that D(7) [of h] x by auto
qed

lemma heldMap_count:
  assumes "heldMap m n g c s" and "m x = Some (CountdownTimer k0)"
  shows "heldMap (m(x \<mapsto> CountdownTimer k1)) n g c s"
proof (rule heldMapI)
  note D = heldMapD [OF assms(1)] and x = assms(2)
  show "h < n" if "(m(x \<mapsto> CountdownTimer k1)) h = Some t" for h t
    using that D(1) [of h t] D(1) [OF x] by (auto split: if_splits)
  show "g = Some h" if "(m(x \<mapsto> CountdownTimer k1)) h = Some GameLoopTimer" for h
    using that D(2) [of h] by (auto split: if_splits)
  show "c = Some h" if "(m(x \<mapsto> CountdownTimer k1)) h = Some (CountdownTimer k)" for h k
    using that D(3) [of h k] D(3) [OF x] by (auto split: if_splits)
  show "s = Some h" if "(m(x \<mapsto> CountdownTimer k1)) h = Some ScoreTimer" for h
    using that D(4) [of h] by (auto split: if_splits)
  show "(m(x \<mapsto> CountdownTimer k1)) h = Some GameLoopTimer" if "g = Some h" for h
    using that D(5) [of h] x by auto
  show "\<exists>k. (m(x \<mapsto> CountdownTimer k1)) h = Some (CountdownTimer k)" if "c = Some h" for h
    using that D(6) [of h] by auto
  show "(m(x \<mapsto> CountdownTimer k1)) h = Some ScoreTimer" if "s = Some h" for h
    using that D(7) [of h] x by auto
qed

lemma map_of_snoc_fresh:
  assumes "map_of al n = None"
  shows "map_of (al @ [(n, v)]) = (map_of al)(n \<mapsto> v)"
    and "distinct (map fst al) \<Longrightarrow> distinct (map fst (al @ [(n, v)]))"
proof -
  show "map_of (al @ [(n, v)]) = (map_of al)(n \<mapsto> v)"
    using assms by (auto simp: fun_eq_iff map_add_def split: option.splits)
  show "distinct (map fst (al @ [(n, v)]))" if "distinct (map fst al)"
    using that assms by (simp add: map_of_eq_None_iff)
qed

lemma timersHeld_store [simp]: "timersHeld (srv\<lparr>store := st\<rparr>) = timersHeld srv"
  by (simp add: timersHeld_iff)

lemma timersHeld_warning [simp]: "timersHeld (srv\<lparr>previousWarningState := w\<rparr>) = timersHeld srv"
  by (simp add: timersHeld_iff)

lemma timersHeld_fresh:
  assumes "timersHeld srv"
  shows "map_of (timers srv) (nextHandle srv) = None"
  using assms heldMap_fresh by (auto simp: timersHeld_iff)

lemma timersHeld_startGameLoop:
  assumes "timersHeld srv"
  shows "timersHeld (startGameLoop srv)"
proof (cases "gameLoopInterval srv")
  case (Some h)
  with assms show ?thesis by (simp add: startGameLoop_def)
next
  case None
  note fresh = map_of_snoc_fresh [OF timersHeld_fresh [OF assms]]
  from assms have "distinct (map fst (timers srv))" by (simp add: timersHeld_iff)
  note fresh = fresh(1) fresh(2) [OF this]
  from assms None show ?thesis
    by (simp add: timersHeld_iff startGameLoop_def setInterval_def fresh heldMap_add_gameLoop
          del: map_of_append map_append distinct_append)
qed

lemma timersHeld_startScoreUpdates:
  assumes "timersHeld srv"
  shows "timersHeld (startScoreUpdates srv)"
proof (cases "scoreUpdateInterval srv")
  case (Some h)
  with assms show ?thesis by (simp add: startScoreUpdates_def)
next
  case None
  note fresh = map_of_snoc_fresh [OF timersHeld_fresh [OF assms]]
  from assms have "distinct (map fst (timers srv))" by (simp add: timersHeld_iff)
  note fresh = fresh(1) fresh(2) [OF this]
  from assms None show ?thesis
    by (simp add: timersHeld_iff startScoreUpdates_def setInterval_def fresh heldMap_add_score
          del: map_of_append map_append distinct_append)
qed

lemma timersHeld_startCountdown:
  assumes "timersHeld srv" and "countdownInterval srv = None"
  shows "timersHeld (fst (startCountdown srv now))"
proof -
  note fresh = map_of_snoc_fresh [OF timersHeld_fresh [OF assms(1)]]
  from assms have "distinct (map fst (timers srv))" by (simp add: timersHeld_iff)
  note fresh = fresh(1) fresh(2) [OF this]
  from assms show ?thesis
    by (simp add: timersHeld_iff startCountdown_def setInterval_def Let_def fresh
          heldMap_add_countdown del: map_of_append map_append distinct_append)
qed

lemma timersHeld_clear_score:
  assumes "timersHeld srv"
  shows "timersHeld ((clearInterval srv (scoreUpdateInterval srv))\<lparr>scoreUpdateInterval := None\<rparr>)"
proof (cases "scoreUpdateInterval srv")
  case None
  with assms show ?thesis by (simp add: clearInterval_def timersHeld_iff)
next
  case (Some h)
  with assms show ?thesis
    by (simp add: timersHeld_iff clearInterval_def delete_conv' distinct_delete
          heldMap_clear_score)
qed

lemma timersHeld_clear_countdown:
  assumes "timersHeld srv"
  shows "timersHeld ((clearInterval srv (countdownInterval srv))\<lparr>countdownInterval := None\<rparr>)"
proof (cases "countdownInterval srv")
  case None
  with assms show ?thesis by (simp add: clearInterval_def timersHeld_iff)
next
  case (Some h)
  with assms show ?thesis
    by (simp add: timersHeld_iff clearInterval_def delete_conv' distinct_delete
          heldMap_clear_countdown)
qed

lemma timersHeld_count:
  assumes "timersHeld srv" and "map_of (timers srv) h = Some (CountdownTimer k)"
  shows "timersHeld (srv\<lparr>timers := AList.update h (CountdownTimer k') (timers srv)\<rparr>)"
  using assms
  by (simp add: timersHeld_iff update_conv' distinct_update heldMap_count)

lemma timersHeld_countdown_entry:
  assumes "timersHeld srv" and "map_of (timers srv) h = Some (CountdownTimer k)"
  shows "countdownInterval srv = Some h"
  using assms heldMapD(3) by (auto simp: timersHeld_iff)

text \<open>The phases and the timers, handler by handler.\<close>

lemma follow_store:
  assumes "gameState st = gameState (store srv)"
  shows "timersFollowPhase (srv\<lparr>store := st\<rparr>) = timersFollowPhase srv"
  using assms by (simp add: timersFollowPhase_def)

lemma follow_warning [simp]:
  "timersFollowPhase (srv\<lparr>previousWarningState := w\<rparr>) = timersFollowPhase srv"
  by (simp add: timersFollowPhase_def)

lemma follow_startGameLoop:
  assumes "timersFollowPhase srv"
  shows "timersFollowPhase (startGameLoop srv)"
proof -
  have "countdownInterval (startGameLoop srv) = countdownInterval srv"
    "scoreUpdateInterval (startGameLoop srv) = scoreUpdateInterval srv"
    "store (startGameLoop srv) = store srv"
    by (simp_all add: startGameLoop_def setInterval_def)
  with assms timersHeld_startGameLoop [of srv] show ?thesis
    by (simp add: timersFollowPhase_def)
qed

lemma follow_startCountdown:
  assumes "timersFollowPhase srv" and "gameState (store srv) = LOBBY"
  shows "timersFollowPhase (fst (startCountdown srv now))"
proof -
  from assms have none: "countdownInterval srv = None" "scoreUpdateInterval srv = None"
    by (auto simp: timersFollowPhase_def)
  have "countdownInterval (fst (startCountdown srv now)) \<noteq> None"
    "scoreUpdateInterval (fst (startCountdown srv now)) = scoreUpdateInterval srv"
    "gameState (store (fst (startCountdown srv now))) = COUNTDOWN"
    by (simp_all add: startCountdown_def setInterval_def Let_def setGameState_def)
  with assms none timersHeld_startCountdown [of srv now] show ?thesis
    by (simp add: timersFollowPhase_def)
qed

lemma follow_handleGameEnd:
  assumes "timersFollowPhase srv" and "gameState (store srv) = PLAYING"
  shows "timersFollowPhase (fst (handleGameEnd srv w now))"
proof -
  from assms have vars: "countdownInterval srv = None" "scoreUpdateInterval srv \<noteq> None"
    and held: "timersHeld srv"
    by (auto simp: timersFollowPhase_def)
  let ?srv1 = "srv\<lparr>store := setGameState (store srv) ENDED now\<rparr>"
  have result: "fst (handleGameEnd srv w now)
          = (clearInterval ?srv1 (scoreUpdateInterval ?srv1))\<lparr>scoreUpdateInterval := None\<rparr>"
    using assms(2) vars by (simp add: handleGameEnd_def Let_def)
  have "timersHeld ?srv1" using held by simp
  from timersHeld_clear_score [OF this]
  have "timersHeld (fst (handleGameEnd srv w now))" by (simp only: result)
  moreover have "gameState (store (fst (handleGameEnd srv w now))) = ENDED"
    "countdownInterval (fst (handleGameEnd srv w now)) = None"
    "scoreUpdateInterval (fst (handleGameEnd srv w now)) = None"
    using vars by (simp_all add: result clearInterval_def setGameState_def split: option.splits)
  ultimately show ?thesis by (simp add: timersFollowPhase_def)
qed

lemma follow_countdownTick:
  assumes "timersFollowPhase srv" and "map_of (timers srv) h = Some (CountdownTimer count)"
  shows "timersFollowPhase (fst (countdownTick srv h count now))"
proof -
  from assms have held: "timersHeld srv" by (simp add: timersFollowPhase_def)
  from timersHeld_countdown_entry [OF held assms(2)]
  have var: "countdownInterval srv = Some h" .
  with assms have phase: "gameState (store srv) = COUNTDOWN" "scoreUpdateInterval srv = None"
    by (auto simp: timersFollowPhase_def)
  let ?srv0 = "srv\<lparr>timers := AList.update h (CountdownTimer (count - 1)) (timers srv)\<rparr>"
  have held0: "timersHeld ?srv0" by (rule timersHeld_count [OF held assms(2)])
  show ?thesis
  proof (cases "count - 1 > 0")
    case True
    then have "fst (countdownTick srv h count now) = ?srv0"
      by (simp add: countdownTick_def Let_def)
    with held0 assms(1) show ?thesis by (simp add: timersFollowPhase_def)
  next
    case False
    let ?srv1 = "(clearInterval ?srv0 (countdownInterval ?srv0))\<lparr>countdownInterval := None\<rparr>"
    let ?srv3 = "?srv1\<lparr>store := initializeGameTimes (setGameState (store ?srv1) PLAYING now) now\<rparr>"
    have result: "fst (countdownTick srv h count now) = startScoreUpdates (startGameLoop ?srv3)"
      using False by (simp add: countdownTick_def Let_def)
    have "timersHeld ?srv1" by (rule timersHeld_clear_countdown [OF held0])
    then have "timersHeld ?srv3" by simp
    then have held5: "timersHeld (startScoreUpdates (startGameLoop ?srv3))"
      by (intro timersHeld_startScoreUpdates timersHeld_startGameLoop)
    have "gameState (store (startScoreUpdates (startGameLoop ?srv3))) = PLAYING"
      "countdownInterval (startScoreUpdates (startGameLoop ?srv3)) = None"
      "scoreUpdateInterval (startScoreUpdates (startGameLoop ?srv3)) \<noteq> None"
      using phase
      by (simp_all add: startScoreUpdates_def startGameLoop_def setInterval_def clearInterval_def
            setGameState_def initializeGameTimes_def Let_def split: option.splits)
    with held5 show ?thesis by (simp add: timersFollowPhase_def result)
  qed
qed

lemma createPlayer_gameState: "gameState (fst (createPlayer st k nm now r1 r2)) = gameState st"
  by (simp add: createPlayer_def Let_def)

lemma removePlayer_gameState: "gameState (fst (removePlayer st k)) = gameState st"
  by (simp add: removePlayer_def Let_def split: option.splits)

lemma handleGameEnd_gameLoop:
  "gameLoopInterval (fst (handleGameEnd srv w now)) = gameLoopInterval srv"
  by (simp add: handleGameEnd_def Let_def clearInterval_def split: option.splits)

lemma startGameLoop_gameLoop:
  "gameLoopInterval srv = Some g \<Longrightarrow> gameLoopInterval (startGameLoop srv) = Some g"
  by (simp add: startGameLoop_def)

lemma startScoreUpdates_gameLoop:
  "gameLoopInterval (startScoreUpdates srv) = gameLoopInterval srv"
  by (simp add: startScoreUpdates_def setInterval_def)

text \<open>
  The first block of the tick leaves the server with a store that differs in its players
  only, or with what \<^verbatim>\<open>handleGameEnd\<close> makes of that.
\<close>

lemma tickEliminations_shape:
  "\<exists>st1. sessionVars st1 = sessionVars (store srv) \<and>
     (fst (tickEliminations srv radius now) = srv\<lparr>store := st1\<rparr> \<or>
      (\<exists>w. fst (tickEliminations srv radius now) = fst (handleGameEnd (srv\<lparr>store := st1\<rparr>) w now)))"
proof -
  let ?st1 = "fst (checkPlayers (store srv) (getAlivePlayers (store srv)) radius now)"
  have "fst (tickEliminations srv radius now) = srv\<lparr>store := ?st1\<rparr> \<or>
      (\<exists>w. fst (tickEliminations srv radius now) = fst (handleGameEnd (srv\<lparr>store := ?st1\<rparr>) w now))"
    by (auto simp: tickEliminations_def Let_def case_prod_beta)
  with sessionVars_checkPlayers [of "store srv" "getAlivePlayers (store srv)" radius now]
  show ?thesis by blast
qed

lemma follow_tickEliminations:
  assumes "timersFollowPhase srv" and "gameState (store srv) = PLAYING"
  shows "timersFollowPhase (fst (tickEliminations srv radius now))"
    and "gameLoopInterval (fst (tickEliminations srv radius now)) = gameLoopInterval srv"
    and "gameState (store (fst (tickEliminations srv radius now))) \<in> {PLAYING, ENDED}"
proof -
  from tickEliminations_shape [of srv radius now]
  obtain st1 where vars: "sessionVars st1 = sessionVars (store srv)"
    and shape: "fst (tickEliminations srv radius now) = srv\<lparr>store := st1\<rparr> \<or>
      (\<exists>w. fst (tickEliminations srv radius now) = fst (handleGameEnd (srv\<lparr>store := st1\<rparr>) w now))"
    by blast
  from vars have phase: "gameState st1 = gameState (store srv)" by (simp add: sessionVars_def)
  with assms have inv1: "timersFollowPhase (srv\<lparr>store := st1\<rparr>)"
    and playing1: "gameState (store (srv\<lparr>store := st1\<rparr>)) = PLAYING"
    by (simp_all add: follow_store)
  from shape inv1 follow_handleGameEnd [OF inv1 playing1]
  show "timersFollowPhase (fst (tickEliminations srv radius now))" by auto
  from shape handleGameEnd_gameLoop [of "srv\<lparr>store := st1\<rparr>" _ now]
  show "gameLoopInterval (fst (tickEliminations srv radius now)) = gameLoopInterval srv" by auto
  have "gameState (store (fst (handleGameEnd (srv\<lparr>store := st1\<rparr>) w now))) = ENDED" for w
    using playing1
    by (simp add: handleGameEnd_def Let_def setGameState_def clearInterval_def
          split: option.splits)
  with shape playing1
  show "gameState (store (fst (tickEliminations srv radius now))) \<in> {PLAYING, ENDED}" by auto
qed

lemma tickWarning_shape:
  "\<exists>w. fst (tickWarning srv radius now) = srv\<lparr>previousWarningState := w\<rparr>"
proof (cases "fst (tickWarning srv radius now) = srv")
  case True
  have "srv = srv\<lparr>previousWarningState := previousWarningState srv\<rparr>" by simp
  with True show ?thesis by metis
next
  case False
  then show ?thesis by (auto simp: tickWarning_def Let_def split: if_splits)
qed

lemma tickShrink_shape:
  "fst (tickShrink srv radius now) = srv \<or>
   (\<exists>r. fst (tickShrink srv radius now) = srv\<lparr>store := shrinkPlatform (store srv) r now\<rparr>)"
  by (auto simp: tickShrink_def Let_def)

lemma follow_gameLoopTick:
  assumes "timersFollowPhase srv"
  shows "timersFollowPhase (fst (gameLoopTick srv now))"
    and "gameLoopInterval (fst (gameLoopTick srv now)) = gameLoopInterval srv"
proof -
  let ?r = "platformRadius (store srv)"
  let ?srv1 = "fst (tickEliminations srv ?r now)"
  let ?srv2 = "fst (tickWarning ?srv1 ?r now)"
  let ?srv3 = "fst (tickShrink ?srv2 ?r now)"
  have tick: "fst (gameLoopTick srv now) = (if gameState (store srv) = PLAYING then ?srv3 else srv)"
    by (simp add: gameLoopTick_def Let_def case_prod_beta)
  have "timersFollowPhase ?srv3 \<and> gameLoopInterval ?srv3 = gameLoopInterval srv"
    if playing: "gameState (store srv) = PLAYING"
  proof -
    note one = follow_tickEliminations [OF assms playing, of ?r now]
    from tickWarning_shape [of ?srv1 ?r now]
    obtain w where two: "?srv2 = ?srv1\<lparr>previousWarningState := w\<rparr>" by blast
    have inv2: "timersFollowPhase ?srv2" and gl2: "gameLoopInterval ?srv2 = gameLoopInterval srv"
      using one(1,2) by (simp_all add: two)
    from tickShrink_shape [of ?srv2 ?r now]
    show ?thesis
    proof
      assume "?srv3 = ?srv2"
      with inv2 gl2 show ?thesis by simp
    next
      assume "\<exists>r. ?srv3 = ?srv2\<lparr>store := shrinkPlatform (store ?srv2) r now\<rparr>"
      then obtain r where three: "?srv3 = ?srv2\<lparr>store := shrinkPlatform (store ?srv2) r now\<rparr>"
        by blast
      have "gameState (shrinkPlatform (store ?srv2) r now) = gameState (store ?srv2)"
        by (simp add: shrinkPlatform_def)
      from follow_store [OF this] inv2 gl2 show ?thesis by (simp add: three)
    qed
  qed
  with assms tick
  show "timersFollowPhase (fst (gameLoopTick srv now))"
    and "gameLoopInterval (fst (gameLoopTick srv now)) = gameLoopInterval srv"
    by auto
qed

lemma follow_scoreTick:
  assumes "timersFollowPhase srv"
  shows "timersFollowPhase (fst (scoreTick srv now))"
    and "gameLoopInterval (fst (scoreTick srv now)) = gameLoopInterval srv"
proof -
  have "gameState (fst (getScoreSnapshot (store srv) now)) = gameState (store srv)"
    by (rule sessionVars_fields(1) [OF sessionVars_getScoreSnapshot])
  from follow_store [OF this] assms
  show "timersFollowPhase (fst (scoreTick srv now))"
    by (simp add: scoreTick_def case_prod_beta)
  show "gameLoopInterval (fst (scoreTick srv now)) = gameLoopInterval srv"
    by (simp add: scoreTick_def case_prod_beta)
qed

lemma follow_countdownTick_gameLoop:
  assumes "gameLoopInterval srv = Some g"
  shows "gameLoopInterval (fst (countdownTick srv h count now)) = Some g"
  using assms
  by (simp add: countdownTick_def Let_def startScoreUpdates_gameLoop startGameLoop_def
        clearInterval_def split: option.splits)

lemma follow_onJoin:
  assumes "timersFollowPhase srv"
  shows "timersFollowPhase (fst (onJoin srv sid nm now r1 r2))"
    and "gameLoopInterval srv = Some g \<Longrightarrow>
         gameLoopInterval (fst (onJoin srv sid nm now r1 r2)) = Some g"
proof -
  let ?st1 = "fst (createPlayer (store srv) sid nm now r1 r2)"
  have shape: "fst (onJoin srv sid nm now r1 r2)
                 = (if getPlayerCount (store srv) \<ge> MAX_PLAYERS then srv
                    else startGameLoop (srv\<lparr>store := ?st1\<rparr>))"
    by (simp add: onJoin_def Let_def case_prod_beta)
  have "timersFollowPhase (srv\<lparr>store := ?st1\<rparr>)"
    using follow_store [OF createPlayer_gameState] assms by simp
  from follow_startGameLoop [OF this] assms shape
  show "timersFollowPhase (fst (onJoin srv sid nm now r1 r2))" by simp
  show "gameLoopInterval (fst (onJoin srv sid nm now r1 r2)) = Some g"
    if "gameLoopInterval srv = Some g"
    using that shape by (simp add: startGameLoop_def)
qed

lemma follow_onInput:
  assumes "timersFollowPhase srv"
  shows "timersFollowPhase (fst (onInput srv sid pos vel now))"
    and "gameLoopInterval (fst (onInput srv sid pos vel now)) = gameLoopInterval srv"
proof -
  have "gameState (updatePlayerPosition (store srv) sid pos vel now) = gameState (store srv)"
    by (rule sessionVars_fields(1) [OF sessionVars_updatePlayerPosition])
  from follow_store [OF this] assms
  show "timersFollowPhase (fst (onInput srv sid pos vel now))"
    by (simp add: onInput_def split: option.splits)
  show "gameLoopInterval (fst (onInput srv sid pos vel now)) = gameLoopInterval srv"
    by (simp add: onInput_def split: option.splits)
qed

lemma follow_onCollision:
  assumes "timersFollowPhase srv"
  shows "timersFollowPhase (fst (onCollision srv sid other now))"
    and "gameLoopInterval (fst (onCollision srv sid other now)) = gameLoopInterval srv"
proof -
  have "gameState (recordCollision (store srv) other sid now) = gameState (store srv)"
    by (rule sessionVars_fields(1) [OF sessionVars_recordCollision])
  from follow_store [OF this] assms
  show "timersFollowPhase (fst (onCollision srv sid other now))"
    by (simp add: onCollision_def split: option.splits)
  show "gameLoopInterval (fst (onCollision srv sid other now)) = gameLoopInterval srv"
    by (simp add: onCollision_def split: option.splits)
qed

lemma follow_onStartGame:
  assumes "timersFollowPhase srv"
  shows "timersFollowPhase (fst (onStartGame srv sid now))"
    and "gameLoopInterval (fst (onStartGame srv sid now)) = gameLoopInterval srv"
proof -
  show "timersFollowPhase (fst (onStartGame srv sid now))"
    using assms follow_startCountdown [OF assms, of now] by (simp add: onStartGame_def)
  show "gameLoopInterval (fst (onStartGame srv sid now)) = gameLoopInterval srv"
    by (simp add: onStartGame_def startCountdown_def setInterval_def Let_def)
qed

lemma follow_onReady:
  assumes "timersFollowPhase srv"
  shows "timersFollowPhase (fst (onReady srv sid ready))"
    and "gameLoopInterval (fst (onReady srv sid ready)) = gameLoopInterval srv"
proof -
  have "gameState (setPlayerReady (store srv) sid ready) = gameState (store srv)"
    by (rule sessionVars_fields(1) [OF sessionVars_setPlayerReady])
  from follow_store [OF this] assms
  show "timersFollowPhase (fst (onReady srv sid ready))" by (simp add: onReady_def)
  show "gameLoopInterval (fst (onReady srv sid ready)) = gameLoopInterval srv"
    by (simp add: onReady_def)
qed

lemma follow_onKonamiCode:
  assumes "timersFollowPhase srv"
  shows "timersFollowPhase (fst (onKonamiCode srv sid now))"
    and "gameLoopInterval (fst (onKonamiCode srv sid now)) = gameLoopInterval srv"
proof -
  let ?st1 = "fst (konamiEliminate (store srv) (getAlivePlayers (store srv)) sid now)"
  have shape: "fst (onKonamiCode srv sid now) = srv \<or>
     (gameState (store srv) = PLAYING \<and>
      (\<exists>w. fst (onKonamiCode srv sid now) = fst (handleGameEnd (srv\<lparr>store := ?st1\<rparr>) w now)))"
    by (auto simp: onKonamiCode_def Let_def case_prod_beta split: option.splits)
  have phase: "gameState ?st1 = gameState (store srv)"
    by (rule sessionVars_fields(1) [OF sessionVars_konamiEliminate])
  have inv1: "timersFollowPhase (srv\<lparr>store := ?st1\<rparr>)"
    using follow_store [OF phase] assms by simp
  from shape show "timersFollowPhase (fst (onKonamiCode srv sid now))"
  proof
    assume "fst (onKonamiCode srv sid now) = srv"
    with assms show ?thesis by simp
  next
    assume "gameState (store srv) = PLAYING \<and>
      (\<exists>w. fst (onKonamiCode srv sid now) = fst (handleGameEnd (srv\<lparr>store := ?st1\<rparr>) w now))"
    then obtain w where playing: "gameState (store srv) = PLAYING"
      and result: "fst (onKonamiCode srv sid now) = fst (handleGameEnd (srv\<lparr>store := ?st1\<rparr>) w now)"
      by blast
    from playing phase have "gameState (store (srv\<lparr>store := ?st1\<rparr>)) = PLAYING" by simp
    from follow_handleGameEnd [OF inv1 this, of w now] result show ?thesis by simp
  qed
  from shape handleGameEnd_gameLoop [of "srv\<lparr>store := ?st1\<rparr>" _ now]
  show "gameLoopInterval (fst (onKonamiCode srv sid now)) = gameLoopInterval srv" by auto
qed

lemma follow_onPlayAgain:
  assumes "timersFollowPhase srv"
  shows "timersFollowPhase (fst (onPlayAgain srv sid now rnd))"
    and "gameLoopInterval (fst (onPlayAgain srv sid now rnd)) = gameLoopInterval srv"
proof -
  show "timersFollowPhase (fst (onPlayAgain srv sid now rnd))"
    using assms by (auto simp: onPlayAgain_def Let_def timersFollowPhase_def resetGame_def)
  show "gameLoopInterval (fst (onPlayAgain srv sid now rnd)) = gameLoopInterval srv"
    by (simp add: onPlayAgain_def Let_def)
qed

lemma follow_onDisconnect:
  assumes "timersFollowPhase srv"
  shows "timersFollowPhase (fst (onDisconnect srv sid now))"
    and "gameLoopInterval (fst (onDisconnect srv sid now)) = gameLoopInterval srv"
proof -
  let ?st1 = "fst (removePlayer (store srv) sid)"
  have shape: "fst (onDisconnect srv sid now) = srv\<lparr>store := ?st1\<rparr> \<or>
     (gameState ?st1 = PLAYING \<and>
      (\<exists>w. fst (onDisconnect srv sid now) = fst (handleGameEnd (srv\<lparr>store := ?st1\<rparr>) w now)))"
    by (cases "snd (removePlayer (store srv) sid)")
       (auto simp: onDisconnect_def Let_def case_prod_beta)
  have inv1: "timersFollowPhase (srv\<lparr>store := ?st1\<rparr>)"
    using follow_store [OF removePlayer_gameState] assms by simp
  from shape show "timersFollowPhase (fst (onDisconnect srv sid now))"
  proof
    assume "fst (onDisconnect srv sid now) = srv\<lparr>store := ?st1\<rparr>"
    with inv1 show ?thesis by simp
  next
    assume "gameState ?st1 = PLAYING \<and>
      (\<exists>w. fst (onDisconnect srv sid now) = fst (handleGameEnd (srv\<lparr>store := ?st1\<rparr>) w now))"
    then obtain w where playing: "gameState ?st1 = PLAYING"
      and result: "fst (onDisconnect srv sid now) = fst (handleGameEnd (srv\<lparr>store := ?st1\<rparr>) w now)"
      by blast
    from playing have "gameState (store (srv\<lparr>store := ?st1\<rparr>)) = PLAYING" by simp
    from follow_handleGameEnd [OF inv1 this, of w now] result show ?thesis by simp
  qed
  from shape handleGameEnd_gameLoop [of "srv\<lparr>store := ?st1\<rparr>" _ now]
  show "gameLoopInterval (fst (onDisconnect srv sid now)) = gameLoopInterval srv" by auto
qed

text \<open>Every turn of the server keeps the timers in step with the phase.\<close>

lemma follow_serverStep:
  assumes "timersFollowPhase srv"
  shows "timersFollowPhase (fst (serverStep srv now rnd ev))"
proof (cases ev)
  case (TimerFires h)
  show ?thesis
  proof (cases "map_of (timers srv) h")
    case None
    with TimerFires assms show ?thesis by simp
  next
    case (Some t)
    then show ?thesis
      using TimerFires follow_gameLoopTick(1) [OF assms] follow_scoreTick(1) [OF assms]
        follow_countdownTick [OF assms]
      by (cases t) simp_all
  qed
qed (simp_all add: assms onConnection_def follow_onJoin follow_onInput follow_onCollision
       follow_onStartGame follow_onReady follow_onKonamiCode follow_onPlayAgain
       follow_onDisconnect)

lemma gameLoop_kept:
  assumes "timersFollowPhase srv" and "gameLoopInterval srv = Some g"
  shows "gameLoopInterval (fst (serverStep srv now rnd ev)) = Some g"
proof (cases ev)
  case (TimerFires h)
  show ?thesis
  proof (cases "map_of (timers srv) h")
    case None
    with TimerFires assms show ?thesis by simp
  next
    case (Some t)
    then show ?thesis
      using TimerFires follow_gameLoopTick(2) [OF assms(1)] follow_scoreTick(2) [OF assms(1)]
        follow_countdownTick_gameLoop [OF assms(2)] assms(2)
      by (cases t) simp_all
  qed
qed (simp_all add: assms onConnection_def follow_onJoin follow_onInput follow_onCollision
       follow_onStartGame follow_onReady follow_onKonamiCode follow_onPlayAgain
       follow_onDisconnect)

lemma reachable_follow: "reachable srv \<Longrightarrow> timersFollowPhase srv"
proof (induction rule: reachable.induct)
  case reachable_init
  show ?case
    by (simp add: timersFollowPhase_def timersHeld_def initialServer_def initialGame_def)
next
  case (reachable_step srv now rnd ev)
  then show ?case by (simp add: follow_serverStep)
qed

lemma only_gameLoop:
  assumes "timersHeld srv" and "countdownInterval srv = None" and "scoreUpdateInterval srv = None"
  shows "timers srv = (case gameLoopInterval srv of None \<Rightarrow> [] | Some g \<Rightarrow> [(g, GameLoopTimer)])"
proof -
  from assms(1) have dist: "distinct (map fst (timers srv))"
    and held: "heldMap (map_of (timers srv)) (nextHandle srv) (gameLoopInterval srv)
                 (countdownInterval srv) (scoreUpdateInterval srv)"
    by (simp_all add: timersHeld_iff)
  note D = heldMapD [OF held]
  have entry: "t = GameLoopTimer \<and> gameLoopInterval srv = Some h" if "(h, t) \<in> set (timers srv)" for h t
  proof -
    from that dist have m: "map_of (timers srv) h = Some t" by simp
    show ?thesis
    proof (cases t)
      case GameLoopTimer
      with m D(2) [of h] show ?thesis by simp
    next
      case (CountdownTimer k)
      with m D(3) [of h k] assms(2) show ?thesis by simp
    next
      case ScoreTimer
      with m D(4) [of h] assms(3) show ?thesis by simp
    qed
  qed
  show ?thesis
  proof (cases "timers srv")
    case Nil
    with D(5) show ?thesis by (cases "gameLoopInterval srv") auto
  next
    case (Cons e rest)
    obtain h t where e: "e = (h, t)" by (cases e)
    from entry [of h t] Cons e have first: "t = GameLoopTimer" "gameLoopInterval srv = Some h"
      by simp_all
    have "rest = []"
    proof (cases rest)
      case (Cons e' rest')
      obtain h' t' where e': "e' = (h', t')" by (cases e')
      from entry [of h' t'] \<open>timers srv = e # rest\<close> Cons e'
      have "gameLoopInterval srv = Some h'" by simp
      with first have "h' = h" by simp
      with dist \<open>timers srv = e # rest\<close> Cons e e' show ?thesis by simp
    qed simp
    with Cons e first show ?thesis by simp
  qed
qed

text \<open>
  Claim C9, as the code has it. In every state the server can reach, the countdown interval
  is active exactly during the countdown and the score interval exactly while the match is
  played, and no interval is active that the server does not hold a handle of: the countdown
  interval is cleared by the tick that starts the match, and the score interval by
  \<^verbatim>\<open>handleGameEnd\<close>, at the moment the phase becomes Ended. So in the lobby and after the
  match has ended neither of the two runs. The game loop interval is another matter: once
  started (at the first accepted join) it is never cleared. Every turn of the server keeps
  its handle and its entry in the runtime's table, in every phase; outside of play its tick
  does nothing.
\<close>

theorem timers_follow_phase:
  assumes "reachable srv"
  shows "(countdownInterval srv \<noteq> None) = (gameState (store srv) = COUNTDOWN) \<and>
         (scoreUpdateInterval srv \<noteq> None) = (gameState (store srv) = PLAYING) \<and>
         timersHeld srv \<and>
         (gameState (store srv) = LOBBY \<or> gameState (store srv) = ENDED \<longrightarrow>
            timers srv
              = (case gameLoopInterval srv of None \<Rightarrow> [] | Some g \<Rightarrow> [(g, GameLoopTimer)])) \<and>
         (\<forall>g. gameLoopInterval srv = Some g \<longrightarrow>
            gameLoopInterval (fst (serverStep srv now rnd ev)) = Some g \<and>
            map_of (timers (fst (serverStep srv now rnd ev))) g = Some GameLoopTimer) \<and>
         (gameState (store srv) \<noteq> PLAYING \<longrightarrow> gameLoopTick srv now = (srv, []))"
proof -
  from assms have inv: "timersFollowPhase srv" by (rule reachable_follow)
  then have held: "timersHeld srv"
    and countdown: "(countdownInterval srv \<noteq> None) = (gameState (store srv) = COUNTDOWN)"
    and score: "(scoreUpdateInterval srv \<noteq> None) = (gameState (store srv) = PLAYING)"
    by (simp_all add: timersFollowPhase_def)
  have idle: "timers srv
                = (case gameLoopInterval srv of None \<Rightarrow> [] | Some g \<Rightarrow> [(g, GameLoopTimer)])"
    if "gameState (store srv) = LOBBY \<or> gameState (store srv) = ENDED"
  proof -
    from that countdown score
    have "countdownInterval srv = None" and "scoreUpdateInterval srv = None" by auto
    with held show ?thesis by (rule only_gameLoop)
  qed
  have kept: "gameLoopInterval (fst (serverStep srv now rnd ev)) = Some g \<and>
              map_of (timers (fst (serverStep srv now rnd ev))) g = Some GameLoopTimer"
    if g: "gameLoopInterval srv = Some g" for g
  proof -
    let ?srv' = "fst (serverStep srv now rnd ev)"
    have var: "gameLoopInterval ?srv' = Some g" by (rule gameLoop_kept [OF inv g])
    have "timersFollowPhase ?srv'" by (rule follow_serverStep [OF inv])
    then have "heldMap (map_of (timers ?srv')) (nextHandle ?srv') (gameLoopInterval ?srv')
                 (countdownInterval ?srv') (scoreUpdateInterval ?srv')"
      by (simp add: timersFollowPhase_def timersHeld_iff)
    from heldMapD(5) [OF this var] var show ?thesis by simp
  qed
  have off: "gameLoopTick srv now = (srv, [])" if "gameState (store srv) \<noteq> PLAYING"
    using that by (simp add: gameLoopTick_def)
  from countdown score held idle kept off show ?thesis by blast
qed

lemmas server_defs =
  initialServer_def onJoin_def onStartGame_def startCountdown_def countdownTick_def
  onKonamiCode_def onPlayAgain_def handleGameEnd_def startGameLoop_def startScoreUpdates_def
  setInterval_def clearInterval_def getPlayerCount_def getPlayer_def getAllPlayers_def
  getAlivePlayers_def isHost_def MAX_PLAYERS_def COUNTDOWN_DURATION_def resetGame_def
  resetPlayer_def case_prod_beta

text \<open>
  Ann alone has joined and started the game, and the countdown has run out: the match is
  played, the countdown interval (handle 2) is cleared, the game loop (1) and the score
  loop (3) run. When Ann ends the match with the Konami code, the score loop is cleared in
  that turn and the game loop keeps its handle.
\<close>

theorem timers_follow_phase_witness:
  "reachable (run initialServer soloStart) \<and>
   gameState (store (run initialServer soloStart)) = PLAYING \<and>
   countdownInterval (run initialServer soloStart) = None \<and>
   scoreUpdateInterval (run initialServer soloStart) = Some 3 \<and>
   gameLoopInterval (run initialServer soloStart) = Some 1 \<and>
   timers (run initialServer soloStart) = [(1, GameLoopTimer), (3, ScoreTimer)] \<and>
   timersHeld (run initialServer soloStart) \<and>
   gameLoopInterval (fst (serverStep (run initialServer soloStart) 4000 (\<lambda>_. 0) (KonamiCode ''ann'')))
     = Some 1 \<and>
   scoreUpdateInterval (fst (serverStep (run initialServer soloStart) 4000 (\<lambda>_. 0)
                               (KonamiCode ''ann''))) = None \<and>
   gameState (store (fst (serverStep (run initialServer soloStart) 4000 (\<lambda>_. 0)
                            (KonamiCode ''ann'')))) = ENDED"
proof -
  let ?srv = "run initialServer soloStart"
  have reach: "reachable ?srv" by (rule reachable_run [OF reachable_init])
  have state: "controlOf ?srv
     = (PLAYING, Some 1, None, Some 3, [(1, GameLoopTimer), (3, ScoreTimer)], 4)"
    by (simp add: soloStart_def controlOf_def server_defs session_defs)
  have after: "controlOf (fst (serverStep ?srv 4000 (\<lambda>_. 0) (KonamiCode ''ann'')))
     = (ENDED, Some 1, None, None, [(1, GameLoopTimer)], 4)"
    by (simp add: soloStart_def controlOf_def server_defs session_defs)
  note follows = timers_follow_phase [OF reach, of 4000 "\<lambda>_. 0" "KonamiCode ''ann''"]
  from follows have held: "timersHeld ?srv" by blast
  from follows state
  have kept: "gameLoopInterval (fst (serverStep ?srv 4000 (\<lambda>_. 0) (KonamiCode ''ann''))) = Some 1"
    by (simp add: controlOf_def)
  from reach state after held kept show ?thesis by (simp add: controlOf_def)
qed

text \<open>
  Claim C9 as stated fails for the game loop interval. In the match of one, started at Ann's
  join under the handle 1, it is still in the runtime's table when the match has ended, and
  still when the round has been reset: no turn has cleared it.
\<close>

theorem game_loop_interval_counterexample:
  "reachable (run initialServer soloMatch) \<and>
   gameState (store (run initialServer soloMatch)) = ENDED \<and>
   gameLoopInterval (run initialServer soloMatch) = Some 1 \<and>
   timers (run initialServer soloMatch) = [(1, GameLoopTimer)] \<and>
   reachable (run initialServer soloRematch) \<and>
   gameState (store (run initialServer soloRematch)) = LOBBY \<and>
   gameLoopInterval (run initialServer soloRematch) = Some 1 \<and>
   timers (run initialServer soloRematch) = [(1, GameLoopTimer)]"
proof -
  have ended: "controlOf (run initialServer soloMatch)
     = (ENDED, Some 1, None, None, [(1, GameLoopTimer)], 4)"
    by (simp add: soloMatch_def soloStart_def controlOf_def server_defs session_defs)
  have reset: "controlOf (run initialServer soloRematch)
     = (LOBBY, Some 1, None, None, [(1, GameLoopTimer)], 4)"
    by (simp add: soloRematch_def soloMatch_def soloStart_def controlOf_def server_defs
          session_defs)
  from ended reset reachable_run [OF reachable_init, of soloMatch]
    reachable_run [OF reachable_init, of soloRematch]
  show ?thesis by (simp add: controlOf_def)
qed

end
